theory Spec2Isabelle
  imports Main "HOL-Library.List_Lexorder"
begin

section \<open>Python values\<close>

text \<open>
  A Python \<open>str\<close> is a sequence of code points (surrogates included), a \<open>bytes\<close>
  object a sequence of numbers below 256. Both are lists of naturals here. Code points
  from \<open>0x110000\<close> on do not occur in a Python string; the codecs below treat them as
  unencodable.
\<close>

type_synonym pystr = "nat list"
type_synonym bytes = "nat list"

text \<open>The exceptions the program and the library functions it calls can raise.\<close>

datatype exn =
    UnicodeEncodeError
  | UnicodeDecodeError
  | LookupError
  | KeyError
  | ValueError
  | LibraryError

text \<open>A transform is a Python function from \<open>str\<close> to \<open>str\<close> that may raise.\<close>

type_synonym transform = "pystr \<Rightarrow> exn + pystr"

definition ascii :: "string \<Rightarrow> pystr" where
  "ascii cs = map of_char cs"

definition bind_exn :: "exn + 'a \<Rightarrow> ('a \<Rightarrow> exn + 'b) \<Rightarrow> exn + 'b" where
  "bind_exn m f = (case m of Inl e \<Rightarrow> Inl e | Inr a \<Rightarrow> f a)"

section \<open>Library functions: codecs\<close>

datatype errors = Strict | Replace

definition is_surrogate :: "nat \<Rightarrow> bool" where
  "is_surrogate c = (0xD800 \<le> c \<and> c \<le> 0xDFFF)"

text \<open>The UTF-8 bytes of one code point; \<open>None\<close> where the codec reports an error.\<close>

definition utf8_char :: "nat \<Rightarrow> bytes option" where
  "utf8_char c =
     (if c < 0x80 then Some [c]
      else if c < 0x800 then Some [0xC0 + c div 64, 0x80 + c mod 64]
      else if is_surrogate c then None
      else if c < 0x10000 then
        Some [0xE0 + c div 4096, 0x80 + (c div 64) mod 64, 0x80 + c mod 64]
      else if c < 0x110000 then
        Some [0xF0 + c div 262144, 0x80 + (c div 4096) mod 64,
              0x80 + (c div 64) mod 64, 0x80 + c mod 64]
      else None)"

definition latin1_char :: "nat \<Rightarrow> bytes option" where
  "latin1_char c = (if c < 0x100 then Some [c] else None)"

text \<open>
  \<open>str.encode(encoding, errors)\<close> for a codec given by its per-character table:
  \<open>errors='strict'\<close> raises at the first character without an encoding,
  \<open>errors='replace'\<close> writes the codec's bytes for \<open>?\<close> in its place.
\<close>

fun encode_strict :: "(nat \<Rightarrow> bytes option) \<Rightarrow> pystr \<Rightarrow> exn + bytes" where
  "encode_strict enc [] = Inr []"
| "encode_strict enc (c # cs) =
     (case enc c of
        None \<Rightarrow> Inl UnicodeEncodeError
      | Some bs \<Rightarrow> bind_exn (encode_strict enc cs) (\<lambda>r. Inr (bs @ r)))"

definition encode_replace :: "(nat \<Rightarrow> bytes option) \<Rightarrow> bytes \<Rightarrow> pystr \<Rightarrow> bytes" where
  "encode_replace enc q s =
     concat (map (\<lambda>c. case enc c of None \<Rightarrow> q | Some bs \<Rightarrow> bs) s)"

definition encode_with :: "(nat \<Rightarrow> bytes option) \<Rightarrow> bytes \<Rightarrow> errors \<Rightarrow> pystr \<Rightarrow> exn + bytes" where
  "encode_with enc q errs s =
     (case errs of Strict \<Rightarrow> encode_strict enc s | Replace \<Rightarrow> Inr (encode_replace enc q s))"

definition utf8_encode :: "errors \<Rightarrow> pystr \<Rightarrow> exn + bytes" where
  "utf8_encode = encode_with utf8_char [63]"

text \<open>\<open>bytes.decode('ascii')\<close>: raises on a byte from 128 on.\<close>

definition decode_ascii :: "bytes \<Rightarrow> exn + pystr" where
  "decode_ascii bs = (if list_all (\<lambda>b. b < 128) bs then Inr bs else Inl UnicodeDecodeError)"

section \<open>Library functions: binary-to-text\<close>

definition hexdigit :: "nat \<Rightarrow> nat" where
  "hexdigit n = (if n < 10 then 48 + n else 87 + n)"

text \<open>\<open>binascii.hexlify\<close>: two lowercase hexadecimal digits for each byte.\<close>

definition hexlify :: "bytes \<Rightarrow> bytes" where
  "hexlify bs = concat (map (\<lambda>b. [hexdigit (b div 16), hexdigit (b mod 16)]) bs)"

definition b64chr :: "nat \<Rightarrow> nat" where
  "b64chr n =
     (if n < 26 then 65 + n
      else if n < 52 then 71 + n
      else if n < 62 then n - 4
      else if n = 62 then 43
      else 47)"

text \<open>\<open>base64.b64encode\<close>: the standard alphabet, padded with \<open>=\<close>.\<close>

fun b64encode :: "bytes \<Rightarrow> bytes" where
  "b64encode [] = []"
| "b64encode [a] = [b64chr (a div 4), b64chr ((a mod 4) * 16), 61, 61]"
| "b64encode [a, b] =
     [b64chr (a div 4), b64chr ((a mod 4) * 16 + b div 16), b64chr ((b mod 16) * 4), 61]"
| "b64encode (a # b # c # rest) =
     [b64chr (a div 4), b64chr ((a mod 4) * 16 + b div 16),
      b64chr ((b mod 16) * 4 + c div 64), b64chr (c mod 64)] @ b64encode rest"

text \<open>\<open>str.rstrip(ch)\<close> for a single character \<open>ch\<close>.\<close>

definition rstrip :: "nat \<Rightarrow> pystr \<Rightarrow> pystr" where
  "rstrip ch s = rev (dropWhile (\<lambda>c. c = ch) (rev s))"

section \<open>Library functions: URL quoting\<close>

text \<open>
  The bytes \<open>urllib.parse.quote\<close> never escapes: ASCII letters, digits and \<open>_.-~\<close>.
\<close>

definition always_safe :: "nat \<Rightarrow> bool" where
  "always_safe b =
     ((65 \<le> b \<and> b \<le> 90) \<or> (97 \<le> b \<and> b \<le> 122) \<or> (48 \<le> b \<and> b \<le> 57)
      \<or> b = 95 \<or> b = 46 \<or> b = 45 \<or> b = 126)"

definition hexdigit_upper :: "nat \<Rightarrow> nat" where
  "hexdigit_upper n = (if n < 10 then 48 + n else 55 + n)"

text \<open>\<open>quote_from_bytes\<close>: a byte that is not safe becomes \<open>%XX\<close> in uppercase.\<close>

definition quote_from_bytes :: "nat list \<Rightarrow> bytes \<Rightarrow> pystr" where
  "quote_from_bytes safe bs =
     concat (map (\<lambda>b. if always_safe b \<or> b \<in> set safe then [b]
                        else [37, hexdigit_upper (b div 16), hexdigit_upper (b mod 16)]) bs)"

text \<open>\<open>urllib.parse.quote(s, safe=safe)\<close>: UTF-8 with \<open>errors='strict'\<close>, then escaping.\<close>

definition quote :: "nat list \<Rightarrow> pystr \<Rightarrow> exn + pystr" where
  "quote safe s =
     (if s = [] then Inr s
      else bind_exn (utf8_encode Strict s) (\<lambda>bs. Inr (quote_from_bytes safe bs)))"

definition is_hexdig :: "nat \<Rightarrow> bool" where
  "is_hexdig c = ((48 \<le> c \<and> c \<le> 57) \<or> (97 \<le> c \<and> c \<le> 102) \<or> (65 \<le> c \<and> c \<le> 70))"

definition hexval :: "nat \<Rightarrow> nat" where
  "hexval c = (if c \<le> 57 then c - 48 else if 97 \<le> c then c - 87 else c - 55)"

text \<open>
  \<open>unquote_to_bytes\<close> on ASCII text: \<open>%\<close> followed by two hexadecimal digits is one
  byte, any other character stands for itself.
\<close>

fun unquote_to_bytes :: "pystr \<Rightarrow> bytes" where
  "unquote_to_bytes (p # h # l # rest) =
     (if p = 37 \<and> is_hexdig h \<and> is_hexdig l
      then (hexval h * 16 + hexval l) # unquote_to_bytes rest
      else p # unquote_to_bytes (h # l # rest))"
| "unquote_to_bytes s = s"

definition is_cont :: "nat \<Rightarrow> bool" where
  "is_cont b = (0x80 \<le> b \<and> b \<le> 0xBF)"

text \<open>The second byte a lead byte admits (no overlong forms, no surrogates, at most U+10FFFF).\<close>

definition second_ok :: "nat \<Rightarrow> nat \<Rightarrow> bool" where
  "second_ok b0 b1 =
     (if b0 = 0xE0 then 0xA0 \<le> b1 \<and> b1 \<le> 0xBF
      else if b0 = 0xED then 0x80 \<le> b1 \<and> b1 \<le> 0x9F
      else if b0 = 0xF0 then 0x90 \<le> b1 \<and> b1 \<le> 0xBF
      else if b0 = 0xF4 then 0x80 \<le> b1 \<and> b1 \<le> 0x8F
      else is_cont b1)"

text \<open>
  \<open>bytes.decode('utf-8', errors='replace')\<close>: each maximal ill-formed prefix becomes
  U+FFFD and decoding resumes at the byte that broke the sequence.
\<close>

fun utf8_decode_replace :: "bytes \<Rightarrow> pystr" where
  "utf8_decode_replace [] = []"
| "utf8_decode_replace (b0 # rest) =
     (if b0 < 0x80 then b0 # utf8_decode_replace rest
      else if 0xC2 \<le> b0 \<and> b0 \<le> 0xDF then
        (case rest of
           [] \<Rightarrow> [0xFFFD]
         | b1 # r1 \<Rightarrow>
             if is_cont b1 then ((b0 - 0xC0) * 64 + (b1 - 0x80)) # utf8_decode_replace r1
             else 0xFFFD # utf8_decode_replace rest)
      else if 0xE0 \<le> b0 \<and> b0 \<le> 0xEF then
        (case rest of
           [] \<Rightarrow> [0xFFFD]
         | b1 # r1 \<Rightarrow>
             if \<not> second_ok b0 b1 then 0xFFFD # utf8_decode_replace rest
             else (case r1 of
                     [] \<Rightarrow> [0xFFFD]
                   | b2 # r2 \<Rightarrow>
                       if is_cont b2 then
                         ((b0 - 0xE0) * 4096 + (b1 - 0x80) * 64 + (b2 - 0x80))
                           # utf8_decode_replace r2
                       else 0xFFFD # utf8_decode_replace r1))
      else if 0xF0 \<le> b0 \<and> b0 \<le> 0xF4 then
        (case rest of
           [] \<Rightarrow> [0xFFFD]
         | b1 # r1 \<Rightarrow>
             if \<not> second_ok b0 b1 then 0xFFFD # utf8_decode_replace rest
             else (case r1 of
                     [] \<Rightarrow> [0xFFFD]
                   | b2 # r2 \<Rightarrow>
                       if \<not> is_cont b2 then 0xFFFD # utf8_decode_replace r1
                       else (case r2 of
                               [] \<Rightarrow> [0xFFFD]
                             | b3 # r3 \<Rightarrow>
                                 if is_cont b3 then
                                   ((b0 - 0xF0) * 262144 + (b1 - 0x80) * 4096
                                      + (b2 - 0x80) * 64 + (b3 - 0x80))
                                     # utf8_decode_replace r3
                                 else 0xFFFD # utf8_decode_replace r2)))
      else 0xFFFD # utf8_decode_replace rest)"

text \<open>
  The body of \<open>urllib.parse.unquote\<close>: the text is cut into maximal runs of ASCII
  characters and runs of other characters; each ASCII run (\<open>acc\<close> collects the current
  one) is unquoted to bytes and decoded as UTF-8 with \<open>errors='replace'\<close>, the other
  runs are kept.
\<close>

fun unquote_parts :: "pystr \<Rightarrow> pystr \<Rightarrow> pystr" where
  "unquote_parts acc [] = utf8_decode_replace (unquote_to_bytes acc)"
| "unquote_parts acc (c # cs) =
     (if c < 128 then unquote_parts (acc @ [c]) cs
      else utf8_decode_replace (unquote_to_bytes acc) @ c # unquote_parts [] cs)"

definition unquote :: "pystr \<Rightarrow> pystr" where
  "unquote s = (if 37 \<notin> set s then s else unquote_parts [] s)"

section \<open>Library functions: the rot_13 codec\<close>

definition rot13_char :: "nat \<Rightarrow> nat" where
  "rot13_char c =
     (if 65 \<le> c \<and> c \<le> 90 then 65 + (c - 65 + 13) mod 26
      else if 97 \<le> c \<and> c \<le> 122 then 97 + (c - 97 + 13) mod 26
      else c)"

definition rot_13 :: "pystr \<Rightarrow> pystr" where
  "rot_13 s = map rot13_char s"

section \<open>Library functions: the other codecs\<close>

text \<open>
  The cp1251 code page above ASCII, as pairs (code point, byte): the positions
  \<open>0x80\<close> to \<open>0xBF\<close>; the letters U+0410 to U+044F follow at \<open>0xC0\<close> to \<open>0xFF\<close>.
  Byte \<open>0x98\<close> is unassigned.
\<close>

definition cp1251_table :: "(nat \<times> nat) list" where
  "cp1251_table =
     [
      (0x0402, 0x80), (0x0403, 0x81), (0x201A, 0x82), (0x0453, 0x83), (0x201E, 0x84),
      (0x2026, 0x85), (0x2020, 0x86), (0x2021, 0x87), (0x20AC, 0x88), (0x2030, 0x89),
      (0x0409, 0x8A), (0x2039, 0x8B), (0x040A, 0x8C), (0x040C, 0x8D), (0x040B, 0x8E),
      (0x040F, 0x8F), (0x0452, 0x90), (0x2018, 0x91), (0x2019, 0x92), (0x201C, 0x93),
      (0x201D, 0x94), (0x2022, 0x95), (0x2013, 0x96), (0x2014, 0x97), (0x2122, 0x99),
      (0x0459, 0x9A), (0x203A, 0x9B), (0x045A, 0x9C), (0x045C, 0x9D), (0x045B, 0x9E),
      (0x045F, 0x9F), (0x00A0, 0xA0), (0x040E, 0xA1), (0x045E, 0xA2), (0x0408, 0xA3),
      (0x00A4, 0xA4), (0x0490, 0xA5), (0x00A6, 0xA6), (0x00A7, 0xA7), (0x0401, 0xA8),
      (0x00A9, 0xA9), (0x0404, 0xAA), (0x00AB, 0xAB), (0x00AC, 0xAC), (0x00AD, 0xAD),
      (0x00AE, 0xAE), (0x0407, 0xAF), (0x00B0, 0xB0), (0x00B1, 0xB1), (0x0406, 0xB2),
      (0x0456, 0xB3), (0x0491, 0xB4), (0x00B5, 0xB5), (0x00B6, 0xB6), (0x00B7, 0xB7),
      (0x0451, 0xB8), (0x2116, 0xB9), (0x0454, 0xBA), (0x00BB, 0xBB), (0x0458, 0xBC),
      (0x0405, 0xBD), (0x0455, 0xBE), (0x0457, 0xBF)]"

definition cp1251_char :: "nat \<Rightarrow> bytes option" where
  "cp1251_char c =
     (if c < 0x80 then Some [c]
      else if 0x410 \<le> c \<and> c \<le> 0x44F then Some [c - 0x410 + 0xC0]
      else map_option (\<lambda>b. [b]) (map_of cp1251_table c))"

text \<open>
  The cp1252 code page: ASCII and \<open>0xA0\<close> to \<open>0xFF\<close> as in latin1, and these
  characters at \<open>0x80\<close> to \<open>0x9F\<close> (five bytes there are unassigned).
\<close>

definition cp1252_table :: "(nat \<times> nat) list" where
  "cp1252_table =
     [
      (0x20AC, 0x80), (0x201A, 0x82), (0x0192, 0x83), (0x201E, 0x84), (0x2026, 0x85),
      (0x2020, 0x86), (0x2021, 0x87), (0x02C6, 0x88), (0x2030, 0x89), (0x0160, 0x8A),
      (0x2039, 0x8B), (0x0152, 0x8C), (0x017D, 0x8E), (0x2018, 0x91), (0x2019, 0x92),
      (0x201C, 0x93), (0x201D, 0x94), (0x2022, 0x95), (0x2013, 0x96), (0x2014, 0x97),
      (0x02DC, 0x98), (0x2122, 0x99), (0x0161, 0x9A), (0x203A, 0x9B), (0x0153, 0x9C),
      (0x017E, 0x9E), (0x0178, 0x9F)]"

definition cp1252_char :: "nat \<Rightarrow> bytes option" where
  "cp1252_char c =
     (if c < 0x80 \<or> (0xA0 \<le> c \<and> c \<le> 0xFF) then Some [c]
      else map_option (\<lambda>b. [b]) (map_of cp1252_table c))"

text \<open>The 16-bit units of one code point in UTF-16: a surrogate pair above U+FFFF.\<close>

definition utf16_units :: "nat \<Rightarrow> nat list option" where
  "utf16_units c =
     (if is_surrogate c then None
      else if c < 0x10000 then Some [c]
      else if c < 0x110000 then
        Some [0xD800 + (c - 0x10000) div 1024, 0xDC00 + (c - 0x10000) mod 1024]
      else None)"

definition utf16le_char :: "nat \<Rightarrow> bytes option" where
  "utf16le_char c = map_option (\<lambda>us. concat (map (\<lambda>u. [u mod 256, u div 256]) us)) (utf16_units c)"

definition utf16be_char :: "nat \<Rightarrow> bytes option" where
  "utf16be_char c = map_option (\<lambda>us. concat (map (\<lambda>u. [u div 256, u mod 256]) us)) (utf16_units c)"

definition ascii_char :: "nat \<Rightarrow> bytes option" where
  "ascii_char c = (if c < 0x80 then Some [c] else None)"

section \<open>Library functions taken as parameters\<close>

text \<open>
  The functions of the Python library whose results no property below depends on are
  fields of a record: the compressors (with their level argument where the program
  passes one), the base-32, base-85 and Ascii85 encoders, \<open>quopri.encodestring\<close>, the
  \<open>punycode\<close>, \<open>unicode_escape\<close> and \<open>utf-7\<close> codecs, \<open>str.encode\<close> for the
  encodings that are not written out here (\<open>codecs_encode\<close>, which is given the name
  of the encoding and raises \<open>LookupError\<close> where the library knows none),
  \<open>str.isdigit\<close> on one character, and the permutation \<open>random.shuffle\<close> applies.
\<close>

record pylib =
  gzip_compress :: "nat \<Rightarrow> bytes \<Rightarrow> bytes"
  zlib_compress :: "int \<Rightarrow> bytes \<Rightarrow> bytes"
  bz2_compress :: "bytes \<Rightarrow> bytes"
  lzma_compress :: "bytes \<Rightarrow> bytes"
  b32encode :: "bytes \<Rightarrow> bytes"
  b85encode :: "bytes \<Rightarrow> bytes"
  a85encode :: "bytes \<Rightarrow> bytes"
  quopri_encodestring :: "bytes \<Rightarrow> bytes"
  punycode_encode :: "pystr \<Rightarrow> exn + bytes"
  unicode_escape_encode :: "pystr \<Rightarrow> bytes"
  utf7_encode :: "errors \<Rightarrow> pystr \<Rightarrow> exn + bytes"
  codecs_encode :: "pystr \<Rightarrow> errors \<Rightarrow> pystr \<Rightarrow> exn + bytes"
  isdigit :: "nat \<Rightarrow> bool"
  random_shuffle :: "pystr \<Rightarrow> pystr"

section \<open>Library functions: finding a codec by its name\<close>

text \<open>The codecs that are written out in this theory, and \<open>utf-7\<close>.\<close>

datatype codec = UTF_8 | LATIN_1 | CP1251 | CP1252 | UTF_16_LE | UTF_16_BE | UTF_7 | ASCII

text \<open>
  The library normalises the name of an encoding before it looks it up: ASCII letters
  (made lowercase), digits and the full stop are kept, every run of other characters
  becomes one underscore, and nothing is written for such a run at the start or at
  the end.
\<close>

definition is_alnum :: "nat \<Rightarrow> bool" where
  "is_alnum c = ((48 \<le> c \<and> c \<le> 57) \<or> (65 \<le> c \<and> c \<le> 90) \<or> (97 \<le> c \<and> c \<le> 122))"

definition to_lower :: "nat \<Rightarrow> nat" where
  "to_lower c = (if 65 \<le> c \<and> c \<le> 90 then c + 32 else c)"

fun normalize_encoding :: "bool \<Rightarrow> pystr \<Rightarrow> pystr \<Rightarrow> pystr" where
  "normalize_encoding punct out [] = out"
| "normalize_encoding punct out (c # cs) =
     (if is_alnum c \<or> c = 46
      then normalize_encoding False
             ((if punct \<and> out \<noteq> [] then out @ [95] else out) @ [to_lower c]) cs
      else normalize_encoding True out cs)"

text \<open>
  The entries of \<open>encodings.aliases\<close> for these codecs, and the names of their modules
  in the package \<open>encodings\<close>.
\<close>

definition codec_aliases :: "(pystr \<times> codec) list" where
  "codec_aliases = map (\<lambda>(n, c). (ascii n, c))
     [(''cp65001'', UTF_8), (''u8'', UTF_8), (''utf'', UTF_8), (''utf8'', UTF_8),
      (''utf8_ucs2'', UTF_8), (''utf8_ucs4'', UTF_8),
      (''8859'', LATIN_1), (''cp819'', LATIN_1), (''csisolatin1'', LATIN_1),
      (''ibm819'', LATIN_1), (''iso8859'', LATIN_1), (''iso8859_1'', LATIN_1),
      (''iso_8859_1'', LATIN_1), (''iso_8859_1_1987'', LATIN_1), (''iso_ir_100'', LATIN_1),
      (''l1'', LATIN_1), (''latin'', LATIN_1), (''latin1'', LATIN_1),
      (''1251'', CP1251), (''windows_1251'', CP1251),
      (''1252'', CP1252), (''windows_1252'', CP1252),
      (''unicodelittleunmarked'', UTF_16_LE), (''utf_16le'', UTF_16_LE),
      (''unicodebigunmarked'', UTF_16_BE), (''utf_16be'', UTF_16_BE),
      (''u7'', UTF_7), (''unicode_1_1_utf_7'', UTF_7), (''utf7'', UTF_7),
      (''646'', ASCII), (''ansi_x3.4_1968'', ASCII), (''ansi_x3.4_1986'', ASCII),
      (''ansi_x3_4_1968'', ASCII), (''cp367'', ASCII), (''csascii'', ASCII),
      (''ibm367'', ASCII), (''iso646_us'', ASCII), (''iso_646.irv_1991'', ASCII),
      (''iso_ir_6'', ASCII), (''us'', ASCII), (''us_ascii'', ASCII)]"

definition codec_modules :: "(pystr \<times> codec) list" where
  "codec_modules = map (\<lambda>(n, c). (ascii n, c))
     [(''utf_8'', UTF_8), (''latin_1'', LATIN_1), (''cp1251'', CP1251), (''cp1252'', CP1252),
      (''utf_16_le'', UTF_16_LE), (''utf_16_be'', UTF_16_BE), (''utf_7'', UTF_7),
      (''ascii'', ASCII)]"

text \<open>
  The search: the normalised name among the aliases, then the same with every full
  stop replaced by an underscore, then the normalised name as the name of a module (a
  name with a full stop is none). \<open>None\<close> is a name that stands for none of these
  codecs.
\<close>

definition lookup_codec :: "pystr \<Rightarrow> codec option" where
  "lookup_codec encoding =
     (let n = normalize_encoding False [] encoding in
      case map_of codec_aliases n of
        Some c \<Rightarrow> Some c
      | None \<Rightarrow>
          (case map_of codec_aliases (map (\<lambda>c. if c = 46 then 95 else c) n) of
             Some c \<Rightarrow> Some c
           | None \<Rightarrow> if 46 \<in> set n then None else map_of codec_modules n))"

text \<open>
  \<open>s.encode(encoding, errors=errs)\<close> with the encoding given by name. A name that holds
  a surrogate or a null character is refused before any search; a name that stands
  for none of the codecs above is left to the library.
\<close>

definition str_encode :: "pylib \<Rightarrow> pystr \<Rightarrow> errors \<Rightarrow> pystr \<Rightarrow> exn + bytes" where
  "str_encode lib encoding errs s =
     (if list_ex is_surrogate encoding then Inl UnicodeEncodeError
      else if 0 \<in> set encoding then Inl ValueError
      else case lookup_codec encoding of
        Some UTF_8 \<Rightarrow> utf8_encode errs s
      | Some LATIN_1 \<Rightarrow> encode_with latin1_char [63] errs s
      | Some CP1251 \<Rightarrow> encode_with cp1251_char [63] errs s
      | Some CP1252 \<Rightarrow> encode_with cp1252_char [63] errs s
      | Some UTF_16_LE \<Rightarrow> encode_with utf16le_char [63, 0] errs s
      | Some UTF_16_BE \<Rightarrow> encode_with utf16be_char [0, 63] errs s
      | Some UTF_7 \<Rightarrow> utf7_encode lib errs s
      | Some ASCII \<Rightarrow> encode_with ascii_char [63] errs s
      | None \<Rightarrow> codecs_encode lib encoding errs s)"

section \<open>Library functions: strings and formatting\<close>

text \<open>\<open>s.replace(old, new)\<close> for a single character \<open>old\<close>.\<close>

definition replace_char :: "nat \<Rightarrow> pystr \<Rightarrow> pystr \<Rightarrow> pystr" where
  "replace_char old new s = concat (map (\<lambda>c. if c = old then new else [c]) s)"

text \<open>\<open>sep.join(parts)\<close>.\<close>

fun join :: "pystr \<Rightarrow> pystr list \<Rightarrow> pystr" where
  "join sep [] = []"
| "join sep [p] = p"
| "join sep (p # q # ps) = p @ sep @ join sep (q # ps)"

text \<open>\<open>str(n)\<close> for a number that is not negative.\<close>

fun str_nat :: "nat \<Rightarrow> pystr" where
  "str_nat n = (if n < 10 then [48 + n] else str_nat (n div 10) @ [48 + n mod 10])"

declare str_nat.simps [simp del]

fun hex_nat :: "bool \<Rightarrow> nat \<Rightarrow> pystr" where
  "hex_nat up n =
     (if n < 16 then [if up then hexdigit_upper n else hexdigit n]
      else hex_nat up (n div 16) @ [if up then hexdigit_upper (n mod 16) else hexdigit (n mod 16)])"

declare hex_nat.simps [simp del]

text \<open>
  The format specifications \<open>{:x}\<close>, \<open>{:02x}\<close>, \<open>{:04x}\<close>, \<open>{:04X}\<close> and \<open>%02X\<close>:
  hexadecimal digits, padded with zeros on the left up to the width.
\<close>

definition fmt_hex :: "bool \<Rightarrow> nat \<Rightarrow> nat \<Rightarrow> pystr" where
  "fmt_hex up width n = replicate (width - length (hex_nat up n)) 48 @ hex_nat up n"

text \<open>\<open>s.ljust(width, fill)\<close>.\<close>

definition ljust :: "nat \<Rightarrow> nat \<Rightarrow> pystr \<Rightarrow> pystr" where
  "ljust width fill s = s @ replicate (width - length s) fill"

text \<open>\<open>str.upper\<close> and \<open>str.lower\<close>, on the ASCII text the program applies them to.\<close>

definition upper_ascii :: "pystr \<Rightarrow> pystr" where
  "upper_ascii s = map (\<lambda>c. if 97 \<le> c \<and> c \<le> 122 then c - 32 else c) s"

definition lower_ascii :: "pystr \<Rightarrow> pystr" where
  "lower_ascii s = map (\<lambda>c. if 65 \<le> c \<and> c \<le> 90 then c + 32 else c) s"

text \<open>\<open>range(0, stop, step)\<close> for a positive step.\<close>

definition range_step :: "nat \<Rightarrow> nat \<Rightarrow> nat list" where
  "range_step stop step = map (\<lambda>k. step * k) [0..<(stop + step - 1) div step]"

text \<open>Evaluating a list of computations in order, stopping at the first that raises.\<close>

fun sequence_exn :: "(exn + 'a) list \<Rightarrow> exn + 'a list" where
  "sequence_exn [] = Inr []"
| "sequence_exn (m # ms) = bind_exn m (\<lambda>x. bind_exn (sequence_exn ms) (\<lambda>xs. Inr (x # xs)))"

text \<open>\<open>html.escape(s, quote=True)\<close>: five replacements, the ampersand first.\<close>

definition html_escape :: "pystr \<Rightarrow> pystr" where
  "html_escape s =
     replace_char 39 (ascii ''&#x27;'')
       (replace_char 34 (ascii ''&quot;'')
         (replace_char 62 (ascii ''&gt;'')
           (replace_char 60 (ascii ''&lt;'')
             (replace_char 38 (ascii ''&amp;'') s))))"

text \<open>\<open>base64.urlsafe_b64encode\<close>: \<open>+\<close> becomes \<open>-\<close> and \<open>/\<close> becomes \<open>_\<close>.\<close>

definition urlsafe_b64encode :: "bytes \<Rightarrow> bytes" where
  "urlsafe_b64encode bs = map (\<lambda>c. if c = 43 then 45 else if c = 47 then 95 else c) (b64encode bs)"

text \<open>\<open>urllib.parse.quote_plus(s)\<close> with its default \<open>safe=''\<close>.\<close>

definition quote_plus :: "pystr \<Rightarrow> exn + pystr" where
  "quote_plus s =
     (if 32 \<notin> set s then quote [] s
      else bind_exn (quote [32] s) (\<lambda>t. Inr (replace_char 32 [43] t)))"

section \<open>The base transforms\<close>

text \<open>
  The functions of \<open>transforms.py\<close>, in the order of the source. \<open>b64\<close> and \<open>hex\<close>
  stand for the recurring \<open>base64.b64encode(b).decode('ascii')\<close> and
  \<open>binascii.hexlify(b).decode('ascii')\<close>. Characters that are awkward in a string
  literal are written as code points: 34 is the double quote, 39 the apostrophe,
  92 the backslash, 10, 13 and 9 are newline, carriage return and tab.
\<close>

definition b64 :: "bytes \<Rightarrow> exn + pystr" where
  "b64 b = decode_ascii (b64encode b)"

definition hex :: "bytes \<Rightarrow> exn + pystr" where
  "hex b = decode_ascii (hexlify b)"

definition noop :: transform where
  "noop s = Inr s"

definition base64_std :: transform where
  "base64_std s = bind_exn (utf8_encode Strict s) b64"

definition base64_urlsafe :: transform where
  "base64_urlsafe s = bind_exn (utf8_encode Strict s) (\<lambda>b. decode_ascii (urlsafe_b64encode b))"

definition base64_nopad :: transform where
  "base64_nopad s = bind_exn (bind_exn (utf8_encode Strict s) b64) (\<lambda>t. Inr (rstrip 61 t))"

definition hex_lower :: transform where
  "hex_lower s = bind_exn (utf8_encode Strict s) hex"

definition hex_upper :: transform where
  "hex_upper s = bind_exn (bind_exn (utf8_encode Strict s) hex) (\<lambda>t. Inr (upper_ascii t))"

definition backslash_x :: transform where
  "backslash_x s =
     bind_exn (utf8_encode Strict s) (\<lambda>bs.
       Inr (concat (map (\<lambda>b. [92, 120] @ fmt_hex False 2 b) bs)))"

definition url_encode_all :: transform where
  "url_encode_all s = quote [] s"

definition url_encode_safe_slash :: transform where
  "url_encode_safe_slash s = quote [47] s"

definition double_url :: transform where
  "double_url s = bind_exn (quote [] s) (quote [])"

definition html_escape_named :: transform where
  "html_escape_named s = Inr (html_escape s)"

definition html_numeric_dec :: transform where
  "html_numeric_dec s =
     Inr (concat (map (\<lambda>ch. if ch > 127 \<or> ch \<in> set [60, 62, 38, 34, 39]
                              then ascii ''&#'' @ str_nat ch @ ascii '';'' else [ch]) s))"

definition html_numeric_hex :: transform where
  "html_numeric_hex s =
     Inr (concat (map (\<lambda>ch. if ch > 127 \<or> ch \<in> set [60, 62, 38, 34, 39]
                              then ascii ''&#x'' @ hex_nat False ch @ ascii '';'' else [ch]) s))"

definition unicode_escape_python :: "pylib \<Rightarrow> transform" where
  "unicode_escape_python lib s = decode_ascii (unicode_escape_encode lib s)"

definition js_escape :: transform where
  "js_escape s =
     Inr (concat (map (\<lambda>ch.
       if ch = 10 then [92, 110]
       else if ch = 13 then [92, 114]
       else if ch = 9 then [92, 116]
       else if ch = 39 \<or> ch = 34 \<or> ch = 92 then [92, ch]
       else if 32 \<le> ch \<and> ch < 127 then [ch]
       else [92, 117] @ fmt_hex False 4 ch) s))"

definition rot13 :: transform where
  "rot13 s = Inr (rot_13 s)"

definition rot47 :: transform where
  "rot47 s = Inr (map (\<lambda>c. if 33 \<le> c \<and> c \<le> 126 then 33 + ((c - 33 + 47) mod 94) else c) s)"

definition gzip_base64 :: "pylib \<Rightarrow> transform" where
  "gzip_base64 lib s = bind_exn (utf8_encode Strict s) (\<lambda>b. b64 (gzip_compress lib 9 b))"

definition zlib_base64 :: "pylib \<Rightarrow> transform" where
  "zlib_base64 lib s = bind_exn (utf8_encode Strict s) (\<lambda>b. b64 (zlib_compress lib (- 1) b))"

definition bz2_base64 :: "pylib \<Rightarrow> transform" where
  "bz2_base64 lib s = bind_exn (utf8_encode Strict s) (\<lambda>b. b64 (bz2_compress lib b))"

definition lzma_base64 :: "pylib \<Rightarrow> transform" where
  "lzma_base64 lib s = bind_exn (utf8_encode Strict s) (\<lambda>b. b64 (lzma_compress lib b))"

definition base32_std :: "pylib \<Rightarrow> transform" where
  "base32_std lib s = bind_exn (utf8_encode Strict s) (\<lambda>b. decode_ascii (b32encode lib b))"

definition base85_std :: "pylib \<Rightarrow> transform" where
  "base85_std lib s = bind_exn (utf8_encode Strict s) (\<lambda>b. decode_ascii (b85encode lib b))"

definition ascii85_std :: "pylib \<Rightarrow> transform" where
  "ascii85_std lib s = bind_exn (utf8_encode Strict s) (\<lambda>b. decode_ascii (a85encode lib b))"

definition quoted_printable :: "pylib \<Rightarrow> transform" where
  "quoted_printable lib s =
     bind_exn (utf8_encode Strict s) (\<lambda>b. decode_ascii (quopri_encodestring lib b))"

definition punycode :: "pylib \<Rightarrow> transform" where
  "punycode lib s =
     (case bind_exn (punycode_encode lib s) decode_ascii of
        Inl e \<Rightarrow> Inr s
      | Inr t \<Rightarrow> Inr t)"

section \<open>The generator over byte encodings\<close>

definition BYTE_ENCODINGS :: "pystr list" where
  "BYTE_ENCODINGS =
     map ascii [''utf-8'', ''latin1'', ''cp1251'', ''cp1252'', ''utf-16le'', ''utf-16be'', ''utf-7'']"

text \<open>The three closures of \<open>make_bytes_transform\<close>; each holds its own \<open>encoding\<close>.\<close>

definition f_hex :: "pylib \<Rightarrow> pystr \<Rightarrow> transform" where
  "f_hex lib encoding s =
     (case bind_exn (str_encode lib encoding Replace s) hex of
        Inl e \<Rightarrow> Inr s
      | Inr t \<Rightarrow> Inr t)"

definition f_b64 :: "pylib \<Rightarrow> pystr \<Rightarrow> transform" where
  "f_b64 lib encoding s =
     (case bind_exn (str_encode lib encoding Replace s) b64 of
        Inl e \<Rightarrow> Inr s
      | Inr t \<Rightarrow> Inr t)"

definition f_pct :: "pylib \<Rightarrow> pystr \<Rightarrow> transform" where
  "f_pct lib encoding s =
     (case bind_exn (str_encode lib encoding Replace s)
             (\<lambda>bs. Inr (concat (map (\<lambda>byte. 37 # fmt_hex True 2 byte) bs))) of
        Inl e \<Rightarrow> Inr s
      | Inr t \<Rightarrow> Inr t)"

definition make_bytes_transform :: "pylib \<Rightarrow> pystr \<Rightarrow> pystr \<Rightarrow> exn + transform" where
  "make_bytes_transform lib encoding output =
     (if output = ascii ''hex'' then Inr (f_hex lib encoding)
      else if output = ascii ''base64'' then Inr (f_b64 lib encoding)
      else if output = ascii ''percent'' then Inr (f_pct lib encoding)
      else Inl ValueError)"

section \<open>The numbered transforms\<close>

definition base64_custom_chars :: transform where
  "base64_custom_chars s =
     bind_exn (bind_exn (utf8_encode Strict s) b64)
       (\<lambda>t. Inr (replace_char 47 [45] (replace_char 43 [95] t)))"

definition base64_dot_pad :: transform where
  "base64_dot_pad s =
     bind_exn (bind_exn (utf8_encode Strict s) b64)
       (\<lambda>t. Inr (ljust (length t) 46 (rstrip 61 t)))"

definition hex_colon :: transform where
  "hex_colon s =
     bind_exn (utf8_encode Strict s) (\<lambda>bs. Inr (join [58] (map (fmt_hex False 2) bs)))"

definition hex_space :: transform where
  "hex_space s =
     bind_exn (utf8_encode Strict s) (\<lambda>bs. Inr (join [32] (map (fmt_hex False 2) bs)))"

definition hex_reverse :: transform where
  "hex_reverse s = bind_exn (utf8_encode Strict s) (\<lambda>b. hex (rev b))"

definition rot5_digits :: "pylib \<Rightarrow> transform" where
  "rot5_digits lib s =
     Inr (map (\<lambda>c. if isdigit lib c then nat ((int c - 48 + 5) mod 10 + 48) else c) s)"

definition rot13_base64 :: transform where
  "rot13_base64 s = bind_exn (utf8_encode Strict (rot_13 s)) b64"

text \<open>
  The generator of \<open>base64_mime\<close> encodes the string anew for each start index of
  \<open>range(0, len(s)*2, 76)\<close> and takes the slice \<open>[i:i+76]\<close>.
\<close>

definition base64_mime :: transform where
  "base64_mime s =
     bind_exn
       (sequence_exn
          (map (\<lambda>i. bind_exn (bind_exn (utf8_encode Strict s) b64)
                       (\<lambda>t. Inr (take 76 (drop i t))))
               (range_step (length s * 2) 76)))
       (\<lambda>parts. Inr (join [10] parts))"

definition url_encode_plus :: transform where
  "url_encode_plus s = quote_plus s"

definition url_decode :: transform where
  "url_decode s = (case (Inr (unquote s) :: exn + pystr) of Inl e \<Rightarrow> Inr s | Inr t \<Rightarrow> Inr t)"

definition html_escape_num_only :: transform where
  "html_escape_num_only s =
     Inr (concat (map (\<lambda>c. if c \<in> set [38, 60, 62, 34, 39]
                             then ascii ''&#'' @ str_nat c @ ascii '';'' else [c]) s))"

definition hex_0x_prefix :: transform where
  "hex_0x_prefix s =
     bind_exn (utf8_encode Strict s)
       (\<lambda>bs. Inr (concat (map (\<lambda>b. ascii ''0x'' @ fmt_hex False 2 b) bs)))"

definition unicode_escape_upper :: transform where
  "unicode_escape_upper s =
     Inr (concat (map (\<lambda>c. if c > 127 then [92, 117] @ fmt_hex True 4 c else [c]) s))"

definition shuffle_string :: "pylib \<Rightarrow> transform" where
  "shuffle_string lib s = Inr (random_shuffle lib s)"

definition repeat_2x :: transform where
  "repeat_2x s = Inr (concat (replicate 2 s))"

definition repeat_3x :: transform where
  "repeat_3x s = Inr (concat (replicate 3 s))"

definition prefix_enc :: transform where
  "prefix_enc s = Inr (ascii ''ENC:'' @ s)"

definition suffix_end :: transform where
  "suffix_end s = Inr (s @ ascii '':END'')"

definition reverse_string :: transform where
  "reverse_string s = Inr (rev s)"

definition reverse_bytes_hex :: transform where
  "reverse_bytes_hex s = bind_exn (utf8_encode Strict s) (\<lambda>b. hex (rev b))"

definition utf16le_bom_base64 :: "pylib \<Rightarrow> transform" where
  "utf16le_bom_base64 lib s =
     bind_exn (str_encode lib (ascii ''utf-16le'') Strict s) (\<lambda>b. b64 ([0xFF, 0xFE] @ b))"

definition utf16be_bom_base64 :: "pylib \<Rightarrow> transform" where
  "utf16be_bom_base64 lib s =
     bind_exn (str_encode lib (ascii ''utf-16be'') Strict s) (\<lambda>b. b64 ([0xFE, 0xFF] @ b))"

definition zlib_max_base64 :: "pylib \<Rightarrow> transform" where
  "zlib_max_base64 lib s = bind_exn (utf8_encode Strict s) (\<lambda>b. b64 (zlib_compress lib 9 b))"

definition gzip_max_base64 :: "pylib \<Rightarrow> transform" where
  "gzip_max_base64 lib s = bind_exn (utf8_encode Strict s) (\<lambda>b. b64 (gzip_compress lib 9 b))"

definition ascii_codes_dash :: transform where
  "ascii_codes_dash s = Inr (join [45] (map str_nat s))"

definition ascii_codes_to_hex :: "pylib \<Rightarrow> transform" where
  "ascii_codes_to_hex lib s =
     bind_exn (str_encode lib (ascii ''ascii'') Strict (concat (map str_nat s))) hex"

definition base64_no_pad :: transform where
  "base64_no_pad s = bind_exn (bind_exn (utf8_encode Strict s) b64) (\<lambda>t. Inr (rstrip 61 t))"

definition base85_rot13 :: "pylib \<Rightarrow> transform" where
  "base85_rot13 lib s =
     bind_exn (bind_exn (utf8_encode Strict s) (\<lambda>b. decode_ascii (b85encode lib b)))
       (\<lambda>t. Inr (rot_13 t))"

definition base32_no_pad :: "pylib \<Rightarrow> transform" where
  "base32_no_pad lib s =
     bind_exn (bind_exn (utf8_encode Strict s) (\<lambda>b. decode_ascii (b32encode lib b)))
       (\<lambda>t. Inr (rstrip 61 t))"

definition remove_whitespace :: transform where
  "remove_whitespace s = Inr (replace_char 9 [] (replace_char 32 [] s))"

definition unicode_codepoints_space :: transform where
  "unicode_codepoints_space s = Inr (join [32] (map (\<lambda>c. ascii ''U+'' @ fmt_hex True 4 c) s))"

definition escape_quotes :: transform where
  "escape_quotes s = Inr (replace_char 34 [92, 34] s)"

definition escape_apostrophes :: transform where
  "escape_apostrophes s = Inr (replace_char 39 [92, 39] s)"

definition base64_replace_a :: transform where
  "base64_replace_a s =
     bind_exn (bind_exn (utf8_encode Strict s) b64) (\<lambda>t. Inr (replace_char 65 [64] t))"

definition qp_custom :: "pylib \<Rightarrow> transform" where
  "qp_custom lib s =
     bind_exn (bind_exn (utf8_encode Strict s) (\<lambda>b. decode_ascii (quopri_encodestring lib b)))
       (\<lambda>t. Inr (replace_char 95 (ascii ''=5F'') t))"

definition hex_then_base64 :: transform where
  "hex_then_base64 s = bind_exn (utf8_encode Strict s) (\<lambda>b. b64 (hexlify b))"

definition base64_then_hex :: transform where
  "base64_then_hex s = bind_exn (utf8_encode Strict s) (\<lambda>b. hex (b64encode b))"

definition zlib_then_hex :: "pylib \<Rightarrow> transform" where
  "zlib_then_hex lib s = bind_exn (utf8_encode Strict s) (\<lambda>b. hex (zlib_compress lib (- 1) b))"

definition lzma_then_hex :: "pylib \<Rightarrow> transform" where
  "lzma_then_hex lib s = bind_exn (utf8_encode Strict s) (\<lambda>b. hex (lzma_compress lib b))"

definition url_pct_lower :: transform where
  "url_pct_lower s = bind_exn (quote [] s) (\<lambda>t. Inr (lower_ascii t))"

definition percent_bytes_lower :: transform where
  "percent_bytes_lower s =
     bind_exn (utf8_encode Strict s)
       (\<lambda>bs. Inr (concat (map (\<lambda>byte. 37 # fmt_hex False 2 byte) bs)))"

text \<open>\<open>_nested_quote(s, n)\<close>: the loop body runs \<open>n\<close> times.\<close>

fun nested_quote :: "pystr \<Rightarrow> nat \<Rightarrow> exn + pystr" where
  "nested_quote t 0 = Inr t"
| "nested_quote t (Suc n) = bind_exn (quote [] t) (\<lambda>t'. nested_quote t' n)"

section \<open>The registry\<close>

text \<open>
  \<open>TRANSFORMS\<close> is a Python dictionary: it keeps its keys in the order of their first
  insertion, and assigning to a key that is present replaces the value in place.
\<close>

type_synonym registry = "(pystr \<times> transform) list"

fun dict_set :: "('k \<times> 'v) list \<Rightarrow> 'k \<Rightarrow> 'v \<Rightarrow> ('k \<times> 'v) list" where
  "dict_set [] k v = [(k, v)]"
| "dict_set ((k', v') # d) k v = (if k' = k then (k, v) # d else (k', v') # dict_set d k v)"

definition dict_get :: "('k \<times> 'v) list \<Rightarrow> 'k \<Rightarrow> 'v option" where
  "dict_get d k = map_of d k"

definition dict_keys :: "('k \<times> 'v) list \<Rightarrow> 'k list" where
  "dict_keys d = map fst d"

text \<open>The dictionary display that opens the registry.\<close>

definition base_TRANSFORMS :: "pylib \<Rightarrow> registry" where
  "base_TRANSFORMS lib =
     [(ascii ''noop'', noop),
      (ascii ''base64'', base64_std),
      (ascii ''base64_urlsafe'', base64_urlsafe),
      (ascii ''base64_nopad'', base64_nopad),
      (ascii ''hex_lower'', hex_lower),
      (ascii ''hex_upper'', hex_upper),
      (ascii ''backslash_x'', backslash_x),
      (ascii ''url_all'', url_encode_all),
      (ascii ''url_safe_slash'', url_encode_safe_slash),
      (ascii ''double_url'', double_url),
      (ascii ''html_named'', html_escape_named),
      (ascii ''html_num_dec'', html_numeric_dec),
      (ascii ''html_num_hex'', html_numeric_hex),
      (ascii ''unicode_escape'', unicode_escape_python lib),
      (ascii ''js_escape'', js_escape),
      (ascii ''rot13'', rot13),
      (ascii ''rot47'', rot47),
      (ascii ''gzip_base64'', gzip_base64 lib),
      (ascii ''zlib_base64'', zlib_base64 lib),
      (ascii ''bz2_base64'', bz2_base64 lib),
      (ascii ''lzma_base64'', lzma_base64 lib),
      (ascii ''base32'', base32_std lib),
      (ascii ''base85'', base85_std lib),
      (ascii ''ascii85'', ascii85_std lib),
      (ascii ''quoted_printable'', quoted_printable lib),
      (ascii ''punycode'', punycode lib),
      (ascii ''base64_custom_chars'', base64_custom_chars),
      (ascii ''base64_dot_pad'', base64_dot_pad),
      (ascii ''hex_colon'', hex_colon),
      (ascii ''hex_space'', hex_space),
      (ascii ''hex_reverse'', hex_reverse),
      (ascii ''rot5_digits'', rot5_digits lib),
      (ascii ''rot13_base64'', rot13_base64),
      (ascii ''base64_mime'', base64_mime),
      (ascii ''url_encode_plus'', url_encode_plus),
      (ascii ''url_decode'', url_decode),
      (ascii ''html_escape_num_only'', html_escape_num_only),
      (ascii ''hex_0x_prefix'', hex_0x_prefix),
      (ascii ''unicode_escape_upper'', unicode_escape_upper),
      (ascii ''shuffle_string'', shuffle_string lib),
      (ascii ''repeat_2x'', repeat_2x),
      (ascii ''repeat_3x'', repeat_3x),
      (ascii ''prefix_enc'', prefix_enc),
      (ascii ''suffix_end'', suffix_end),
      (ascii ''reverse_string'', reverse_string),
      (ascii ''reverse_bytes_hex'', reverse_bytes_hex),
      (ascii ''utf16le_bom_base64'', utf16le_bom_base64 lib),
      (ascii ''utf16be_bom_base64'', utf16be_bom_base64 lib),
      (ascii ''zlib_max_base64'', zlib_max_base64 lib),
      (ascii ''gzip_max_base64'', gzip_max_base64 lib),
      (ascii ''ascii_codes_dash'', ascii_codes_dash),
      (ascii ''ascii_codes_to_hex'', ascii_codes_to_hex lib),
      (ascii ''base64_no_pad'', base64_no_pad),
      (ascii ''base85_rot13'', base85_rot13 lib),
      (ascii ''base32_no_pad'', base32_no_pad lib),
      (ascii ''remove_whitespace'', remove_whitespace),
      (ascii ''unicode_codepoints_space'', unicode_codepoints_space),
      (ascii ''escape_quotes'', escape_quotes),
      (ascii ''escape_apostrophes'', escape_apostrophes),
      (ascii ''base64_replace_a'', base64_replace_a),
      (ascii ''qp_custom'', qp_custom lib),
      (ascii ''hex_then_base64'', hex_then_base64),
      (ascii ''base64_then_hex'', base64_then_hex),
      (ascii ''zlib_then_hex'', zlib_then_hex lib),
      (ascii ''lzma_then_hex'', lzma_then_hex lib)]"

text \<open>
  The loop over \<open>BYTE_ENCODINGS\<close> and the three outputs. \<open>bytes_name\<close> is the
  f-string \<open>f'{enc.replace("-", "")}_{out}'\<close>; the pairs are visited in the order of
  the nested loops.
\<close>

definition OUTPUTS :: "pystr list" where
  "OUTPUTS = map ascii [''hex'', ''base64'', ''percent'']"

definition bytes_name :: "pystr \<Rightarrow> pystr \<Rightarrow> pystr" where
  "bytes_name enc out = replace_char 45 [] enc @ ascii ''_'' @ out"

fun register_bytes :: "pylib \<Rightarrow> (pystr \<times> pystr) list \<Rightarrow> registry \<Rightarrow> exn + registry" where
  "register_bytes lib [] T = Inr T"
| "register_bytes lib ((enc, out) # ps) T =
     bind_exn (make_bytes_transform lib enc out)
       (\<lambda>f. register_bytes lib ps (dict_set T (bytes_name enc out) f))"

text \<open>The loop \<open>for i in range(2, 6)\<close>; each lambda holds its own \<open>n\<close>.\<close>

definition nested_name :: "nat \<Rightarrow> pystr" where
  "nested_name i = ascii ''double_url_'' @ str_nat i @ ascii ''x''"

definition register_nested :: "registry \<Rightarrow> registry" where
  "register_nested T = fold (\<lambda>i T'. dict_set T' (nested_name i) (\<lambda>s. nested_quote s i)) [2..<6] T"

section \<open>The chain combinator\<close>

definition N_pairs :: nat where
  "N_pairs = 30"

definition chain_name :: "pystr \<Rightarrow> pystr \<Rightarrow> pystr" where
  "chain_name a b = a @ ascii ''__then__'' @ b"

definition make_chain :: "transform \<Rightarrow> transform \<Rightarrow> transform" where
  "make_chain f1 f2 s =
     (case bind_exn (f1 s) f2 of
        Inl e \<Rightarrow> Inr s
      | Inr t \<Rightarrow> Inr t)"

text \<open>The index pairs \<open>(i, j)\<close> the two nested \<open>range\<close> loops visit, in order.\<close>

definition chain_indices :: "nat \<Rightarrow> (nat \<times> nat) list" where
  "chain_indices n =
     concat (map (\<lambda>i. map (\<lambda>j. (i, j)) [i + 1..<min (i + 4) n]) [0..<min N_pairs n])"

text \<open>
  One pass of the loop body for each index pair: both functions are read from the
  registry as it is at that moment (\<open>KeyError\<close> if a name were missing), and the
  chain is stored under its name.
\<close>

fun register_chains :: "pystr list \<Rightarrow> (nat \<times> nat) list \<Rightarrow> registry \<Rightarrow> exn + registry" where
  "register_chains existing_keys [] T = Inr T"
| "register_chains existing_keys ((i, j) # ps) T =
     (let a = existing_keys ! i; b = existing_keys ! j in
      case dict_get T a of
        None \<Rightarrow> Inl KeyError
      | Some f_a \<Rightarrow>
          (case dict_get T b of
             None \<Rightarrow> Inl KeyError
           | Some f_b \<Rightarrow>
               register_chains existing_keys ps
                 (dict_set T (chain_name a b) (make_chain f_a f_b))))"

section \<open>Building the module\<close>

text \<open>The registry as it stands when the chain loop takes its snapshot of the keys.\<close>

definition pre_chain :: "pylib \<Rightarrow> exn + registry" where
  "pre_chain lib =
     bind_exn (register_bytes lib (List.product BYTE_ENCODINGS OUTPUTS) (base_TRANSFORMS lib))
       (\<lambda>T. Inr (register_nested
                   (dict_set (dict_set T (ascii ''url_pct_lower'') url_pct_lower)
                      (ascii ''percent_bytes_lower'') percent_bytes_lower)))"

definition module_init :: "pylib \<Rightarrow> exn + registry" where
  "module_init lib =
     bind_exn (pre_chain lib)
       (\<lambda>T. let existing_keys = dict_keys T in
             register_chains existing_keys (chain_indices (length existing_keys)) T)"

text \<open>
  \<open>TRANSFORMS\<close> after the import of the module. The import does not raise
  (\<open>module_init_ok\<close> below), so the first branch is never taken.
\<close>

definition TRANSFORMS :: "pylib \<Rightarrow> registry" where
  "TRANSFORMS lib = (case module_init lib of Inl e \<Rightarrow> [] | Inr T \<Rightarrow> T)"

definition list_transforms :: "pylib \<Rightarrow> pystr list" where
  "list_transforms lib = sort (dict_keys (TRANSFORMS lib))"

section \<open>The facade of \<open>changing_the_format.py\<close>\<close>

text \<open>
  An entry of the JSON data is a dictionary; \<open>entry.get('payload', '')\<close> reads its
  payload. The entries here hold text.
\<close>

type_synonym entry = "(pystr \<times> pystr) list"

definition entry_payload :: "entry \<Rightarrow> pystr" where
  "entry_payload e = (case dict_get e (ascii ''payload'') of None \<Rightarrow> [] | Some p \<Rightarrow> p)"

definition transform_payloads :: "registry \<Rightarrow> entry list \<Rightarrow> pystr \<Rightarrow> exn + pystr list" where
  "transform_payloads T json_data transform_name =
     (case dict_get T transform_name of
        None \<Rightarrow> Inl ValueError
      | Some transform_func \<Rightarrow>
          Inr (map (\<lambda>e. let payload = entry_payload e in
                         case transform_func payload of
                           Inl ex \<Rightarrow> payload
                         | Inr transformed \<Rightarrow> transformed)
                   json_data))"

section \<open>Values written out for the proofs\<close>

text \<open>
  The entries the generator loop adds, and those of the two assignments and the loop
  over the repeat counts that follow it, written out; \<open>pre_chain_value\<close> below proves
  that the loops produce exactly them.
\<close>

definition generated :: "pylib \<Rightarrow> registry" where
  "generated lib =
     [(ascii ''utf8_hex'', f_hex lib (ascii ''utf-8'')),
      (ascii ''utf8_base64'', f_b64 lib (ascii ''utf-8'')),
      (ascii ''utf8_percent'', f_pct lib (ascii ''utf-8'')),
      (ascii ''latin1_hex'', f_hex lib (ascii ''latin1'')),
      (ascii ''latin1_base64'', f_b64 lib (ascii ''latin1'')),
      (ascii ''latin1_percent'', f_pct lib (ascii ''latin1'')),
      (ascii ''cp1251_hex'', f_hex lib (ascii ''cp1251'')),
      (ascii ''cp1251_base64'', f_b64 lib (ascii ''cp1251'')),
      (ascii ''cp1251_percent'', f_pct lib (ascii ''cp1251'')),
      (ascii ''cp1252_hex'', f_hex lib (ascii ''cp1252'')),
      (ascii ''cp1252_base64'', f_b64 lib (ascii ''cp1252'')),
      (ascii ''cp1252_percent'', f_pct lib (ascii ''cp1252'')),
      (ascii ''utf16le_hex'', f_hex lib (ascii ''utf-16le'')),
      (ascii ''utf16le_base64'', f_b64 lib (ascii ''utf-16le'')),
      (ascii ''utf16le_percent'', f_pct lib (ascii ''utf-16le'')),
      (ascii ''utf16be_hex'', f_hex lib (ascii ''utf-16be'')),
      (ascii ''utf16be_base64'', f_b64 lib (ascii ''utf-16be'')),
      (ascii ''utf16be_percent'', f_pct lib (ascii ''utf-16be'')),
      (ascii ''utf7_hex'', f_hex lib (ascii ''utf-7'')),
      (ascii ''utf7_base64'', f_b64 lib (ascii ''utf-7'')),
      (ascii ''utf7_percent'', f_pct lib (ascii ''utf-7''))]"

definition extras :: registry where
  "extras =
     [(ascii ''url_pct_lower'', url_pct_lower),
      (ascii ''percent_bytes_lower'', percent_bytes_lower),
      (ascii ''double_url_2x'', \<lambda>s. nested_quote s 2),
      (ascii ''double_url_3x'', \<lambda>s. nested_quote s 3),
      (ascii ''double_url_4x'', \<lambda>s. nested_quote s 4),
      (ascii ''double_url_5x'', \<lambda>s. nested_quote s 5)]"

definition pre_registry :: "pylib \<Rightarrow> registry" where
  "pre_registry lib = base_TRANSFORMS lib @ generated lib @ extras"

text \<open>The entries the chain loop adds for a list of index pairs.\<close>

definition chain_entries :: "registry \<Rightarrow> (nat \<times> nat) list \<Rightarrow> registry" where
  "chain_entries P ps =
     map (\<lambda>(i, j). (chain_name (fst (P ! i)) (fst (P ! j)), make_chain (snd (P ! i)) (snd (P ! j)))) ps"

text \<open>
  A name is free of double underscores when no two underscores are adjacent in it and it
  does not end in one. For such names the separator \<open>__then__\<close> of a chain name can be
  found again, so a chain name determines its two parts.
\<close>

fun dunder_free :: "pystr \<Rightarrow> bool" where
  "dunder_free [] = True"
| "dunder_free [c] = (c \<noteq> 95)"
| "dunder_free (c # d # cs) = (\<not> (c = 95 \<and> d = 95) \<and> dunder_free (d # cs))"

text \<open>
  The naming rule as the specification words it: the encoding identifier with every
  character that is not an ASCII letter or digit removed.
\<close>

definition strip_punctuation :: "pystr \<Rightarrow> pystr" where
  "strip_punctuation s =
     filter (\<lambda>c. (48 \<le> c \<and> c \<le> 57) \<or> (65 \<le> c \<and> c \<le> 90) \<or> (97 \<le> c \<and> c \<le> 122)) s"

text \<open>
  Text without surrogate code points: every character is a Unicode scalar value, so
  the string has a UTF-8 encoding.
\<close>

definition well_formed :: "pystr \<Rightarrow> bool" where
  "well_formed s = list_all (\<lambda>c. c < 0x110000 \<and> \<not> is_surrogate c) s"

text \<open>
  An instance of the library record, for closed examples. Every theorem below holds for
  all libraries; the fields here are placeholders (the identity, or a raise).
\<close>

definition sample_lib :: pylib where
  "sample_lib =
     \<lparr>gzip_compress = (\<lambda>level b. b),
      zlib_compress = (\<lambda>level b. b),
      bz2_compress = (\<lambda>b. b),
      lzma_compress = (\<lambda>b. b),
      b32encode = (\<lambda>b. b),
      b85encode = (\<lambda>b. b),
      a85encode = (\<lambda>b. b),
      quopri_encodestring = (\<lambda>b. b),
      punycode_encode = (\<lambda>s. Inl LibraryError),
      unicode_escape_encode = (\<lambda>s. s),
      utf7_encode = (\<lambda>errs s. Inl LibraryError),
      codecs_encode = (\<lambda>encoding errs s. Inl LookupError),
      isdigit = (\<lambda>c. 48 \<le> c \<and> c \<le> 57),
      random_shuffle = (\<lambda>s. s)\<rparr>"

section \<open>The encodings the program names\<close>

lemma lookup_codec_utf8: "lookup_codec (ascii ''utf-8'') = Some UTF_8"
  by code_simp

lemma lookup_codec_latin1: "lookup_codec (ascii ''latin1'') = Some LATIN_1"
  by code_simp

lemma lookup_codec_cp1251: "lookup_codec (ascii ''cp1251'') = Some CP1251"
  by code_simp

lemma lookup_codec_cp1252: "lookup_codec (ascii ''cp1252'') = Some CP1252"
  by code_simp

lemma lookup_codec_utf16le: "lookup_codec (ascii ''utf-16le'') = Some UTF_16_LE"
  by code_simp

lemma lookup_codec_utf16be: "lookup_codec (ascii ''utf-16be'') = Some UTF_16_BE"
  by code_simp

lemma lookup_codec_utf7: "lookup_codec (ascii ''utf-7'') = Some UTF_7"
  by code_simp

lemma lookup_codec_ascii: "lookup_codec (ascii ''ascii'') = Some ASCII"
  by code_simp

lemma str_encode_utf8: "str_encode lib (ascii ''utf-8'') errs s = utf8_encode errs s"
  unfolding str_encode_def lookup_codec_utf8 by (simp add: ascii_def is_surrogate_def)

lemma str_encode_latin1:
  "str_encode lib (ascii ''latin1'') errs s = encode_with latin1_char [63] errs s"
  unfolding str_encode_def lookup_codec_latin1 by (simp add: ascii_def is_surrogate_def)

lemma str_encode_cp1251:
  "str_encode lib (ascii ''cp1251'') errs s = encode_with cp1251_char [63] errs s"
  unfolding str_encode_def lookup_codec_cp1251 by (simp add: ascii_def is_surrogate_def)

lemma str_encode_cp1252:
  "str_encode lib (ascii ''cp1252'') errs s = encode_with cp1252_char [63] errs s"
  unfolding str_encode_def lookup_codec_cp1252 by (simp add: ascii_def is_surrogate_def)

lemma str_encode_utf16le:
  "str_encode lib (ascii ''utf-16le'') errs s = encode_with utf16le_char [63, 0] errs s"
  unfolding str_encode_def lookup_codec_utf16le by (simp add: ascii_def is_surrogate_def)

lemma str_encode_utf16be:
  "str_encode lib (ascii ''utf-16be'') errs s = encode_with utf16be_char [0, 63] errs s"
  unfolding str_encode_def lookup_codec_utf16be by (simp add: ascii_def is_surrogate_def)

lemma str_encode_utf7: "str_encode lib (ascii ''utf-7'') errs s = utf7_encode lib errs s"
  unfolding str_encode_def lookup_codec_utf7 by (simp add: ascii_def is_surrogate_def)

lemma str_encode_ascii:
  "str_encode lib (ascii ''ascii'') errs s = encode_with ascii_char [63] errs s"
  unfolding str_encode_def lookup_codec_ascii by (simp add: ascii_def is_surrogate_def)

section \<open>Dictionaries\<close>

lemma ascii_inj: "ascii a = ascii b \<longleftrightarrow> a = b"
  by (simp add: ascii_def inj_map_eq_map inj_on_def)

lemma dict_set_fresh: "k \<notin> set (dict_keys d) \<Longrightarrow> dict_set d k v = d @ [(k, v)]"
  by (induction d) (auto simp: dict_keys_def)

lemma fold_dict_set_fresh:
  "distinct (dict_keys T @ map fst kvs) \<Longrightarrow>
   fold (\<lambda>(k, v) T'. dict_set T' k v) kvs T = T @ kvs"
proof (induction kvs arbitrary: T)
  case Nil
  then show ?case by simp
next
  case (Cons kv kvs)
  obtain k v where kv: "kv = (k, v)" by (cases kv)
  from Cons.prems kv have fresh: "k \<notin> set (dict_keys T)"
    by auto
  have "distinct (dict_keys (T @ [(k, v)]) @ map fst kvs)"
    using Cons.prems kv by (auto simp: dict_keys_def)
  then have "fold (\<lambda>(k, v) T'. dict_set T' k v) kvs (T @ [(k, v)]) = (T @ [(k, v)]) @ kvs"
    by (rule Cons.IH)
  then show ?case
    using fresh kv by (simp add: dict_set_fresh)
qed

lemma dict_get_nth:
  "distinct (dict_keys P) \<Longrightarrow> i < length P \<Longrightarrow> dict_get (P @ C) (dict_keys P ! i) = Some (snd (P ! i))"
proof -
  assume d: "distinct (dict_keys P)" and i: "i < length P"
  have "(fst (P ! i), snd (P ! i)) \<in> set P"
    using i by (metis nth_mem prod.collapse)
  then have "map_of P (fst (P ! i)) = Some (snd (P ! i))"
    using d by (simp add: dict_keys_def)
  then show ?thesis
    using i by (simp add: dict_get_def dict_keys_def map_add_def)
qed

lemma dunder_free_suffix: "dunder_free (xs @ ys) \<Longrightarrow> dunder_free ys"
proof (induction xs rule: dunder_free.induct)
  case 1
  then show ?case by simp
next
  case (2 c)
  then show ?case by (cases ys) auto
next
  case (3 c d cs)
  then show ?case by simp
qed

lemma not_dunder_free_chain: "\<not> dunder_free (chain_name a b)"
proof
  assume "dunder_free (chain_name a b)"
  then have "dunder_free (ascii ''__then__'' @ b)"
    unfolding chain_name_def by (rule dunder_free_suffix)
  then show False
    by (simp add: ascii_def)
qed

lemma chain_name_prefix:
  assumes "a = a' @ us" "us @ ascii ''__then__'' @ b = ascii ''__then__'' @ b'" "dunder_free a"
  shows "us = []"
proof (rule ccontr)
  assume ne: "us \<noteq> []"
  then obtain u us' where us: "us = u # us'" by (cases us) auto
  with assms(2) have u: "u = 95" by (simp add: ascii_def)
  have df: "dunder_free us"
    using assms(1,3) dunder_free_suffix by blast
  show False
  proof (cases us')
    case Nil
    with df us u show False by simp
  next
    case (Cons w ws)
    with assms(2) us have "w = 95" by (simp add: ascii_def)
    with df us u Cons show False by simp
  qed
qed

lemma chain_name_inj:
  assumes "chain_name a b = chain_name a' b'" "dunder_free a" "dunder_free a'"
  shows "a = a' \<and> b = b'"
proof -
  from assms(1) have "a @ (ascii ''__then__'' @ b) = a' @ (ascii ''__then__'' @ b')"
    by (simp add: chain_name_def)
  then obtain us where
    "(a = a' @ us \<and> us @ ascii ''__then__'' @ b = ascii ''__then__'' @ b') \<or>
     (a @ us = a' \<and> ascii ''__then__'' @ b = us @ ascii ''__then__'' @ b')"
    using append_eq_append_conv2 [of a "ascii ''__then__'' @ b" a' "ascii ''__then__'' @ b'"]
    by blast
  then show ?thesis
  proof
    assume h: "a = a' @ us \<and> us @ ascii ''__then__'' @ b = ascii ''__then__'' @ b'"
    then have "us = []" using chain_name_prefix assms(2) by blast
    with h show ?thesis by simp
  next
    assume h: "a @ us = a' \<and> ascii ''__then__'' @ b = us @ ascii ''__then__'' @ b'"
    then have "us = []" using chain_name_prefix [of a' a us b' b] assms(3) by auto
    with h show ?thesis by simp
  qed
qed

lemma register_chains_append:
  assumes "distinct (dict_keys P)" "list_all dunder_free (dict_keys P)"
    and "\<forall>(i, j) \<in> set (qs @ ps). i < length P \<and> j < length P"
    and "distinct (qs @ ps)"
  shows "register_chains (dict_keys P) ps (P @ chain_entries P qs) =
           Inr (P @ chain_entries P (qs @ ps))"
  using assms(3,4)
proof (induction ps arbitrary: qs)
  case Nil
  then show ?case by simp
next
  case (Cons p ps)
  obtain i j where p: "p = (i, j)" by (cases p)
  from Cons.prems p have ij: "i < length P" "j < length P" by auto
  let ?ks = "dict_keys P"
  let ?name = "chain_name (?ks ! i) (?ks ! j)"
  have ki: "?ks ! i = fst (P ! i)" and kj: "?ks ! j = fst (P ! j)"
    using ij by (simp_all add: dict_keys_def)
  have df: "\<And>n. n < length P \<Longrightarrow> dunder_free (?ks ! n)"
    using assms(2) by (simp add: list_all_length dict_keys_def)
  have notP: "?name \<notin> set ?ks"
  proof
    assume "?name \<in> set ?ks"
    then have "dunder_free ?name" using assms(2) by (simp add: list_all_iff)
    then show False using not_dunder_free_chain by blast
  qed
  have notC: "?name \<notin> set (dict_keys (chain_entries P qs))"
  proof
    assume "?name \<in> set (dict_keys (chain_entries P qs))"
    then obtain i' j' where q: "(i', j') \<in> set qs"
      and eq: "?name = chain_name (fst (P ! i')) (fst (P ! j'))"
      by (auto simp: dict_keys_def chain_entries_def)
    from Cons.prems(1) q have ij': "i' < length P" "j' < length P" by auto
    have len: "length ?ks = length P"
      by (simp add: dict_keys_def)
    have "?ks ! i = ?ks ! i' \<and> ?ks ! j = ?ks ! j'"
      using chain_name_inj [of "?ks ! i" "?ks ! j" "?ks ! i'" "?ks ! j'"] eq df ij ij'
      by (simp add: dict_keys_def)
    then have "i = i'" "j = j'"
      using nth_eq_iff_index_eq [OF assms(1)] ij ij' len by metis+
    with q p Cons.prems(2) show False by auto
  qed
  have fresh: "?name \<notin> set (dict_keys (P @ chain_entries P qs))"
    using notP notC by (simp add: dict_keys_def)
  have step: "dict_set (P @ chain_entries P qs) ?name (make_chain (snd (P ! i)) (snd (P ! j)))
                = P @ chain_entries P (qs @ [(i, j)])"
    using fresh by (simp add: dict_set_fresh chain_entries_def ki kj)
  have IH: "register_chains ?ks ps (P @ chain_entries P (qs @ [(i, j)])) =
              Inr (P @ chain_entries P ((qs @ [(i, j)]) @ ps))"
    using Cons.prems p by (intro Cons.IH) auto
  show ?case
    using IH step p
    by (simp add: dict_get_nth [OF assms(1)] ij Let_def)
qed


lemma register_bytes_value:
  "register_bytes lib (List.product BYTE_ENCODINGS OUTPUTS) T =
     Inr (fold (\<lambda>(k, v) T'. dict_set T' k v) (generated lib) T)"
  by (simp add: BYTE_ENCODINGS_def OUTPUTS_def generated_def make_bytes_transform_def
        bind_exn_def ascii_inj bytes_name_def replace_char_def ascii_def)

lemma register_nested_value:
  "register_nested T = fold (\<lambda>(k, v) T'. dict_set T' k v) (drop 2 extras) T"
  by (simp add: register_nested_def extras_def nested_name_def upt_rec str_nat.simps ascii_def)

lemma length_pre_registry: "length (pre_registry lib) = 92"
  by (simp add: pre_registry_def base_TRANSFORMS_def generated_def extras_def)

lemma distinct_pre_registry: "distinct (dict_keys (pre_registry lib))"
  by (simp add: pre_registry_def base_TRANSFORMS_def generated_def extras_def dict_keys_def
        ascii_inj)


lemma of_char_eq_95: "(of_char c = (95::nat)) \<longleftrightarrow> c = CHR ''_''"
proof -
  have "of_char c = (of_char (CHR ''_'') :: nat) \<longleftrightarrow> c = CHR ''_''"
    by (rule of_char_eq_iff)
  then show ?thesis by simp
qed

lemma ascii_Nil: "ascii [] = []"
  by (simp add: ascii_def)

lemma ascii_Cons: "ascii (c # cs) = of_char c # ascii cs"
  by (simp add: ascii_def)

lemma dunder_free_pre_registry: "list_all dunder_free (dict_keys (pre_registry lib))"
  by (simp add: pre_registry_def base_TRANSFORMS_def generated_def extras_def dict_keys_def
        ascii_Nil ascii_Cons of_char_eq_95)

lemma pre_chain_value: "pre_chain lib = Inr (pre_registry lib)"
proof -
  have d: "distinct (dict_keys (base_TRANSFORMS lib) @ map fst (generated lib @ extras))"
    using distinct_pre_registry [of lib] by (simp add: pre_registry_def dict_keys_def)
  have "fold (\<lambda>(k, v) T'. dict_set T' k v) (generated lib @ extras) (base_TRANSFORMS lib)
          = base_TRANSFORMS lib @ generated lib @ extras"
    using d by (rule fold_dict_set_fresh)
  moreover have "extras = take 2 extras @ drop 2 extras"
    by simp
  moreover have "fold (\<lambda>(k, v) T'. dict_set T' k v) (take 2 extras) T =
      dict_set (dict_set T (ascii ''url_pct_lower'') url_pct_lower)
        (ascii ''percent_bytes_lower'') percent_bytes_lower" for T
    by (simp add: extras_def)
  ultimately show ?thesis
    by (simp add: pre_chain_def register_bytes_value register_nested_value bind_exn_def
          pre_registry_def del: append_take_drop_id)
       (metis fold_append comp_apply)
qed

lemma chain_indices_bounds:
  "(i, j) \<in> set (chain_indices n) \<longleftrightarrow> i < N_pairs \<and> i < j \<and> j \<le> i + 3 \<and> j < n"
proof
  assume "(i, j) \<in> set (chain_indices n)"
  then show "i < N_pairs \<and> i < j \<and> j \<le> i + 3 \<and> j < n"
    by (auto simp: chain_indices_def)
next
  assume h: "i < N_pairs \<and> i < j \<and> j \<le> i + 3 \<and> j < n"
  then have "i \<in> set [0..<min N_pairs n]" and "j \<in> set [i + 1..<min (i + 4) n]"
    by auto
  then show "(i, j) \<in> set (chain_indices n)"
    unfolding chain_indices_def by (auto simp del: set_upt)
qed

lemma distinct_index_rows:
  "distinct (concat (map (\<lambda>i. map (\<lambda>j. (i, j)) [i + 1..<min (i + 4) n]) [0..<m]))"
proof (induction m)
  case 0
  then show ?case by simp
next
  case (Suc m)
  have "distinct (map (\<lambda>j. (m, j)) [m + 1..<min (m + 4) n])"
    by (simp add: distinct_map inj_on_def)
  with Suc show ?case
    by auto
qed

lemma distinct_chain_indices: "distinct (chain_indices n)"
  unfolding chain_indices_def by (rule distinct_index_rows)

lemma module_init_value:
  "module_init lib =
     Inr (pre_registry lib @ chain_entries (pre_registry lib) (chain_indices 92))"
proof -
  let ?P = "pre_registry lib"
  have "register_chains (dict_keys ?P) (chain_indices 92) (?P @ chain_entries ?P []) =
          Inr (?P @ chain_entries ?P ([] @ chain_indices 92))"
    by (rule register_chains_append)
       (auto simp: distinct_pre_registry dunder_free_pre_registry distinct_chain_indices
          chain_indices_bounds length_pre_registry)
  then show ?thesis
    by (simp add: module_init_def pre_chain_value bind_exn_def Let_def dict_keys_def
          length_pre_registry chain_entries_def)
qed

lemma module_init_ok: "module_init lib = Inr (TRANSFORMS lib)"
  by (simp add: TRANSFORMS_def module_init_value)

lemma TRANSFORMS_value:
  "TRANSFORMS lib = pre_registry lib @ chain_entries (pre_registry lib) (chain_indices 92)"
  by (simp add: TRANSFORMS_def module_init_value)

section \<open>Lookups\<close>

lemma dict_get_pre:
  "map_of (pre_registry lib) k = Some v \<Longrightarrow> dict_get (TRANSFORMS lib) k = Some v"
  by (simp add: TRANSFORMS_value dict_get_def map_add_def)

lemma dunder_free_key:
  "list_all dunder_free (dict_keys P) \<Longrightarrow> i < length P \<Longrightarrow> dunder_free (fst (P ! i))"
  by (simp add: list_all_length dict_keys_def)

lemma fst_chain_entries:
  "fst ` set (chain_entries P ps) = (\<lambda>(i, j). chain_name (fst (P ! i)) (fst (P ! j))) ` set ps"
  by (force simp: chain_entries_def)

lemma distinct_chain_registry:
  assumes "distinct (dict_keys P)" "list_all dunder_free (dict_keys P)"
    and "\<forall>(i, j) \<in> set ps. i < length P \<and> j < length P"
    and "distinct ps"
  shows "distinct (dict_keys (P @ chain_entries P ps))"
proof -
  let ?name = "\<lambda>p. chain_name (fst (P ! fst p)) (fst (P ! snd p))"
  have key_inj: "i = i'"
    if "fst (P ! i) = fst (P ! i')" "i < length P" "i' < length P" for i i'
  proof -
    have "dict_keys P ! i = dict_keys P ! i'"
      using that by (simp add: dict_keys_def)
    moreover have "i < length (dict_keys P)" "i' < length (dict_keys P)"
      using that by (simp_all add: dict_keys_def)
    ultimately show ?thesis
      using nth_eq_iff_index_eq [OF assms(1)] by blast
  qed
  have "inj_on ?name (set ps)"
  proof (rule inj_onI)
    fix p q
    assume p: "p \<in> set ps" and q: "q \<in> set ps" and eq: "?name p = ?name q"
    from p q assms(3) have r: "fst p < length P" "snd p < length P"
      "fst q < length P" "snd q < length P"
      by (auto simp: case_prod_unfold)
    from eq have "fst (P ! fst p) = fst (P ! fst q) \<and> fst (P ! snd p) = fst (P ! snd q)"
      using dunder_free_key [OF assms(2) r(1)] dunder_free_key [OF assms(2) r(3)]
      by (rule chain_name_inj)
    then have "fst p = fst q" "snd p = snd q"
      using key_inj r by blast+
    then show "p = q"
      by (rule prod_eqI)
  qed
  moreover have "map fst (chain_entries P ps) = map ?name ps"
    by (simp add: chain_entries_def case_prod_unfold)
  ultimately have d2: "distinct (map fst (chain_entries P ps))"
    using assms(4) by (simp add: distinct_map)
  have d3: "set (dict_keys P) \<inter> fst ` set (chain_entries P ps) = {}"
  proof -
    have "\<And>k. k \<in> set (dict_keys P) \<Longrightarrow> dunder_free k"
      using assms(2) by (simp add: list_all_iff)
    then show ?thesis
      using not_dunder_free_chain by (auto simp: fst_chain_entries)
  qed
  show ?thesis
    using assms(1) d2 d3 by (simp add: dict_keys_def)
qed

lemma distinct_TRANSFORMS: "distinct (dict_keys (TRANSFORMS lib))"
  unfolding TRANSFORMS_value
  by (rule distinct_chain_registry)
     (auto simp: distinct_pre_registry dunder_free_pre_registry distinct_chain_indices
        chain_indices_bounds length_pre_registry)

lemma dict_get_chain:
  assumes "(i, j) \<in> set (chain_indices 92)"
  shows "dict_get (TRANSFORMS lib)
           (chain_name (fst (pre_registry lib ! i)) (fst (pre_registry lib ! j))) =
         Some (make_chain (snd (pre_registry lib ! i)) (snd (pre_registry lib ! j)))"
proof -
  let ?P = "pre_registry lib"
  have "(chain_name (fst (?P ! i)) (fst (?P ! j)), make_chain (snd (?P ! i)) (snd (?P ! j)))
          \<in> set (TRANSFORMS lib)"
    using assms by (force simp: TRANSFORMS_value chain_entries_def)
  then show ?thesis
    using distinct_TRANSFORMS [of lib] by (simp add: dict_get_def dict_keys_def)
qed

lemma dict_get_pre_nth:
  "i < 92 \<Longrightarrow>
   dict_get (TRANSFORMS lib) (fst (pre_registry lib ! i)) = Some (snd (pre_registry lib ! i))"
  using dict_get_nth [OF distinct_pre_registry, of i lib]
  by (simp add: TRANSFORMS_value length_pre_registry dict_keys_def)

lemma chain_entry_cases:
  assumes "dict_get (TRANSFORMS lib) (chain_name a b) = Some c"
  obtains i j where "(i, j) \<in> set (chain_indices 92)"
    and "chain_name a b = chain_name (fst (pre_registry lib ! i)) (fst (pre_registry lib ! j))"
    and "c = make_chain (snd (pre_registry lib ! i)) (snd (pre_registry lib ! j))"
proof -
  let ?P = "pre_registry lib"
  let ?C = "chain_entries ?P (chain_indices 92)"
  have df: "\<And>k. k \<in> set (dict_keys ?P) \<Longrightarrow> dunder_free k"
    using dunder_free_pre_registry [of lib] by (simp add: list_all_iff)
  from assms have "map_of (?P @ ?C) (chain_name a b) = Some c"
    by (simp only: dict_get_def TRANSFORMS_value)
  then have "(chain_name a b, c) \<in> set (?P @ ?C)"
    by (rule map_of_SomeD)
  moreover have "(chain_name a b, c) \<notin> set ?P"
  proof
    assume "(chain_name a b, c) \<in> set ?P"
    then have "chain_name a b \<in> set (dict_keys ?P)" by (force simp: dict_keys_def)
    then show False using df not_dunder_free_chain by blast
  qed
  ultimately show ?thesis
    using that by (auto simp: chain_entries_def)
qed

lemma registered_dunder_free:
  assumes "dict_get (TRANSFORMS lib) a = Some f" "dict_get (TRANSFORMS lib) (chain_name a b) = Some c"
  shows "dunder_free a"
proof -
  let ?P = "pre_registry lib"
  let ?C = "chain_entries ?P (chain_indices 92)"
  have df: "\<And>k. k \<in> set (dict_keys ?P) \<Longrightarrow> dunder_free k"
    using dunder_free_pre_registry [of lib] by (simp add: list_all_iff)
  have dfk: "\<And>n. n < 92 \<Longrightarrow> dunder_free (fst (?P ! n))"
    using dunder_free_key [OF dunder_free_pre_registry] by (simp add: length_pre_registry)
  from assms(1) have "map_of (?P @ ?C) a = Some f"
    by (simp only: dict_get_def TRANSFORMS_value)
  then have "(a, f) \<in> set (?P @ ?C)"
    by (rule map_of_SomeD)
  then consider "(a, f) \<in> set ?P" | "(a, f) \<in> set ?C" by auto
  then show ?thesis
  proof cases
    case 1
    then have "a \<in> set (dict_keys ?P)" by (force simp: dict_keys_def)
    then show ?thesis by (rule df)
  next
    case 2
    then obtain i' j' where ij': "(i', j') \<in> set (chain_indices 92)"
      and a: "a = chain_name (fst (?P ! i')) (fst (?P ! j'))"
      by (auto simp: chain_entries_def)
    obtain i j where ij: "(i, j) \<in> set (chain_indices 92)"
      and ab: "chain_name a b = chain_name (fst (?P ! i)) (fst (?P ! j))"
      using assms(2) by (rule chain_entry_cases)
    have r: "i < 92" "j < 92" "i' < 92" "j' < 92"
      using ij ij' by (auto simp: chain_indices_bounds)
    have "chain_name a b =
            chain_name (fst (?P ! i')) (fst (?P ! j') @ ascii ''__then__'' @ b)"
      by (simp add: a chain_name_def)
    with ab have "chain_name (fst (?P ! i)) (fst (?P ! j)) =
            chain_name (fst (?P ! i')) (fst (?P ! j') @ ascii ''__then__'' @ b)"
      by simp
    then have "fst (?P ! i) = fst (?P ! i') \<and>
               fst (?P ! j) = fst (?P ! j') @ ascii ''__then__'' @ b"
      using dfk [OF r(1)] dfk [OF r(3)] by (rule chain_name_inj)
    then have "dunder_free (fst (?P ! j') @ (ascii ''__then__'' @ b))"
      using dfk [OF r(2)] by simp
    then have "dunder_free (ascii ''__then__'' @ b)"
      by (rule dunder_free_suffix)
    then show ?thesis by (simp add: ascii_def)
  qed
qed

lemma make_chain_cases:
  "make_chain f1 f2 s =
     (case f1 s of
        Inl e \<Rightarrow> Inr s
      | Inr t \<Rightarrow> (case f2 t of Inl e' \<Rightarrow> Inr s | Inr u \<Rightarrow> Inr u))"
  by (simp add: make_chain_def bind_exn_def split: sum.splits)

section \<open>The chain combinator: all or nothing\<close>

text \<open>
  Claim C3. A chained transform registered as \<open>first__then__second\<close> applies the
  transform registered as \<open>first\<close> and then the one registered as \<open>second\<close> to its
  result. If either of the two raises, the chain returns the original input \<open>s\<close>,
  never the intermediate value; otherwise it returns \<open>second(first(s))\<close>.
\<close>

theorem chain_all_or_nothing:
  assumes "dict_get (TRANSFORMS lib) (chain_name a b) = Some c"
    and "dict_get (TRANSFORMS lib) a = Some f1"
    and "dict_get (TRANSFORMS lib) b = Some f2"
  shows "c s =
     (case f1 s of
        Inl e \<Rightarrow> Inr s
      | Inr t \<Rightarrow> (case f2 t of Inl e' \<Rightarrow> Inr s | Inr u \<Rightarrow> Inr u))"
proof -
  let ?P = "pre_registry lib"
  obtain i j where ij: "(i, j) \<in> set (chain_indices 92)"
    and ab: "chain_name a b = chain_name (fst (?P ! i)) (fst (?P ! j))"
    and c: "c = make_chain (snd (?P ! i)) (snd (?P ! j))"
    using assms(1) by (rule chain_entry_cases)
  have r: "i < 92" "j < 92"
    using ij by (auto simp: chain_indices_bounds)
  have "dunder_free a"
    using assms(2) assms(1) by (rule registered_dunder_free)
  moreover have "dunder_free (fst (?P ! i))"
    using dunder_free_key [OF dunder_free_pre_registry] r by (simp add: length_pre_registry)
  ultimately have "a = fst (?P ! i) \<and> b = fst (?P ! j)"
    using ab chain_name_inj by blast
  then have "Some f1 = Some (snd (?P ! i))" "Some f2 = Some (snd (?P ! j))"
    using assms(2,3) dict_get_pre_nth [of i lib] dict_get_pre_nth [of j lib] r by simp_all
  then have "c = make_chain f1 f2"
    using c by simp
  then show ?thesis
    by (simp only: make_chain_cases)
qed

text \<open>
  The chain \<open>noop__then__base64\<close>: on a lone surrogate the second stage cannot encode
  its input and the chain gives the input back; on \<open>abc\<close> it gives the Base64 text.
\<close>

theorem chain_all_or_nothing_witness:
  "\<exists>c. dict_get (TRANSFORMS sample_lib) (chain_name (ascii ''noop'') (ascii ''base64'')) = Some c
       \<and> c [0xD800] = Inr [0xD800]
       \<and> c (ascii ''abc'') = Inr (ascii ''YWJj'')"
proof -
  have idx: "(0, 1) \<in> set (chain_indices 92)"
    by (simp add: chain_indices_bounds N_pairs_def)
  have k0: "pre_registry sample_lib ! 0 = (ascii ''noop'', noop)"
    and k1: "pre_registry sample_lib ! 1 = (ascii ''base64'', base64_std)"
    by (simp_all add: pre_registry_def base_TRANSFORMS_def)
  have c: "dict_get (TRANSFORMS sample_lib) (chain_name (ascii ''noop'') (ascii ''base64''))
             = Some (make_chain noop base64_std)"
    using dict_get_chain [OF idx, of sample_lib] by (simp only: k0 k1 fst_conv snd_conv)
  have a: "dict_get (TRANSFORMS sample_lib) (ascii ''noop'') = Some noop"
    using dict_get_pre_nth [of 0 sample_lib] by (simp add: k0 del: One_nat_def)
  have b: "dict_get (TRANSFORMS sample_lib) (ascii ''base64'') = Some base64_std"
    using dict_get_pre_nth [of 1 sample_lib] by (simp add: k1 del: One_nat_def)
  have "make_chain noop base64_std [0xD800] = Inr [0xD800]"
    using chain_all_or_nothing [OF c a b, of "[0xD800]"]
    by (simp add: noop_def base64_std_def utf8_encode_def encode_with_def utf8_char_def
          is_surrogate_def bind_exn_def)
  moreover have "make_chain noop base64_std (ascii ''abc'') = Inr (ascii ''YWJj'')"
    using chain_all_or_nothing [OF c a b, of "ascii ''abc''"]
    by (simp add: noop_def base64_std_def b64_def utf8_encode_def encode_with_def utf8_char_def
          bind_exn_def decode_ascii_def b64chr_def ascii_def)
  ultimately show ?thesis
    using c by simp
qed

section \<open>The keys of the registry\<close>

lemma keys_pre_registry_indep: "dict_keys (pre_registry lib) = dict_keys (pre_registry lib')"
  by (simp add: pre_registry_def base_TRANSFORMS_def generated_def dict_keys_def)

lemma keys_chain_entries:
  assumes "\<forall>(i, j) \<in> set ps. i < length P \<and> j < length P"
  shows "map fst (chain_entries P ps) =
           map (\<lambda>(i, j). chain_name (dict_keys P ! i) (dict_keys P ! j)) ps"
  using assms by (auto simp: chain_entries_def dict_keys_def)

lemma dict_keys_TRANSFORMS:
  "dict_keys (TRANSFORMS lib) =
     dict_keys (pre_registry lib) @
     map (\<lambda>(i, j). chain_name (dict_keys (pre_registry lib) ! i) (dict_keys (pre_registry lib) ! j))
       (chain_indices 92)"
proof -
  have "\<forall>(i, j) \<in> set (chain_indices 92).
          i < length (pre_registry lib) \<and> j < length (pre_registry lib)"
    by (auto simp: chain_indices_bounds length_pre_registry)
  then show ?thesis
    using keys_chain_entries [of "chain_indices 92" "pre_registry lib"]
    by (simp add: TRANSFORMS_value dict_keys_def)
qed

lemma keys_TRANSFORMS_indep: "dict_keys (TRANSFORMS lib) = dict_keys (TRANSFORMS lib')"
  by (simp only: dict_keys_TRANSFORMS keys_pre_registry_indep [of lib lib'])

lemma length_chain_indices_92: "length (chain_indices 92) = 90"
  by code_simp

lemma length_TRANSFORMS: "length (TRANSFORMS lib) = 182"
  by (simp add: TRANSFORMS_value length_pre_registry chain_entries_def length_chain_indices_92)

lemma dict_get_absent:
  assumes "map_of (pre_registry lib) k = None" "dunder_free k"
  shows "dict_get (TRANSFORMS lib) k = None"
proof -
  have "k \<notin> fst ` set (chain_entries (pre_registry lib) (chain_indices 92))"
    using assms(2) not_dunder_free_chain by (auto simp: fst_chain_entries)
  then have "map_of (chain_entries (pre_registry lib) (chain_indices 92)) k = None"
    by (simp add: map_of_eq_None_iff)
  then show ?thesis
    using assms(1) by (simp add: TRANSFORMS_value dict_get_def map_add_def)
qed

section \<open>Listing\<close>

text \<open>
  Claim C8. \<open>list_transforms\<close> returns every registered name exactly once, in
  lexicographic order of the code points, and the listing does not depend on the
  library the transforms call: two runs give the same listing of 182 names.
\<close>

theorem list_transforms_sorted_total:
  "sorted (list_transforms lib)
   \<and> distinct (list_transforms lib)
   \<and> set (list_transforms lib) = set (dict_keys (TRANSFORMS lib))
   \<and> length (list_transforms lib) = 182
   \<and> list_transforms lib = list_transforms lib'"
proof (intro conjI)
  show "sorted (list_transforms lib)"
    by (simp add: list_transforms_def)
  show "distinct (list_transforms lib)"
    using distinct_TRANSFORMS [of lib] by (simp add: list_transforms_def)
  show "set (list_transforms lib) = set (dict_keys (TRANSFORMS lib))"
    by (simp add: list_transforms_def)
  show "length (list_transforms lib) = 182"
    by (simp add: list_transforms_def dict_keys_def length_TRANSFORMS)
  show "list_transforms lib = list_transforms lib'"
    by (simp only: list_transforms_def keys_TRANSFORMS_indep [of lib lib'])
qed

section \<open>The facade\<close>

text \<open>
  Claim C1. For every registered name and every list of entries with text payloads,
  \<open>transform_payloads\<close> returns one text for each entry and raises nothing: where the
  transform returns, its result; where the transform raises, the payload unchanged.
\<close>

theorem facade_no_failure:
  assumes "name \<in> set (list_transforms lib)"
  shows "\<exists>f outs.
           dict_get (TRANSFORMS lib) name = Some f
         \<and> transform_payloads (TRANSFORMS lib) json_data name = Inr outs
         \<and> length outs = length json_data
         \<and> (\<forall>i < length json_data.
               outs ! i = (case f (entry_payload (json_data ! i)) of
                             Inl ex \<Rightarrow> entry_payload (json_data ! i)
                           | Inr transformed \<Rightarrow> transformed))"
proof -
  from assms have "name \<in> fst ` set (TRANSFORMS lib)"
    by (simp add: list_transforms_def dict_keys_def)
  then obtain f where f: "dict_get (TRANSFORMS lib) name = Some f"
    unfolding dict_get_def by (metis map_of_eq_None_iff not_Some_eq)
  then show ?thesis
    by (simp add: transform_payloads_def Let_def)
qed

lemma lookup_base64: "dict_get (TRANSFORMS lib) (ascii ''base64'') = Some base64_std"
  by (rule dict_get_pre) (simp add: pre_registry_def base_TRANSFORMS_def ascii_inj)

lemma base64_abc: "base64_std (ascii ''abc'') = Inr (ascii ''YWJj'')"
  by (simp add: base64_std_def b64_def utf8_encode_def encode_with_def utf8_char_def
        bind_exn_def decode_ascii_def b64chr_def ascii_def)

lemma entry_payload_single: "entry_payload [(ascii ''payload'', p)] = p"
  by (simp add: entry_payload_def dict_get_def)

theorem facade_no_failure_witness:
  "ascii ''base64'' \<in> set (list_transforms sample_lib)
   \<and> (\<exists>outs. transform_payloads (TRANSFORMS sample_lib)
                [[(ascii ''payload'', [0xD800])], [(ascii ''payload'', ascii ''abc'')]]
                (ascii ''base64'') = Inr outs
            \<and> outs ! 0 = [0xD800] \<and> outs ! 1 = ascii ''YWJj'')"
proof -
  have "(ascii ''base64'', base64_std) \<in> set (TRANSFORMS sample_lib)"
    using lookup_base64 [of sample_lib] unfolding dict_get_def by (rule map_of_SomeD)
  then have mem: "ascii ''base64'' \<in> set (list_transforms sample_lib)"
    by (force simp: list_transforms_def dict_keys_def)
  let ?data = "[[(ascii ''payload'', [0xD800])], [(ascii ''payload'', ascii ''abc'')]]"
  obtain f outs where f: "dict_get (TRANSFORMS sample_lib) (ascii ''base64'') = Some f"
    and r: "transform_payloads (TRANSFORMS sample_lib) ?data (ascii ''base64'') = Inr outs"
    and o: "\<forall>i < length ?data.
               outs ! i = (case f (entry_payload (?data ! i)) of
                             Inl ex \<Rightarrow> entry_payload (?data ! i)
                           | Inr transformed \<Rightarrow> transformed)"
    using facade_no_failure [OF mem, of ?data] by blast
  from f have ff: "f = base64_std"
    by (simp add: lookup_base64)
  have "base64_std [0xD800] = Inl UnicodeEncodeError"
    by (simp add: base64_std_def utf8_encode_def encode_with_def utf8_char_def
          is_surrogate_def bind_exn_def)
  moreover from o have "outs ! 0 = (case f [0xD800] of Inl ex \<Rightarrow> [0xD800] | Inr t \<Rightarrow> t)"
    by (simp add: entry_payload_single cong: sum.case_cong)
  moreover from o have
    "outs ! 1 = (case f (ascii ''abc'') of Inl ex \<Rightarrow> ascii ''abc'' | Inr t \<Rightarrow> t)"
    by (simp add: entry_payload_single cong: sum.case_cong)
  ultimately have "outs ! 0 = [0xD800]" "outs ! 1 = ascii ''YWJj''"
    by (simp_all add: ff base64_abc)
  with mem r show ?thesis by blast
qed

section \<open>The scenario\<close>

lemma facade_single:
  "dict_get T name = Some f \<Longrightarrow> f p = Inr t \<Longrightarrow>
   transform_payloads T [[(ascii ''payload'', p)]] name = Inr [t]"
  by (simp add: transform_payloads_def entry_payload_single)

lemma lookup_rot13: "dict_get (TRANSFORMS lib) (ascii ''rot13'') = Some rot13"
  by (rule dict_get_pre) (simp add: pre_registry_def base_TRANSFORMS_def ascii_inj)

lemma lookup_hex_lower: "dict_get (TRANSFORMS lib) (ascii ''hex_lower'') = Some hex_lower"
  by (rule dict_get_pre) (simp add: pre_registry_def base_TRANSFORMS_def ascii_inj)

lemma lookup_url_all: "dict_get (TRANSFORMS lib) (ascii ''url_all'') = Some url_encode_all"
  by (rule dict_get_pre) (simp add: pre_registry_def base_TRANSFORMS_def ascii_inj)

lemma lookup_unknown_name: "dict_get (TRANSFORMS lib) (ascii ''unknown_name'') = None"
proof (rule dict_get_absent)
  show "map_of (pre_registry lib) (ascii ''unknown_name'') = None"
    by (simp add: pre_registry_def base_TRANSFORMS_def generated_def extras_def ascii_inj)
  show "dunder_free (ascii ''unknown_name'')"
    by (simp add: ascii_def)
qed

lemma rot13_abc: "rot13 (ascii ''abc'') = Inr (ascii ''nop'')"
  by (simp add: rot13_def rot_13_def rot13_char_def ascii_def)

lemma hex_lower_AB: "hex_lower (ascii ''AB'') = Inr (ascii ''4142'')"
  by (simp add: hex_lower_def hex_def utf8_encode_def encode_with_def utf8_char_def
        bind_exn_def decode_ascii_def hexlify_def hexdigit_def ascii_def)

lemma url_all_a_b: "url_encode_all (ascii ''a b'') = Inr (ascii ''a%20b'')"
  by (simp add: url_encode_all_def quote_def quote_from_bytes_def always_safe_def
        hexdigit_upper_def utf8_encode_def encode_with_def utf8_char_def bind_exn_def ascii_def)

lemma listed_iff: "name \<in> set (list_transforms lib) \<longleftrightarrow> dict_get (TRANSFORMS lib) name \<noteq> None"
  by (simp add: list_transforms_def dict_keys_def dict_get_def map_of_eq_None_iff)

lemma facade_unknown_iff:
  "transform_payloads (TRANSFORMS lib) json_data name = Inl ValueError
     \<longleftrightarrow> name \<notin> set (list_transforms lib)"
  by (cases "dict_get (TRANSFORMS lib) name") (simp_all add: listed_iff transform_payloads_def)

lemma lookup_upper_name: "dict_get (TRANSFORMS lib) (ascii ''BASE64'') = None"
proof (rule dict_get_absent)
  show "map_of (pre_registry lib) (ascii ''BASE64'') = None"
    by (simp add: pre_registry_def base_TRANSFORMS_def generated_def extras_def ascii_inj)
  show "dunder_free (ascii ''BASE64'')"
    by (simp add: ascii_def)
qed

text \<open>
  Claim C2. Through the facade, \<open>base64\<close> maps \<open>abc\<close> to \<open>YWJj\<close>, \<open>rot13\<close> maps
  \<open>abc\<close> to \<open>nop\<close>, \<open>hex_lower\<close> maps \<open>AB\<close> to \<open>4142\<close>, \<open>url_all\<close> maps \<open>a b\<close>
  to \<open>a%20b\<close>. A name makes the facade raise its error for an unknown transform (a
  \<open>ValueError\<close>) exactly when it is not among the registered names, whatever the
  data; \<open>unknown_name\<close> is such a name.
\<close>

theorem scenario:
  "transform_payloads (TRANSFORMS lib) [[(ascii ''payload'', ascii ''abc'')]] (ascii ''base64'')
     = Inr [ascii ''YWJj'']
   \<and> transform_payloads (TRANSFORMS lib) [[(ascii ''payload'', ascii ''abc'')]] (ascii ''rot13'')
     = Inr [ascii ''nop'']
   \<and> transform_payloads (TRANSFORMS lib) [[(ascii ''payload'', ascii ''AB'')]] (ascii ''hex_lower'')
     = Inr [ascii ''4142'']
   \<and> transform_payloads (TRANSFORMS lib) [[(ascii ''payload'', ascii ''a b'')]] (ascii ''url_all'')
     = Inr [ascii ''a%20b'']
   \<and> transform_payloads (TRANSFORMS lib) [[(ascii ''payload'', ascii ''x'')]]
       (ascii ''unknown_name'') = Inl ValueError
   \<and> (\<forall>name json_data. name \<notin> set (list_transforms lib) \<longrightarrow>
         transform_payloads (TRANSFORMS lib) json_data name = Inl ValueError)
   \<and> (\<forall>name json_data. name \<in> set (list_transforms lib) \<longrightarrow>
         transform_payloads (TRANSFORMS lib) json_data name \<noteq> Inl ValueError)
   \<and> ascii ''unknown_name'' \<notin> set (list_transforms lib)"
proof (intro conjI allI impI)
  show "transform_payloads (TRANSFORMS lib) [[(ascii ''payload'', ascii ''abc'')]]
          (ascii ''base64'') = Inr [ascii ''YWJj'']"
    by (rule facade_single [OF lookup_base64 base64_abc])
  show "transform_payloads (TRANSFORMS lib) [[(ascii ''payload'', ascii ''abc'')]]
          (ascii ''rot13'') = Inr [ascii ''nop'']"
    by (rule facade_single [OF lookup_rot13 rot13_abc])
  show "transform_payloads (TRANSFORMS lib) [[(ascii ''payload'', ascii ''AB'')]]
          (ascii ''hex_lower'') = Inr [ascii ''4142'']"
    by (rule facade_single [OF lookup_hex_lower hex_lower_AB])
  show "transform_payloads (TRANSFORMS lib) [[(ascii ''payload'', ascii ''a b'')]]
          (ascii ''url_all'') = Inr [ascii ''a%20b'']"
    by (rule facade_single [OF lookup_url_all url_all_a_b])
  show "transform_payloads (TRANSFORMS lib) [[(ascii ''payload'', ascii ''x'')]]
          (ascii ''unknown_name'') = Inl ValueError"
    by (simp add: transform_payloads_def lookup_unknown_name)
  show "transform_payloads (TRANSFORMS lib) json_data name = Inl ValueError"
    if "name \<notin> set (list_transforms lib)" for name json_data
    using that by (simp add: facade_unknown_iff)
  show "transform_payloads (TRANSFORMS lib) json_data name \<noteq> Inl ValueError"
    if "name \<in> set (list_transforms lib)" for name json_data
    using that by (simp add: facade_unknown_iff)
  show "ascii ''unknown_name'' \<notin> set (list_transforms lib)"
    by (simp add: listed_iff lookup_unknown_name)
qed

theorem scenario_witness:
  "ascii ''BASE64'' \<notin> set (list_transforms sample_lib)
   \<and> transform_payloads (TRANSFORMS sample_lib) [] (ascii ''BASE64'') = Inl ValueError
   \<and> transform_payloads (TRANSFORMS sample_lib) [[(ascii ''payload'', ascii ''abc'')]]
        (ascii ''BASE64'') = Inl ValueError
   \<and> ascii ''unknown_name'' \<notin> set (list_transforms sample_lib)
   \<and> transform_payloads (TRANSFORMS sample_lib) [[], [(ascii ''payload'', [0xD800])]]
        (ascii ''unknown_name'') = Inl ValueError
   \<and> ascii ''base64'' \<in> set (list_transforms sample_lib)
   \<and> transform_payloads (TRANSFORMS sample_lib) [] (ascii ''base64'') \<noteq> Inl ValueError"
proof -
  have a: "ascii ''BASE64'' \<notin> set (list_transforms sample_lib)"
    by (simp add: listed_iff lookup_upper_name)
  have b: "ascii ''base64'' \<in> set (list_transforms sample_lib)"
    by (simp add: listed_iff lookup_base64)
  note s = scenario [of sample_lib]
  from s have u: "ascii ''unknown_name'' \<notin> set (list_transforms sample_lib)"
    by blast
  from s a have "transform_payloads (TRANSFORMS sample_lib) [] (ascii ''BASE64'') = Inl ValueError"
    by blast
  moreover from s a have
    "transform_payloads (TRANSFORMS sample_lib) [[(ascii ''payload'', ascii ''abc'')]]
       (ascii ''BASE64'') = Inl ValueError"
    by blast
  moreover from s u have
    "transform_payloads (TRANSFORMS sample_lib) [[], [(ascii ''payload'', [0xD800])]]
       (ascii ''unknown_name'') = Inl ValueError"
    by blast
  moreover from s b have
    "transform_payloads (TRANSFORMS sample_lib) [] (ascii ''base64'') \<noteq> Inl ValueError"
    by blast
  ultimately show ?thesis
    using a b u by blast
qed

section \<open>Two names for one transform\<close>

lemma b64chr_ascii: "b64chr n < 128"
  by (auto simp: b64chr_def)

lemma b64encode_ascii: "list_all (\<lambda>b. b < 128) (b64encode bs)"
  by (induction bs rule: b64encode.induct) (simp_all add: b64chr_ascii)

lemma b64_total: "b64 b = Inr (b64encode b)"
  by (simp add: b64_def decode_ascii_def b64encode_ascii)

lemma lookup_base64_nopad:
  "dict_get (TRANSFORMS lib) (ascii ''base64_nopad'') = Some base64_nopad"
  by (rule dict_get_pre) (simp add: pre_registry_def base_TRANSFORMS_def ascii_inj)

lemma lookup_base64_no_pad:
  "dict_get (TRANSFORMS lib) (ascii ''base64_no_pad'') = Some base64_no_pad"
  by (rule dict_get_pre) (simp add: pre_registry_def base_TRANSFORMS_def ascii_inj)

lemma b64chr_not_pad: "b64chr n \<noteq> 61"
  by (auto simp: b64chr_def)

lemma b64encode_shape:
  "\<exists>r. 61 \<notin> set r \<and> b64encode bs = r @ replicate ((3 - length bs mod 3) mod 3) 61"
proof (induction bs rule: b64encode.induct)
  case 1
  then show ?case by simp
next
  case (2 a)
  have "61 \<notin> set [b64chr (a div 4), b64chr ((a mod 4) * 16)]"
    using b64chr_not_pad [of "a div 4"] b64chr_not_pad [of "(a mod 4) * 16"] by auto
  moreover have "b64encode [a] = [b64chr (a div 4), b64chr ((a mod 4) * 16)]
                   @ replicate ((3 - length [a] mod 3) mod 3) 61"
    by (simp add: numeral_2_eq_2)
  ultimately show ?case by blast
next
  case (3 a b)
  have "61 \<notin> set [b64chr (a div 4), b64chr ((a mod 4) * 16 + b div 16), b64chr ((b mod 16) * 4)]"
    using b64chr_not_pad [of "a div 4"] b64chr_not_pad [of "(a mod 4) * 16 + b div 16"]
      b64chr_not_pad [of "(b mod 16) * 4"] by auto
  moreover have "b64encode [a, b] =
      [b64chr (a div 4), b64chr ((a mod 4) * 16 + b div 16), b64chr ((b mod 16) * 4)]
        @ replicate ((3 - length [a, b] mod 3) mod 3) 61"
    by simp
  ultimately show ?case by blast
next
  case (4 a b c rest)
  then obtain r where r: "61 \<notin> set r"
    and e: "b64encode rest = r @ replicate ((3 - length rest mod 3) mod 3) 61"
    by blast
  let ?h = "[b64chr (a div 4), b64chr ((a mod 4) * 16 + b div 16),
             b64chr ((b mod 16) * 4 + c div 64), b64chr (c mod 64)]"
  have "61 \<notin> set (?h @ r)"
    using r b64chr_not_pad [of "a div 4"] b64chr_not_pad [of "(a mod 4) * 16 + b div 16"]
      b64chr_not_pad [of "(b mod 16) * 4 + c div 64"] b64chr_not_pad [of "c mod 64"] by auto
  moreover have "length (a # b # c # rest) = length rest + 3"
    by simp
  then have "length (a # b # c # rest) mod 3 = length rest mod 3"
    by (simp only: mod_add_self2)
  then have "b64encode (a # b # c # rest) =
      (?h @ r) @ replicate ((3 - length (a # b # c # rest) mod 3) mod 3) 61"
    using e by (simp only: b64encode.simps append_assoc)
  ultimately show ?case by blast
qed

lemma rstrip_padding: "ch \<notin> set r \<Longrightarrow> rstrip ch (r @ replicate k ch) = r"
proof -
  assume a: "ch \<notin> set r"
  have "dropWhile (\<lambda>c. c = ch) (replicate k ch @ rev r) = dropWhile (\<lambda>c. c = ch) (rev r)"
    by (rule dropWhile_append2) simp
  also have "\<dots> = rev r"
    using a by (cases "rev r") (auto simp: rev_eq_Cons_iff)
  finally show ?thesis
    by (simp add: rstrip_def)
qed

lemma base64_nopad_value:
  "base64_nopad s = bind_exn (utf8_encode Strict s) (\<lambda>b. Inr (rstrip 61 (b64encode b)))"
  by (simp add: base64_nopad_def b64_total bind_exn_def split: sum.splits)

lemma base64_std_value:
  "base64_std s = bind_exn (utf8_encode Strict s) (\<lambda>b. Inr (b64encode b))"
  by (simp add: base64_std_def b64_total bind_exn_def split: sum.splits)

lemma base64_nopad_strips:
  assumes "utf8_encode Strict s = Inr b"
  shows "\<exists>r. base64_nopad s = Inr r \<and> 61 \<notin> set r
             \<and> b64encode b = r @ replicate ((3 - length b mod 3) mod 3) 61"
proof -
  obtain r where r: "61 \<notin> set r"
    and e: "b64encode b = r @ replicate ((3 - length b mod 3) mod 3) 61"
    using b64encode_shape [of b] by blast
  have "rstrip 61 (b64encode b) = r"
    unfolding e using r by (rule rstrip_padding)
  then have "base64_nopad s = Inr r"
    using assms by (simp add: base64_nopad_value bind_exn_def)
  with r e show ?thesis by blast
qed

lemma base64_nopad_a: "base64_nopad (ascii ''a'') = Inr (ascii ''YQ'')"
  by (simp add: base64_nopad_value utf8_encode_def encode_with_def utf8_char_def bind_exn_def
        rstrip_def b64chr_def ascii_def)

lemma base64_nopad_ab: "base64_nopad (ascii ''ab'') = Inr (ascii ''YWI'')"
  by (simp add: base64_nopad_value utf8_encode_def encode_with_def utf8_char_def bind_exn_def
        rstrip_def b64chr_def ascii_def)

lemma base64_nopad_abc: "base64_nopad (ascii ''abc'') = Inr (ascii ''YWJj'')"
  by (simp add: base64_nopad_value utf8_encode_def encode_with_def utf8_char_def bind_exn_def
        rstrip_def b64chr_def ascii_def)

lemma base64_std_a: "base64_std (ascii ''a'') = Inr (ascii ''YQ=='')"
  by (simp add: base64_std_value utf8_encode_def encode_with_def utf8_char_def bind_exn_def
        b64chr_def ascii_def)

lemma utf8_encode_a: "utf8_encode Strict (ascii ''a'') = Inr [97]"
  by (simp add: utf8_encode_def encode_with_def utf8_char_def bind_exn_def ascii_def)

lemma utf8_encode_surrogate: "utf8_encode Strict [0xD800] = Inl UnicodeEncodeError"
  by (simp add: utf8_encode_def encode_with_def utf8_char_def is_surrogate_def)

text \<open>
  Claim C9. The registry holds the two different names \<open>base64_nopad\<close> and
  \<open>base64_no_pad\<close>, and their transforms agree on every input. Where the input has
  no UTF-8 encoding both raise, as \<open>base64\<close> does. Otherwise the result \<open>r\<close> holds
  no \<open>=\<close>, and the standard Base64 text of the UTF-8 bytes, which is what \<open>base64\<close>
  returns, is \<open>r\<close> followed by the padding: two \<open>=\<close> when the number of bytes
  leaves the remainder 1 modulo 3, one when it leaves 2, none when it leaves 0. So
  \<open>a\<close> gives \<open>YQ\<close> where \<open>base64\<close> gives \<open>YQ==\<close>.
\<close>

theorem base64_nopad_twice:
  "ascii ''base64_nopad'' \<noteq> ascii ''base64_no_pad''
   \<and> dict_get (TRANSFORMS lib) (ascii ''base64_nopad'') = Some base64_nopad
   \<and> dict_get (TRANSFORMS lib) (ascii ''base64_no_pad'') = Some base64_no_pad
   \<and> base64_nopad s = base64_no_pad s
   \<and> base64_nopad s = bind_exn (utf8_encode Strict s) (\<lambda>b. Inr (rstrip 61 (b64encode b)))
   \<and> (\<forall>e. utf8_encode Strict s = Inl e \<longrightarrow> base64_nopad s = Inl e \<and> base64_std s = Inl e)
   \<and> (\<forall>b. utf8_encode Strict s = Inr b \<longrightarrow>
         (\<exists>r. base64_nopad s = Inr r \<and> 61 \<notin> set r
              \<and> b64encode b = r @ replicate ((3 - length b mod 3) mod 3) 61
              \<and> base64_std s = Inr (r @ replicate ((3 - length b mod 3) mod 3) 61)))
   \<and> base64_nopad (ascii ''a'') = Inr (ascii ''YQ'')
   \<and> base64_nopad (ascii ''ab'') = Inr (ascii ''YWI'')
   \<and> base64_nopad (ascii ''abc'') = Inr (ascii ''YWJj'')
   \<and> base64_std (ascii ''a'') = Inr (ascii ''YQ=='')"
proof (intro conjI allI impI)
  show "ascii ''base64_nopad'' \<noteq> ascii ''base64_no_pad''"
    by (simp add: ascii_inj)
  show "dict_get (TRANSFORMS lib) (ascii ''base64_nopad'') = Some base64_nopad"
    by (rule lookup_base64_nopad)
  show "dict_get (TRANSFORMS lib) (ascii ''base64_no_pad'') = Some base64_no_pad"
    by (rule lookup_base64_no_pad)
  show "base64_nopad s = base64_no_pad s"
    by (simp add: base64_nopad_def base64_no_pad_def)
  show "base64_nopad s = bind_exn (utf8_encode Strict s) (\<lambda>b. Inr (rstrip 61 (b64encode b)))"
    by (rule base64_nopad_value)
  show "base64_nopad s = Inl e" if "utf8_encode Strict s = Inl e" for e
    using that by (simp add: base64_nopad_value bind_exn_def)
  show "base64_std s = Inl e" if "utf8_encode Strict s = Inl e" for e
    using that by (simp add: base64_std_value bind_exn_def)
  show "\<exists>r. base64_nopad s = Inr r \<and> 61 \<notin> set r
          \<and> b64encode b = r @ replicate ((3 - length b mod 3) mod 3) 61
          \<and> base64_std s = Inr (r @ replicate ((3 - length b mod 3) mod 3) 61)"
    if "utf8_encode Strict s = Inr b" for b
    using base64_nopad_strips [OF that] that by (auto simp: base64_std_value bind_exn_def)
  show "base64_nopad (ascii ''a'') = Inr (ascii ''YQ'')"
    by (rule base64_nopad_a)
  show "base64_nopad (ascii ''ab'') = Inr (ascii ''YWI'')"
    by (rule base64_nopad_ab)
  show "base64_nopad (ascii ''abc'') = Inr (ascii ''YWJj'')"
    by (rule base64_nopad_abc)
  show "base64_std (ascii ''a'') = Inr (ascii ''YQ=='')"
    by (rule base64_std_a)
qed

theorem base64_nopad_twice_witness:
  "utf8_encode Strict (ascii ''a'') = Inr [97]
   \<and> b64encode [97] = ascii ''YQ==''
   \<and> (\<exists>r. base64_nopad (ascii ''a'') = Inr r \<and> 61 \<notin> set r
          \<and> b64encode [97] = r @ replicate 2 61
          \<and> base64_std (ascii ''a'') = Inr (r @ replicate 2 61))
   \<and> utf8_encode Strict [0xD800] = Inl UnicodeEncodeError
   \<and> base64_nopad [0xD800] = Inl UnicodeEncodeError
   \<and> base64_no_pad [0xD800] = Inl UnicodeEncodeError"
proof -
  have "\<exists>r. base64_nopad (ascii ''a'') = Inr r \<and> 61 \<notin> set r
          \<and> b64encode [97] = r @ replicate ((3 - length [97::nat] mod 3) mod 3) 61
          \<and> base64_std (ascii ''a'') = Inr (r @ replicate ((3 - length [97::nat] mod 3) mod 3) 61)"
    using base64_nopad_twice [of sample_lib "ascii ''a''"] utf8_encode_a by blast
  moreover have "(3 - length [97::nat] mod 3) mod 3 = 2"
    by simp
  ultimately have a: "\<exists>r. base64_nopad (ascii ''a'') = Inr r \<and> 61 \<notin> set r
          \<and> b64encode [97] = r @ replicate 2 61
          \<and> base64_std (ascii ''a'') = Inr (r @ replicate 2 61)"
    by simp
  have b1: "base64_nopad [0xD800] = Inl UnicodeEncodeError"
    using base64_nopad_twice [of sample_lib "[0xD800]"] utf8_encode_surrogate by blast
  have "base64_nopad [0xD800] = base64_no_pad [0xD800]"
    using base64_nopad_twice [of sample_lib "[0xD800]"] by blast
  from this [symmetric] b1 have b2: "base64_no_pad [0xD800] = Inl UnicodeEncodeError"
    by (rule trans)
  note b = b1 b2
  have c: "b64encode [97] = ascii ''YQ==''"
    by (simp add: b64chr_def ascii_def)
  from a b c show ?thesis
    by (simp only: utf8_encode_a utf8_encode_surrogate simp_thms)
qed

section \<open>The generated family\<close>

lemma count_list_distinct: "distinct xs \<Longrightarrow> x \<in> set xs \<Longrightarrow> count_list xs x = 1"
  by (induction xs) (auto simp: count_list_0_iff)

lemma dict_get_registered:
  "(k, f) \<in> set (pre_registry lib) \<Longrightarrow> dict_get (TRANSFORMS lib) k = Some f"
proof -
  assume "(k, f) \<in> set (pre_registry lib)"
  then have "(k, f) \<in> set (TRANSFORMS lib)"
    by (simp add: TRANSFORMS_value)
  then show ?thesis
    using distinct_TRANSFORMS [of lib] by (simp add: dict_get_def dict_keys_def)
qed

lemma registered_once:
  "dict_get (TRANSFORMS lib) k = Some f \<Longrightarrow> count_list (dict_keys (TRANSFORMS lib)) k = 1"
proof -
  assume "dict_get (TRANSFORMS lib) k = Some f"
  then have "(k, f) \<in> set (TRANSFORMS lib)"
    unfolding dict_get_def by (rule map_of_SomeD)
  then have "k \<in> set (dict_keys (TRANSFORMS lib))"
    by (force simp: dict_keys_def)
  then show ?thesis
    using distinct_TRANSFORMS [of lib] by (simp add: count_list_distinct)
qed

lemma generated_pairs:
  "map (\<lambda>(enc, out). (bytes_name enc out, make_bytes_transform lib enc out))
     (List.product BYTE_ENCODINGS OUTPUTS) =
   map (\<lambda>(k, f). (k, Inr f)) (generated lib)"
  by (simp add: BYTE_ENCODINGS_def OUTPUTS_def generated_def make_bytes_transform_def
        ascii_inj bytes_name_def replace_char_def ascii_def)

lemma generated_own_closure:
  assumes "(enc, out) \<in> set (List.product BYTE_ENCODINGS OUTPUTS)"
  shows "\<exists>f. make_bytes_transform lib enc out = Inr f
           \<and> dict_get (TRANSFORMS lib) (bytes_name enc out) = Some f"
proof -
  from assms have
    "(bytes_name enc out, make_bytes_transform lib enc out) \<in>
       set (map (\<lambda>(enc, out). (bytes_name enc out, make_bytes_transform lib enc out))
              (List.product BYTE_ENCODINGS OUTPUTS))"
    by force
  then have "(bytes_name enc out, make_bytes_transform lib enc out) \<in>
               set (map (\<lambda>(k, f). (k, Inr f)) (generated lib))"
    by (simp only: generated_pairs)
  then obtain f where f: "make_bytes_transform lib enc out = Inr f"
    and mem: "(bytes_name enc out, f) \<in> set (generated lib)"
    by auto
  from mem have "(bytes_name enc out, f) \<in> set (pre_registry lib)"
    by (simp add: pre_registry_def)
  then have "dict_get (TRANSFORMS lib) (bytes_name enc out) = Some f"
    by (rule dict_get_registered)
  with f show ?thesis by blast
qed

lemma naming_rule:
  "list_all (\<lambda>(enc, out). bytes_name enc out = strip_punctuation enc @ ascii ''_'' @ out)
     (List.product BYTE_ENCODINGS OUTPUTS)"
  by (simp add: BYTE_ENCODINGS_def OUTPUTS_def bytes_name_def replace_char_def
        strip_punctuation_def ascii_def)

lemma bytes_names_distinct:
  "distinct (map (\<lambda>(enc, out). bytes_name enc out) (List.product BYTE_ENCODINGS OUTPUTS))"
proof -
  have "map (\<lambda>(enc, out). bytes_name enc out) (List.product BYTE_ENCODINGS OUTPUTS) =
          map fst (map (\<lambda>(enc, out). (bytes_name enc out, make_bytes_transform lib enc out))
                     (List.product BYTE_ENCODINGS OUTPUTS))" for lib
    by (simp add: case_prod_unfold comp_def)
  also have "\<dots> lib = map fst (generated lib)" for lib
    by (simp only: generated_pairs) (simp add: case_prod_unfold comp_def)
  finally have e: "map (\<lambda>(enc, out). bytes_name enc out) (List.product BYTE_ENCODINGS OUTPUTS)
                     = map fst (generated sample_lib)" .
  have "distinct (dict_keys (base_TRANSFORMS sample_lib) @
                  map fst (generated sample_lib) @ map fst extras)"
    using distinct_pre_registry [of sample_lib] by (simp add: pre_registry_def dict_keys_def)
  then have "distinct (map fst (generated sample_lib))"
    by simp
  with e show ?thesis by simp
qed

text \<open>
  Claim C5. The seven encodings and the three representations give 21 pairs. The name
  of a pair is the encoding identifier without its punctuation, an underscore and the
  representation identifier; the 21 names differ from each other, and each is the key
  of exactly one entry of the registry.
\<close>

theorem generated_family:
  "length BYTE_ENCODINGS = 7
   \<and> length OUTPUTS = 3
   \<and> length (List.product BYTE_ENCODINGS OUTPUTS) = 21
   \<and> distinct (map (\<lambda>(enc, out). bytes_name enc out) (List.product BYTE_ENCODINGS OUTPUTS))
   \<and> (\<forall>(enc, out) \<in> set (List.product BYTE_ENCODINGS OUTPUTS).
         bytes_name enc out = strip_punctuation enc @ ascii ''_'' @ out
       \<and> (\<exists>f. dict_get (TRANSFORMS lib) (bytes_name enc out) = Some f)
       \<and> count_list (dict_keys (TRANSFORMS lib)) (bytes_name enc out) = 1)"
proof (intro conjI)
  show "length BYTE_ENCODINGS = 7"
    by (simp add: BYTE_ENCODINGS_def)
  show "length OUTPUTS = 3"
    by (simp add: OUTPUTS_def)
  show "length (List.product BYTE_ENCODINGS OUTPUTS) = 21"
    by (simp add: BYTE_ENCODINGS_def OUTPUTS_def)
  show "distinct (map (\<lambda>(enc, out). bytes_name enc out) (List.product BYTE_ENCODINGS OUTPUTS))"
    by (rule bytes_names_distinct)
  show "\<forall>(enc, out) \<in> set (List.product BYTE_ENCODINGS OUTPUTS).
         bytes_name enc out = strip_punctuation enc @ ascii ''_'' @ out
       \<and> (\<exists>f. dict_get (TRANSFORMS lib) (bytes_name enc out) = Some f)
       \<and> count_list (dict_keys (TRANSFORMS lib)) (bytes_name enc out) = 1"
  proof (clarify, intro conjI)
    fix enc out
    assume m: "(enc, out) \<in> set (List.product BYTE_ENCODINGS OUTPUTS)"
    show "bytes_name enc out = strip_punctuation enc @ ascii ''_'' @ out"
      using naming_rule m unfolding list_all_iff by blast
    obtain f where f: "dict_get (TRANSFORMS lib) (bytes_name enc out) = Some f"
      using generated_own_closure [OF m] by blast
    then show "\<exists>f. dict_get (TRANSFORMS lib) (bytes_name enc out) = Some f"
      by blast
    from f show "count_list (dict_keys (TRANSFORMS lib)) (bytes_name enc out) = 1"
      by (rule registered_once)
  qed
qed

theorem generated_family_witness:
  "(ascii ''utf-16le'', ascii ''percent'') \<in> set (List.product BYTE_ENCODINGS OUTPUTS)
   \<and> bytes_name (ascii ''utf-16le'') (ascii ''percent'') = ascii ''utf16le_percent''
   \<and> count_list (dict_keys (TRANSFORMS sample_lib)) (ascii ''utf16le_percent'') = 1"
proof -
  have m: "(ascii ''utf-16le'', ascii ''percent'') \<in> set (List.product BYTE_ENCODINGS OUTPUTS)"
    by (simp add: BYTE_ENCODINGS_def OUTPUTS_def)
  have n: "bytes_name (ascii ''utf-16le'') (ascii ''percent'') = ascii ''utf16le_percent''"
    by (simp add: bytes_name_def replace_char_def ascii_def)
  have "\<forall>(enc, out) \<in> set (List.product BYTE_ENCODINGS OUTPUTS).
          count_list (dict_keys (TRANSFORMS sample_lib)) (bytes_name enc out) = 1"
    using generated_family [of sample_lib] by blast
  with m have "count_list (dict_keys (TRANSFORMS sample_lib))
                 (bytes_name (ascii ''utf-16le'') (ascii ''percent'')) = 1"
    by blast
  with m n show ?thesis by simp
qed

section \<open>The window of the chain loop\<close>

text \<open>
  Claim C6. Let \<open>P\<close> be the registry when the chain loop takes its snapshot of the keys
  (92 entries). The loop pairs position \<open>i\<close> with position \<open>j\<close> exactly when
  \<open>i < 30\<close> and \<open>j\<close> is one of \<open>i + 1\<close>, \<open>i + 2\<close>, \<open>i + 3\<close>. After the loop the
  keys of the registry are those of \<open>P\<close> followed by the chain names of these pairs
  and of no other pair, all keys are different, and no pair joins a name with itself.
\<close>

theorem chain_window:
  assumes "pre_chain lib = Inr P"
  shows "length P = 92
   \<and> dict_keys (TRANSFORMS lib) =
       dict_keys P @
       map (\<lambda>(i, j). chain_name (dict_keys P ! i) (dict_keys P ! j)) (chain_indices (length P))
   \<and> (\<forall>i j. (i, j) \<in> set (chain_indices (length P)) \<longleftrightarrow> i < 30 \<and> i < j \<and> j \<le> i + 3)
   \<and> (\<forall>(i, j) \<in> set (chain_indices (length P)). dict_keys P ! i \<noteq> dict_keys P ! j)
   \<and> distinct (dict_keys (TRANSFORMS lib))"
proof -
  from assms have P: "P = pre_registry lib"
    by (simp add: pre_chain_value)
  have len: "length P = 92"
    by (simp add: P length_pre_registry)
  have win: "(i, j) \<in> set (chain_indices (length P)) \<longleftrightarrow> i < 30 \<and> i < j \<and> j \<le> i + 3" for i j
    by (auto simp: len chain_indices_bounds N_pairs_def)
  have ne: "dict_keys P ! i \<noteq> dict_keys P ! j" if "(i, j) \<in> set (chain_indices (length P))" for i j
  proof -
    from that have "i < j" "j < 92"
      by (auto simp: len chain_indices_bounds)
    then have "i < length (dict_keys P)" "j < length (dict_keys P)" "i \<noteq> j"
      by (simp_all add: dict_keys_def len)
    then show ?thesis
      using distinct_pre_registry [of lib] by (simp add: P nth_eq_iff_index_eq)
  qed
  show ?thesis
    using len win ne distinct_TRANSFORMS [of lib] dict_keys_TRANSFORMS [of lib]
    by (auto simp: P length_pre_registry)
qed

theorem chain_window_witness:
  "pre_chain sample_lib = Inr (pre_registry sample_lib)
   \<and> length (pre_registry sample_lib) = 92
   \<and> (29, 32) \<in> set (chain_indices (length (pre_registry sample_lib)))
   \<and> (29, 33) \<notin> set (chain_indices (length (pre_registry sample_lib)))
   \<and> (30, 31) \<notin> set (chain_indices (length (pre_registry sample_lib)))
   \<and> (5, 5) \<notin> set (chain_indices (length (pre_registry sample_lib)))
   \<and> (5, 4) \<notin> set (chain_indices (length (pre_registry sample_lib)))"
proof -
  let ?n = "length (pre_registry sample_lib)"
  note w = chain_window [OF pre_chain_value [of sample_lib]]
  from w have len: "?n = 92"
    by blast
  from w have win: "(i, j) \<in> set (chain_indices ?n) \<longleftrightarrow> i < 30 \<and> i < j \<and> j \<le> i + 3" for i j
    by blast
  have "(29, 32) \<in> set (chain_indices ?n)" "(29, 33) \<notin> set (chain_indices ?n)"
    "(30, 31) \<notin> set (chain_indices ?n)" "(5, 5) \<notin> set (chain_indices ?n)"
    "(5, 4) \<notin> set (chain_indices ?n)"
    by (simp_all only: win) simp_all
  with len show ?thesis
    by (simp only: pre_chain_value) simp
qed

section \<open>UTF-8 of well-formed text\<close>

lemma utf8_char_some:
  "c < 0x110000 \<Longrightarrow> \<not> is_surrogate c \<Longrightarrow> \<exists>bs. utf8_char c = Some bs"
  by (simp add: utf8_char_def)

lemma utf8_char_bytes: "utf8_char c = Some bs \<Longrightarrow> list_all (\<lambda>b. b < 256) bs"
  by (auto simp: utf8_char_def split: if_splits)

lemma encode_strict_well_formed:
  "well_formed s \<Longrightarrow> encode_strict utf8_char s = Inr (encode_replace utf8_char q s)"
proof (induction s)
  case Nil
  then show ?case by (simp add: encode_replace_def)
next
  case (Cons c s)
  then obtain bs where "utf8_char c = Some bs"
    using utf8_char_some [of c] by (auto simp: well_formed_def)
  with Cons show ?case
    by (simp add: encode_replace_def well_formed_def bind_exn_def)
qed

lemma utf8_encode_well_formed:
  "well_formed s \<Longrightarrow> utf8_encode Strict s = utf8_encode Replace s"
  by (simp add: utf8_encode_def encode_with_def encode_strict_well_formed)

lemma encode_replace_bytes: "list_all (\<lambda>b. b < 256) (encode_replace utf8_char [63] s)"
proof (induction s)
  case Nil
  then show ?case by (simp add: encode_replace_def)
next
  case (Cons c s)
  then show ?case
    using utf8_char_bytes [of c]
    by (cases "utf8_char c") (simp_all add: encode_replace_def)
qed

lemma hexdigit_ascii: "n < 16 \<Longrightarrow> hexdigit n < 128"
  by (simp add: hexdigit_def)

lemma hex_total: "list_all (\<lambda>b. b < 256) bs \<Longrightarrow> hex bs = Inr (hexlify bs)"
proof -
  assume a: "list_all (\<lambda>b. b < 256) bs"
  have "list_all (\<lambda>b. b < 128) (hexlify bs)"
    using a
  proof (induction bs)
    case Nil
    then show ?case by (simp add: hexlify_def)
  next
    case (Cons b bs)
    then have "b < 256" by simp
    then have "b div 16 < 16" "b mod 16 < 16" by arith+
    then have "hexdigit (b div 16) < 128" "hexdigit (b mod 16) < 128"
      by (simp_all add: hexdigit_ascii)
    with Cons show ?case by (simp add: hexlify_def)
  qed
  then show ?thesis by (simp add: hex_def decode_ascii_def)
qed

section \<open>hex_lower and utf8_hex\<close>

lemma lookup_utf8_hex:
  "dict_get (TRANSFORMS lib) (ascii ''utf8_hex'') = Some (f_hex lib (ascii ''utf-8''))"
  by (rule dict_get_registered) (simp add: pre_registry_def generated_def)

lemma f_hex_utf8: "f_hex lib (ascii ''utf-8'') s = Inr (hexlify (encode_replace utf8_char [63] s))"
  by (simp add: f_hex_def str_encode_utf8 utf8_encode_def encode_with_def bind_exn_def
        hex_total encode_replace_bytes)

lemma hex_lower_well_formed:
  "well_formed s \<Longrightarrow> hex_lower s = Inr (hexlify (encode_replace utf8_char [63] s))"
  by (simp add: hex_lower_def utf8_encode_def encode_with_def
        encode_strict_well_formed [of s "[63]"] bind_exn_def hex_total encode_replace_bytes)

text \<open>
  Claim C10, amended. \<open>hex_lower\<close> and the generated \<open>utf8_hex\<close> are both registered,
  and on every string without surrogate code points they return the same text, the
  lowercase hexadecimal digits of the UTF-8 bytes. (On a string with a surrogate
  \<open>hex_lower\<close> raises and \<open>utf8_hex\<close> encodes a question mark in its place.)
\<close>

theorem hex_lower_utf8_hex_agree:
  assumes "well_formed s"
  shows "dict_get (TRANSFORMS lib) (ascii ''hex_lower'') = Some hex_lower
       \<and> dict_get (TRANSFORMS lib) (ascii ''utf8_hex'') = Some (f_hex lib (ascii ''utf-8''))
       \<and> hex_lower s = f_hex lib (ascii ''utf-8'') s
       \<and> (\<exists>bs. utf8_encode Strict s = Inr bs \<and> hex_lower s = Inr (hexlify bs))"
proof -
  have "utf8_encode Strict s = Inr (encode_replace utf8_char [63] s)"
    using assms by (simp add: utf8_encode_def encode_with_def encode_strict_well_formed)
  then show ?thesis
    using assms by (simp add: lookup_hex_lower lookup_utf8_hex f_hex_utf8 hex_lower_well_formed)
qed

theorem hex_lower_utf8_hex_agree_witness:
  "well_formed [0x42F, 97]
   \<and> hex_lower [0x42F, 97] = f_hex sample_lib (ascii ''utf-8'') [0x42F, 97]
   \<and> hex_lower [0x42F, 97] = Inr (ascii ''d0af61'')"
proof -
  have w: "well_formed [0x42F, 97]"
    by (simp add: well_formed_def is_surrogate_def)
  have "hex_lower [0x42F, 97] = Inr (ascii ''d0af61'')"
    by (simp add: hex_lower_def hex_def utf8_encode_def encode_with_def utf8_char_def
          bind_exn_def decode_ascii_def hexlify_def hexdigit_def ascii_def)
  with w hex_lower_utf8_hex_agree [OF w, of sample_lib] show ?thesis
    by simp
qed

text \<open>
  The claim as stated, for every input string, fails on a lone surrogate: \<open>hex_lower\<close>
  raises, \<open>utf8_hex\<close> returns \<open>3f\<close>.
\<close>

theorem hex_lower_utf8_hex_differ:
  "dict_get (TRANSFORMS sample_lib) (ascii ''hex_lower'') = Some hex_lower
   \<and> dict_get (TRANSFORMS sample_lib) (ascii ''utf8_hex'') = Some (f_hex sample_lib (ascii ''utf-8''))
   \<and> hex_lower [0xD800] = Inl UnicodeEncodeError
   \<and> f_hex sample_lib (ascii ''utf-8'') [0xD800] = Inr (ascii ''3f'')
   \<and> hex_lower [0xD800] \<noteq> f_hex sample_lib (ascii ''utf-8'') [0xD800]"
proof -
  have a: "hex_lower [0xD800] = Inl UnicodeEncodeError"
    by (simp add: hex_lower_def utf8_encode_def encode_with_def utf8_char_def
          is_surrogate_def bind_exn_def)
  have b: "f_hex sample_lib (ascii ''utf-8'') [0xD800] = Inr (ascii ''3f'')"
    by (simp only: f_hex_utf8)
       (simp add: encode_replace_def utf8_char_def is_surrogate_def hexlify_def
          hexdigit_def ascii_def)
  show ?thesis
    by (simp add: a b lookup_hex_lower lookup_utf8_hex)
qed

section \<open>Decoding what the UTF-8 encoder wrote\<close>

lemma decode_one:
  "b0 < 0x80 \<Longrightarrow> utf8_decode_replace (b0 # rest) = b0 # utf8_decode_replace rest"
  by simp

lemma decode_two:
  "0xC2 \<le> b0 \<Longrightarrow> b0 \<le> 0xDF \<Longrightarrow> is_cont b1 \<Longrightarrow>
   utf8_decode_replace (b0 # b1 # rest) =
     ((b0 - 0xC0) * 64 + (b1 - 0x80)) # utf8_decode_replace rest"
  by simp

lemma decode_three:
  "0xE0 \<le> b0 \<Longrightarrow> b0 \<le> 0xEF \<Longrightarrow> second_ok b0 b1 \<Longrightarrow> is_cont b2 \<Longrightarrow>
   utf8_decode_replace (b0 # b1 # b2 # rest) =
     ((b0 - 0xE0) * 4096 + (b1 - 0x80) * 64 + (b2 - 0x80)) # utf8_decode_replace rest"
  by simp

lemma decode_four:
  "0xF0 \<le> b0 \<Longrightarrow> b0 \<le> 0xF4 \<Longrightarrow> second_ok b0 b1 \<Longrightarrow> is_cont b2 \<Longrightarrow> is_cont b3 \<Longrightarrow>
   utf8_decode_replace (b0 # b1 # b2 # b3 # rest) =
     ((b0 - 0xF0) * 262144 + (b1 - 0x80) * 4096 + (b2 - 0x80) * 64 + (b3 - 0x80))
       # utf8_decode_replace rest"
  by simp

lemma cont_low: "is_cont (0x80 + n mod 64)"
proof -
  have "n mod 64 < 64" by simp
  then show ?thesis unfolding is_cont_def by arith
qed

lemma cont_rem: "m < 64 \<Longrightarrow> is_cont (0x80 + m)"
  by (simp add: is_cont_def)

lemma decode_char_1:
  assumes "c < 0x80"
  shows "\<exists>bs. utf8_char c = Some bs
            \<and> utf8_decode_replace (bs @ rest) = c # utf8_decode_replace rest"
  using assms by (simp add: utf8_char_def)

lemma decode_char_2:
  assumes "0x80 \<le> c" "c < 0x800"
  shows "\<exists>bs. utf8_char c = Some bs
            \<and> utf8_decode_replace (bs @ rest) = c # utf8_decode_replace rest"
proof -
  define m where "m = c mod 64"
  define q where "q = c div 64"
  have cq: "c = 64 * q + m" and m: "m < 64"
    by (simp_all add: m_def q_def)
  have q: "2 \<le> q" "q \<le> 31"
    using assms cq m by arith+
  have lead: "0xC2 \<le> 0xC0 + q" "0xC0 + q \<le> 0xDF"
    using q by simp_all
  have val: "(0xC0 + q - 0xC0) * 64 + (0x80 + m - 0x80) = c"
    using cq by simp
  have d: "utf8_decode_replace ((0xC0 + q) # (0x80 + m) # rest) = c # utf8_decode_replace rest"
    using decode_two [OF lead cont_rem [OF m], of rest] by (simp only: val)
  have "utf8_char c = Some [0xC0 + c div 64, 0x80 + c mod 64]"
    using assms by (simp add: utf8_char_def)
  then have "utf8_char c = Some [0xC0 + q, 0x80 + m]"
    by (simp only: q_def m_def)
  with d show ?thesis by simp
qed

lemma decode_char_3:
  assumes "0x800 \<le> c" "c < 0x10000" "\<not> is_surrogate c"
  shows "\<exists>bs. utf8_char c = Some bs
            \<and> utf8_decode_replace (bs @ rest) = c # utf8_decode_replace rest"
proof -
  define m where "m = c mod 64"
  define d where "d = c div 64"
  define r where "r = d mod 64"
  define q where "q = d div 64"
  have cd: "c = 64 * d + m" and m: "m < 64"
    by (simp_all add: m_def d_def)
  have dq: "d = 64 * q + r" and r: "r < 64"
    by (simp_all add: r_def q_def)
  have q4096: "c div 4096 = q"
    using div_mult2_eq [of c 64 64] by (simp add: q_def d_def)
  have ns: "c < 0xD800 \<or> 0xDFFF < c"
    using assms(3) by (auto simp: is_surrogate_def)
  have cqr: "c = 4096 * q + 64 * r + m"
    using cd dq by simp
  have q15: "q \<le> 15"
    using assms(2) cqr by arith
  have lead: "0xE0 \<le> 0xE0 + q" "0xE0 + q \<le> 0xEF"
    using q15 by simp_all
  have s0: "q = 0 \<Longrightarrow> 32 \<le> r"
    using assms(1) cqr m by arith
  have s13: "q = 13 \<Longrightarrow> r < 32"
    using ns cqr m r by arith
  have sec: "second_ok (0xE0 + q) (0x80 + r)"
  proof -
    consider "q = 0" | "q = 13" | "q \<noteq> 0 \<and> q \<noteq> 13" by blast
    then show ?thesis
    proof cases
      case 1
      with s0 r show ?thesis by (simp add: second_ok_def)
    next
      case 2
      with s13 show ?thesis by (simp add: second_ok_def)
    next
      case 3
      with q15 r show ?thesis by (simp add: second_ok_def is_cont_def)
    qed
  qed
  have val: "(0xE0 + q - 0xE0) * 4096 + (0x80 + r - 0x80) * 64 + (0x80 + m - 0x80) = c"
    using cqr by simp
  have dec: "utf8_decode_replace ((0xE0 + q) # (0x80 + r) # (0x80 + m) # rest)
               = c # utf8_decode_replace rest"
    using decode_three [OF lead sec cont_rem [OF m], of rest] by (simp only: val)
  have "utf8_char c = Some [0xE0 + c div 4096, 0x80 + (c div 64) mod 64, 0x80 + c mod 64]"
    using assms by (simp add: utf8_char_def)
  then have "utf8_char c = Some [0xE0 + q, 0x80 + r, 0x80 + m]"
    by (simp only: q4096 r_def d_def m_def)
  with dec show ?thesis by simp
qed

lemma decode_char_4:
  assumes "0x10000 \<le> c" "c < 0x110000"
  shows "\<exists>bs. utf8_char c = Some bs
            \<and> utf8_decode_replace (bs @ rest) = c # utf8_decode_replace rest"
proof -
  define m where "m = c mod 64"
  define d where "d = c div 64"
  define r where "r = d mod 64"
  define e where "e = d div 64"
  define t where "t = e mod 64"
  define q where "q = e div 64"
  have cd: "c = 64 * d + m" and m: "m < 64"
    by (simp_all add: m_def d_def)
  have de: "d = 64 * e + r" and r: "r < 64"
    by (simp_all add: r_def e_def)
  have eq: "e = 64 * q + t" and t: "t < 64"
    by (simp_all add: t_def q_def)
  have e4096: "c div 4096 = e"
    using div_mult2_eq [of c 64 64] by (simp add: e_def d_def)
  have q262144: "c div 262144 = q"
    using div_mult2_eq [of c 4096 64] by (simp add: q_def e4096)
  have ns: "\<not> is_surrogate c"
    using assms(1) by (simp add: is_surrogate_def)
  have cqt: "c = 262144 * q + 4096 * t + 64 * r + m"
    using cd de eq by simp
  have q4: "q \<le> 4"
    using assms(2) cqt by arith
  have lead: "0xF0 \<le> 0xF0 + q" "0xF0 + q \<le> 0xF4"
    using q4 by simp_all
  have s0: "q = 0 \<Longrightarrow> 16 \<le> t"
    using assms(1) cqt m r by arith
  have s4: "q = 4 \<Longrightarrow> t < 16"
    using assms(2) cqt by arith
  have sec: "second_ok (0xF0 + q) (0x80 + t)"
  proof -
    consider "q = 0" | "q = 4" | "q \<noteq> 0 \<and> q \<noteq> 4" by blast
    then show ?thesis
    proof cases
      case 1
      with s0 t show ?thesis by (simp add: second_ok_def)
    next
      case 2
      with s4 show ?thesis by (simp add: second_ok_def)
    next
      case 3
      with q4 t show ?thesis by (simp add: second_ok_def is_cont_def)
    qed
  qed
  have val: "(0xF0 + q - 0xF0) * 262144 + (0x80 + t - 0x80) * 4096 + (0x80 + r - 0x80) * 64
               + (0x80 + m - 0x80) = c"
    using cqt by simp
  have dec: "utf8_decode_replace ((0xF0 + q) # (0x80 + t) # (0x80 + r) # (0x80 + m) # rest)
               = c # utf8_decode_replace rest"
    using decode_four [OF lead sec cont_rem [OF r] cont_rem [OF m], of rest] by (simp only: val)
  have "utf8_char c = Some [0xF0 + c div 262144, 0x80 + (c div 4096) mod 64,
                            0x80 + (c div 64) mod 64, 0x80 + c mod 64]"
    using assms ns by (simp add: utf8_char_def)
  then have "utf8_char c = Some [0xF0 + q, 0x80 + t, 0x80 + r, 0x80 + m]"
    by (simp only: q262144 e4096 t_def r_def d_def m_def)
  with dec show ?thesis by simp
qed

lemma decode_char:
  assumes "c < 0x110000" "\<not> is_surrogate c"
  shows "\<exists>bs. utf8_char c = Some bs
            \<and> utf8_decode_replace (bs @ rest) = c # utf8_decode_replace rest"
proof -
  consider "c < 0x80" | "0x80 \<le> c \<and> c < 0x800" | "0x800 \<le> c \<and> c < 0x10000"
    | "0x10000 \<le> c"
    by linarith
  then show ?thesis
  proof cases
    case 1
    then show ?thesis by (rule decode_char_1)
  next
    case 2
    then show ?thesis using decode_char_2 by blast
  next
    case 3
    then show ?thesis using decode_char_3 assms(2) by blast
  next
    case 4
    then show ?thesis using decode_char_4 assms(1) by blast
  qed
qed

lemma decode_encode:
  "well_formed s \<Longrightarrow> utf8_decode_replace (encode_replace utf8_char q s) = s"
proof (induction s)
  case Nil
  then show ?case by (simp add: encode_replace_def)
next
  case (Cons c s)
  then have c: "c < 0x110000" "\<not> is_surrogate c" and s: "well_formed s"
    by (simp_all add: well_formed_def)
  obtain bs where bs: "utf8_char c = Some bs"
    and d: "utf8_decode_replace (bs @ encode_replace utf8_char q s)
              = c # utf8_decode_replace (encode_replace utf8_char q s)"
    using decode_char [OF c] by blast
  have "encode_replace utf8_char q (c # s) = bs @ encode_replace utf8_char q s"
    by (simp add: encode_replace_def bs)
  with d Cons.IH [OF s] show ?case by simp
qed

lemma decode_ascii_bytes: "list_all (\<lambda>b. b < 128) bs \<Longrightarrow> utf8_decode_replace bs = bs"
  by (induction bs) simp_all

section \<open>Unquoting what quote wrote\<close>

lemma unquote_plain: "p \<noteq> 37 \<Longrightarrow> unquote_to_bytes (p # xs) = p # unquote_to_bytes xs"
proof (cases xs)
  case Nil
  then show ?thesis by simp
next
  case (Cons h ys)
  assume "p \<noteq> 37"
  then show ?thesis
    using Cons by (cases ys) simp_all
qed

lemma hexdigit_upper_inverse:
  "n < 16 \<Longrightarrow> is_hexdig (hexdigit_upper n) \<and> hexval (hexdigit_upper n) = n"
  by (auto simp: is_hexdig_def hexval_def hexdigit_upper_def)

lemma unquote_escape:
  assumes "b < 256"
  shows "unquote_to_bytes (37 # hexdigit_upper (b div 16) # hexdigit_upper (b mod 16) # rest)
           = b # unquote_to_bytes rest"
proof -
  define h where "h = b div 16"
  define l where "l = b mod 16"
  have b: "b = 16 * h + l" and l: "l < 16"
    by (simp_all add: h_def l_def)
  have h: "h < 16"
    using assms b by arith
  have "hexval (hexdigit_upper h) * 16 + hexval (hexdigit_upper l) = b"
    using hexdigit_upper_inverse [OF h] hexdigit_upper_inverse [OF l] b by simp
  then have "unquote_to_bytes (37 # hexdigit_upper h # hexdigit_upper l # rest)
               = b # unquote_to_bytes rest"
    using hexdigit_upper_inverse [OF h] hexdigit_upper_inverse [OF l] by simp
  then show ?thesis
    by (simp only: h_def l_def)
qed

lemma safe_not_percent: "always_safe b \<Longrightarrow> b \<noteq> 37 \<and> b < 128"
  by (auto simp: always_safe_def)

lemma quote_from_bytes_Cons:
  "quote_from_bytes [] (b # bs) =
     (if always_safe b then [b]
      else [37, hexdigit_upper (b div 16), hexdigit_upper (b mod 16)]) @ quote_from_bytes [] bs"
  by (simp add: quote_from_bytes_def)

lemma unquote_quote_bytes:
  "list_all (\<lambda>b. b < 256) bs \<Longrightarrow> unquote_to_bytes (quote_from_bytes [] bs) = bs"
proof (induction bs)
  case Nil
  then show ?case by (simp add: quote_from_bytes_def)
next
  case (Cons b bs)
  then have b: "b < 256" and IH: "unquote_to_bytes (quote_from_bytes [] bs) = bs"
    by simp_all
  show ?case
  proof (cases "always_safe b")
    case True
    then show ?thesis
      using safe_not_percent [OF True] IH by (simp add: quote_from_bytes_Cons unquote_plain)
  next
    case False
    then show ?thesis
      using unquote_escape [OF b] IH by (simp add: quote_from_bytes_Cons)
  qed
qed

lemma hexdigit_upper_ascii: "n < 16 \<Longrightarrow> hexdigit_upper n < 128"
  by (simp add: hexdigit_upper_def)

lemma quote_ascii:
  "list_all (\<lambda>b. b < 256) bs \<Longrightarrow> list_all (\<lambda>c. c < 128) (quote_from_bytes [] bs)"
proof (induction bs)
  case Nil
  then show ?case by (simp add: quote_from_bytes_def)
next
  case (Cons b bs)
  then have b: "b < 256" and IH: "list_all (\<lambda>c. c < 128) (quote_from_bytes [] bs)"
    by simp_all
  have "b div 16 < 16" "b mod 16 < 16"
    using b by arith+
  then have "hexdigit_upper (b div 16) < 128" "hexdigit_upper (b mod 16) < 128"
    by (simp_all add: hexdigit_upper_ascii)
  then show ?case
    using IH safe_not_percent [of b] by (simp add: quote_from_bytes_Cons)
qed

lemma quote_no_percent:
  "37 \<notin> set (quote_from_bytes [] bs) \<Longrightarrow>
   quote_from_bytes [] bs = bs \<and> list_all (\<lambda>b. b < 128) bs"
proof (induction bs)
  case Nil
  then show ?case by (simp add: quote_from_bytes_def)
next
  case (Cons b bs)
  then show ?case
    using safe_not_percent [of b]
    by (cases "always_safe b") (simp_all add: quote_from_bytes_Cons)
qed

lemma unquote_parts_ascii:
  "list_all (\<lambda>c. c < 128) cs \<Longrightarrow>
   unquote_parts acc cs = utf8_decode_replace (unquote_to_bytes (acc @ cs))"
  by (induction cs arbitrary: acc) simp_all

lemma unquote_quote:
  assumes "well_formed x"
  shows "unquote (quote_from_bytes [] (encode_replace utf8_char [63] x)) = x"
proof -
  let ?bs = "encode_replace utf8_char [63] x"
  let ?q = "quote_from_bytes [] ?bs"
  have bytes: "list_all (\<lambda>b. b < 256) ?bs"
    by (rule encode_replace_bytes)
  have dec: "utf8_decode_replace ?bs = x"
    using assms by (rule decode_encode)
  show ?thesis
  proof (cases "37 \<in> set ?q")
    case True
    have "unquote_parts [] ?q = utf8_decode_replace (unquote_to_bytes ([] @ ?q))"
      using quote_ascii [OF bytes] by (rule unquote_parts_ascii)
    then have "unquote_parts [] ?q = x"
      using unquote_quote_bytes [OF bytes] dec by simp
    with True show ?thesis
      by (simp add: unquote_def)
  next
    case False
    then have "?q = ?bs" and "list_all (\<lambda>b. b < 128) ?bs"
      using quote_no_percent [of ?bs] by simp_all
    then have "?q = x"
      using decode_ascii_bytes [of ?bs] dec by simp
    with False show ?thesis
      by (simp add: unquote_def)
  qed
qed

lemma url_decode_value: "url_decode s = Inr (unquote s)"
  by (simp add: url_decode_def)

lemma url_all_well_formed:
  assumes "well_formed x"
  shows "url_encode_all x =
           Inr (if x = [] then [] else quote_from_bytes [] (encode_replace utf8_char [63] x))"
  using assms
  by (simp add: url_encode_all_def quote_def utf8_encode_def encode_with_def
        encode_strict_well_formed [of x "[63]"] bind_exn_def)

lemma lookup_url_decode: "dict_get (TRANSFORMS lib) (ascii ''url_decode'') = Some url_decode"
  by (rule dict_get_pre) (simp add: pre_registry_def base_TRANSFORMS_def ascii_inj)

section \<open>The URL round trip\<close>

text \<open>
  Claim C7, amended. \<open>url_all\<close> and \<open>url_decode\<close> are registered, and for every
  string \<open>x\<close> without surrogate code points \<open>url_all\<close> returns a text that
  \<open>url_decode\<close> maps back to \<open>x\<close>.
\<close>

theorem url_round_trip:
  assumes "well_formed x"
  shows "dict_get (TRANSFORMS lib) (ascii ''url_all'') = Some url_encode_all
       \<and> dict_get (TRANSFORMS lib) (ascii ''url_decode'') = Some url_decode
       \<and> (\<exists>y. url_encode_all x = Inr y \<and> url_decode y = Inr x)"
proof -
  have "unquote (if x = [] then [] else quote_from_bytes [] (encode_replace utf8_char [63] x)) = x"
  proof (cases "x = []")
    case True
    then show ?thesis by (simp add: unquote_def)
  next
    case False
    then show ?thesis using unquote_quote [OF assms] by simp
  qed
  then show ?thesis
    using url_all_well_formed [OF assms]
    by (simp add: lookup_url_all lookup_url_decode url_decode_value)
qed

theorem url_round_trip_witness:
  "well_formed (ascii ''a b%'' @ [0x42F, 0x1F600])
   \<and> url_encode_all (ascii ''a b%'' @ [0x42F, 0x1F600])
       = Inr (ascii ''a%20b%25%D0%AF%F0%9F%98%80'')
   \<and> url_decode (ascii ''a%20b%25%D0%AF%F0%9F%98%80'')
       = Inr (ascii ''a b%'' @ [0x42F, 0x1F600])"
proof -
  let ?x = "ascii ''a b%'' @ [0x42F, 0x1F600]"
  have w: "well_formed ?x"
    by (simp add: well_formed_def is_surrogate_def ascii_def)
  have e: "url_encode_all ?x = Inr (ascii ''a%20b%25%D0%AF%F0%9F%98%80'')"
    by (simp add: url_encode_all_def quote_def quote_from_bytes_def always_safe_def
          hexdigit_upper_def utf8_encode_def encode_with_def utf8_char_def is_surrogate_def
          bind_exn_def ascii_def)
  obtain y where "url_encode_all ?x = Inr y" and "url_decode y = Inr ?x"
    using url_round_trip [OF w, of sample_lib] by blast
  with e have "url_decode (ascii ''a%20b%25%D0%AF%F0%9F%98%80'') = Inr ?x"
    by simp
  with w e show ?thesis by simp
qed

text \<open>
  The claim as stated, for every input string, fails on strings with a lone surrogate:
  \<open>url_all\<close> raises on them, so there is no output to decode. Through the facade,
  which then hands the payload back unchanged, \<open>url_decode\<close> of that result is
  still not the input when the input holds an escape.
\<close>

theorem url_round_trip_fails:
  "url_encode_all [0xD800] = Inl UnicodeEncodeError
   \<and> bind_exn (url_encode_all [0xD800]) url_decode \<noteq> Inr [0xD800]
   \<and> transform_payloads (TRANSFORMS sample_lib) [[(ascii ''payload'', [37, 52, 49, 0xD800])]]
        (ascii ''url_all'') = Inr [[37, 52, 49, 0xD800]]
   \<and> transform_payloads (TRANSFORMS sample_lib) [[(ascii ''payload'', [37, 52, 49, 0xD800])]]
        (ascii ''url_decode'') = Inr [[65, 0xD800]]"
proof -
  have a: "url_encode_all [0xD800] = Inl UnicodeEncodeError"
    by (simp add: url_encode_all_def quote_def utf8_encode_def encode_with_def utf8_char_def
          is_surrogate_def bind_exn_def)
  have b: "url_encode_all [37, 52, 49, 0xD800] = Inl UnicodeEncodeError"
    by (simp add: url_encode_all_def quote_def utf8_encode_def encode_with_def utf8_char_def
          is_surrogate_def bind_exn_def)
  have c: "url_decode [37, 52, 49, 0xD800] = Inr [65, 0xD800]"
    by (simp add: url_decode_value unquote_def is_hexdig_def hexval_def)
  have "transform_payloads (TRANSFORMS sample_lib) [[(ascii ''payload'', [37, 52, 49, 0xD800])]]
          (ascii ''url_all'') = Inr [[37, 52, 49, 0xD800]]"
    by (simp add: transform_payloads_def lookup_url_all entry_payload_single b)
  moreover have
    "transform_payloads (TRANSFORMS sample_lib) [[(ascii ''payload'', [37, 52, 49, 0xD800])]]
       (ascii ''url_decode'') = Inr [[65, 0xD800]]"
    by (rule facade_single [OF lookup_url_decode c])
  ultimately show ?thesis
    by (simp add: a bind_exn_def)
qed

section \<open>Each generated transform uses its own parameters\<close>

lemma latin1_char_bytes: "latin1_char c = Some bs \<Longrightarrow> list_all (\<lambda>b. b < 256) bs"
  by (auto simp: latin1_char_def split: if_splits)

lemma cp1251_table_bytes: "\<forall>(c, b) \<in> set cp1251_table. b < 256"
  by (simp add: cp1251_table_def)

lemma cp1251_char_bytes: "cp1251_char c = Some bs \<Longrightarrow> list_all (\<lambda>b. b < 256) bs"
proof -
  assume a: "cp1251_char c = Some bs"
  show ?thesis
  proof (cases "c < 0x80 \<or> (0x410 \<le> c \<and> c \<le> 0x44F)")
    case True
    with a show ?thesis
      by (auto simp: cp1251_char_def split: if_splits)
  next
    case False
    with a obtain b where b: "map_of cp1251_table c = Some b" and bs: "bs = [b]"
      by (auto simp: cp1251_char_def split: if_splits)
    from b have "(c, b) \<in> set cp1251_table"
      by (rule map_of_SomeD)
    with cp1251_table_bytes have "b < 256"
      by blast
    with bs show ?thesis by simp
  qed
qed

lemma cp1252_table_bytes: "\<forall>(c, b) \<in> set cp1252_table. b < 256"
  by (simp add: cp1252_table_def)

lemma cp1252_char_bytes: "cp1252_char c = Some bs \<Longrightarrow> list_all (\<lambda>b. b < 256) bs"
proof -
  assume a: "cp1252_char c = Some bs"
  show ?thesis
  proof (cases "c < 0x80 \<or> (0xA0 \<le> c \<and> c \<le> 0xFF)")
    case True
    with a show ?thesis
      by (auto simp: cp1252_char_def split: if_splits)
  next
    case False
    with a obtain b where b: "map_of cp1252_table c = Some b" and bs: "bs = [b]"
      by (auto simp: cp1252_char_def split: if_splits)
    from b have "(c, b) \<in> set cp1252_table"
      by (rule map_of_SomeD)
    with cp1252_table_bytes have "b < 256"
      by blast
    with bs show ?thesis by simp
  qed
qed

lemma utf16_units_bound: "utf16_units c = Some us \<Longrightarrow> \<forall>u \<in> set us. u < 65536"
  by (auto simp: utf16_units_def split: if_splits)

lemma unit_bytes: "u < 65536 \<Longrightarrow> u mod 256 < 256 \<and> u div 256 < (256::nat)"
  by arith

lemma utf16le_char_bytes: "utf16le_char c = Some bs \<Longrightarrow> list_all (\<lambda>b. b < 256) bs"
proof -
  assume "utf16le_char c = Some bs"
  then obtain us where us: "utf16_units c = Some us"
    and bs: "bs = concat (map (\<lambda>u. [u mod 256, u div 256]) us)"
    by (auto simp: utf16le_char_def)
  from utf16_units_bound [OF us] unit_bytes show ?thesis
    unfolding bs by (induction us) simp_all
qed

lemma utf16be_char_bytes: "utf16be_char c = Some bs \<Longrightarrow> list_all (\<lambda>b. b < 256) bs"
proof -
  assume "utf16be_char c = Some bs"
  then obtain us where us: "utf16_units c = Some us"
    and bs: "bs = concat (map (\<lambda>u. [u div 256, u mod 256]) us)"
    by (auto simp: utf16be_char_def)
  from utf16_units_bound [OF us] unit_bytes show ?thesis
    unfolding bs by (induction us) simp_all
qed

lemma encode_replace_all_bytes:
  assumes "\<And>c bs. ch c = Some bs \<Longrightarrow> list_all (\<lambda>b. b < 256) bs"
    and "list_all (\<lambda>b. b < 256) q"
  shows "list_all (\<lambda>b. b < 256) (encode_replace ch q s)"
proof (induction s)
  case Nil
  then show ?case by (simp add: encode_replace_def)
next
  case (Cons c s)
  then show ?case
    using assms(1) [of c] assms(2)
    by (cases "ch c") (simp_all add: encode_replace_def)
qed

lemma f_hex_bytes:
  "str_encode lib enc Replace s = Inr b \<Longrightarrow> list_all (\<lambda>x. x < 256) b \<Longrightarrow>
   f_hex lib enc s = Inr (hexlify b)"
  by (simp add: f_hex_def bind_exn_def hex_total)

lemma f_b64_bytes: "str_encode lib enc Replace s = Inr b \<Longrightarrow> f_b64 lib enc s = Inr (b64encode b)"
  by (simp add: f_b64_def bind_exn_def b64_total)

lemma f_pct_bytes:
  "str_encode lib enc Replace s = Inr b \<Longrightarrow>
   f_pct lib enc s = Inr (concat (map (\<lambda>byte. 37 # fmt_hex True 2 byte) b))"
  by (simp add: f_pct_def bind_exn_def)

lemma f_raise:
  "str_encode lib enc Replace s = Inl e \<Longrightarrow>
   f_hex lib enc s = Inr s \<and> f_b64 lib enc s = Inr s \<and> f_pct lib enc s = Inr s"
  by (simp add: f_hex_def f_b64_def f_pct_def bind_exn_def)

lemma registered_closures:
  assumes "enc \<in> set BYTE_ENCODINGS"
  shows "dict_get (TRANSFORMS lib) (bytes_name enc (ascii ''hex'')) = Some (f_hex lib enc)"
    and "dict_get (TRANSFORMS lib) (bytes_name enc (ascii ''base64'')) = Some (f_b64 lib enc)"
    and "dict_get (TRANSFORMS lib) (bytes_name enc (ascii ''percent'')) = Some (f_pct lib enc)"
proof -
  have "(enc, ascii ''hex'') \<in> set (List.product BYTE_ENCODINGS OUTPUTS)"
    using assms by (simp add: OUTPUTS_def)
  from generated_own_closure [OF this, of lib]
  show "dict_get (TRANSFORMS lib) (bytes_name enc (ascii ''hex'')) = Some (f_hex lib enc)"
    by (auto simp: make_bytes_transform_def)
  have "(enc, ascii ''base64'') \<in> set (List.product BYTE_ENCODINGS OUTPUTS)"
    using assms by (simp add: OUTPUTS_def)
  from generated_own_closure [OF this, of lib]
  show "dict_get (TRANSFORMS lib) (bytes_name enc (ascii ''base64'')) = Some (f_b64 lib enc)"
    by (auto simp: make_bytes_transform_def ascii_inj)
  have "(enc, ascii ''percent'') \<in> set (List.product BYTE_ENCODINGS OUTPUTS)"
    using assms by (simp add: OUTPUTS_def)
  from generated_own_closure [OF this, of lib]
  show "dict_get (TRANSFORMS lib) (bytes_name enc (ascii ''percent'')) = Some (f_pct lib enc)"
    by (auto simp: make_bytes_transform_def ascii_inj)
qed

lemma codec_closures:
  assumes "enc \<in> set BYTE_ENCODINGS"
    and "\<And>s. str_encode lib enc Replace s = Inr (encode_replace ch q s)"
    and "\<And>s. list_all (\<lambda>b. b < 256) (encode_replace ch q s)"
  shows "\<exists>fh fb fp.
           dict_get (TRANSFORMS lib) (bytes_name enc (ascii ''hex'')) = Some fh
         \<and> dict_get (TRANSFORMS lib) (bytes_name enc (ascii ''base64'')) = Some fb
         \<and> dict_get (TRANSFORMS lib) (bytes_name enc (ascii ''percent'')) = Some fp
         \<and> (\<forall>s. fh s = Inr (hexlify (encode_replace ch q s))
                \<and> fb s = Inr (b64encode (encode_replace ch q s))
                \<and> fp s = Inr (concat (map (\<lambda>byte. 37 # fmt_hex True 2 byte)
                                         (encode_replace ch q s))))"
proof (intro exI conjI allI)
  show "dict_get (TRANSFORMS lib) (bytes_name enc (ascii ''hex'')) = Some (f_hex lib enc)"
    by (rule registered_closures [OF assms(1)])
  show "dict_get (TRANSFORMS lib) (bytes_name enc (ascii ''base64'')) = Some (f_b64 lib enc)"
    by (rule registered_closures [OF assms(1)])
  show "dict_get (TRANSFORMS lib) (bytes_name enc (ascii ''percent'')) = Some (f_pct lib enc)"
    by (rule registered_closures [OF assms(1)])
  show "f_hex lib enc s = Inr (hexlify (encode_replace ch q s))" for s
    by (rule f_hex_bytes [OF assms(2) assms(3)])
  show "f_b64 lib enc s = Inr (b64encode (encode_replace ch q s))" for s
    by (rule f_b64_bytes [OF assms(2)])
  show "f_pct lib enc s = Inr (concat (map (\<lambda>byte. 37 # fmt_hex True 2 byte)
                                        (encode_replace ch q s)))" for s
    by (rule f_pct_bytes [OF assms(2)])
qed

lemma replace_utf8:
  "str_encode lib (ascii ''utf-8'') Replace s = Inr (encode_replace utf8_char [63] s)"
  by (simp add: str_encode_utf8 utf8_encode_def encode_with_def)

lemma replace_latin1:
  "str_encode lib (ascii ''latin1'') Replace s = Inr (encode_replace latin1_char [63] s)"
  by (simp add: str_encode_latin1 encode_with_def)

lemma bytes_latin1: "list_all (\<lambda>b. b < 256) (encode_replace latin1_char [63] s)"
  by (rule encode_replace_all_bytes) (simp_all add: latin1_char_bytes)

lemma replace_cp1251:
  "str_encode lib (ascii ''cp1251'') Replace s = Inr (encode_replace cp1251_char [63] s)"
  by (simp add: str_encode_cp1251 encode_with_def)

lemma bytes_cp1251: "list_all (\<lambda>b. b < 256) (encode_replace cp1251_char [63] s)"
  by (rule encode_replace_all_bytes) (simp_all add: cp1251_char_bytes)

lemma replace_cp1252:
  "str_encode lib (ascii ''cp1252'') Replace s = Inr (encode_replace cp1252_char [63] s)"
  by (simp add: str_encode_cp1252 encode_with_def)

lemma bytes_cp1252: "list_all (\<lambda>b. b < 256) (encode_replace cp1252_char [63] s)"
  by (rule encode_replace_all_bytes) (simp_all add: cp1252_char_bytes)

lemma replace_utf16le:
  "str_encode lib (ascii ''utf-16le'') Replace s = Inr (encode_replace utf16le_char [63, 0] s)"
  by (simp add: str_encode_utf16le encode_with_def)

lemma bytes_utf16le: "list_all (\<lambda>b. b < 256) (encode_replace utf16le_char [63, 0] s)"
  by (rule encode_replace_all_bytes) (simp_all add: utf16le_char_bytes)

lemma replace_utf16be:
  "str_encode lib (ascii ''utf-16be'') Replace s = Inr (encode_replace utf16be_char [0, 63] s)"
  by (simp add: str_encode_utf16be encode_with_def)

lemma bytes_utf16be: "list_all (\<lambda>b. b < 256) (encode_replace utf16be_char [0, 63] s)"
  by (rule encode_replace_all_bytes) (simp_all add: utf16be_char_bytes)

lemma generated_names:
  "bytes_name (ascii ''utf-8'') (ascii ''hex'') = ascii ''utf8_hex''"
  "bytes_name (ascii ''utf-7'') (ascii ''hex'') = ascii ''utf7_hex''"
  "bytes_name (ascii ''utf-7'') (ascii ''base64'') = ascii ''utf7_base64''"
  "bytes_name (ascii ''utf-7'') (ascii ''percent'') = ascii ''utf7_percent''"
  by (simp_all add: bytes_name_def replace_char_def ascii_def)

lemma lookup_generated:
  "(k, f) \<in> set (generated lib) \<Longrightarrow> dict_get (TRANSFORMS lib) k = Some f"
  by (rule dict_get_registered) (simp add: pre_registry_def)

lemma sample_utf8: "encode_replace utf8_char [63] [0x42F, 0x20AC] = [0xD0, 0xAF, 0xE2, 0x82, 0xAC]"
  by (simp add: encode_replace_def utf8_char_def is_surrogate_def)

lemma sample_latin1: "encode_replace latin1_char [63] [0x42F, 0x20AC] = [0x3F, 0x3F]"
  by (simp add: encode_replace_def latin1_char_def)

lemma sample_cp1251: "encode_replace cp1251_char [63] [0x42F, 0x20AC] = [0xDF, 0x88]"
  by (simp add: encode_replace_def cp1251_char_def cp1251_table_def)

lemma sample_cp1252: "encode_replace cp1252_char [63] [0x42F, 0x20AC] = [0x3F, 0x80]"
  by (simp add: encode_replace_def cp1252_char_def cp1252_table_def)

lemma sample_utf16le: "encode_replace utf16le_char [63, 0] [0x42F, 0x20AC] = [0x2F, 0x04, 0xAC, 0x20]"
  by (simp add: encode_replace_def utf16le_char_def utf16_units_def is_surrogate_def)

lemma sample_utf16be: "encode_replace utf16be_char [0, 63] [0x42F, 0x20AC] = [0x04, 0x2F, 0x20, 0xAC]"
  by (simp add: encode_replace_def utf16be_char_def utf16_units_def is_surrogate_def)

lemma value_utf8_hex: "f_hex lib (ascii ''utf-8'') [0x42F, 0x20AC] = Inr (ascii ''d0afe282ac'')"
  unfolding f_hex_bytes [OF replace_utf8 encode_replace_bytes] sample_utf8 by (simp add: hexlify_def hexdigit_def ascii_def)

lemma registered_utf8_hex:
  "\<exists>f. dict_get (TRANSFORMS lib) (ascii ''utf8_hex'') = Some f
      \<and> f [0x42F, 0x20AC] = Inr (ascii ''d0afe282ac'')"
proof (intro exI conjI)
  show "dict_get (TRANSFORMS lib) (ascii ''utf8_hex'') = Some (f_hex lib (ascii ''utf-8''))"
    by (rule lookup_generated) (simp add: generated_def)
  show "f_hex lib (ascii ''utf-8'') [0x42F, 0x20AC] = Inr (ascii ''d0afe282ac'')"
    by (rule value_utf8_hex)
qed

lemma value_utf8_base64: "f_b64 lib (ascii ''utf-8'') [0x42F, 0x20AC] = Inr (ascii ''0K/igqw='')"
  unfolding f_b64_bytes [OF replace_utf8] sample_utf8 by (simp add: b64chr_def ascii_def)

lemma registered_utf8_base64:
  "\<exists>f. dict_get (TRANSFORMS lib) (ascii ''utf8_base64'') = Some f
      \<and> f [0x42F, 0x20AC] = Inr (ascii ''0K/igqw='')"
proof (intro exI conjI)
  show "dict_get (TRANSFORMS lib) (ascii ''utf8_base64'') = Some (f_b64 lib (ascii ''utf-8''))"
    by (rule lookup_generated) (simp add: generated_def)
  show "f_b64 lib (ascii ''utf-8'') [0x42F, 0x20AC] = Inr (ascii ''0K/igqw='')"
    by (rule value_utf8_base64)
qed

lemma value_utf8_percent: "f_pct lib (ascii ''utf-8'') [0x42F, 0x20AC] = Inr (ascii ''%D0%AF%E2%82%AC'')"
  unfolding f_pct_bytes [OF replace_utf8] sample_utf8 by (simp add: fmt_hex_def hex_nat.simps hexdigit_upper_def ascii_def)

lemma registered_utf8_percent:
  "\<exists>f. dict_get (TRANSFORMS lib) (ascii ''utf8_percent'') = Some f
      \<and> f [0x42F, 0x20AC] = Inr (ascii ''%D0%AF%E2%82%AC'')"
proof (intro exI conjI)
  show "dict_get (TRANSFORMS lib) (ascii ''utf8_percent'') = Some (f_pct lib (ascii ''utf-8''))"
    by (rule lookup_generated) (simp add: generated_def)
  show "f_pct lib (ascii ''utf-8'') [0x42F, 0x20AC] = Inr (ascii ''%D0%AF%E2%82%AC'')"
    by (rule value_utf8_percent)
qed

lemma value_latin1_hex: "f_hex lib (ascii ''latin1'') [0x42F, 0x20AC] = Inr (ascii ''3f3f'')"
  unfolding f_hex_bytes [OF replace_latin1 bytes_latin1] sample_latin1 by (simp add: hexlify_def hexdigit_def ascii_def)

lemma registered_latin1_hex:
  "\<exists>f. dict_get (TRANSFORMS lib) (ascii ''latin1_hex'') = Some f
      \<and> f [0x42F, 0x20AC] = Inr (ascii ''3f3f'')"
proof (intro exI conjI)
  show "dict_get (TRANSFORMS lib) (ascii ''latin1_hex'') = Some (f_hex lib (ascii ''latin1''))"
    by (rule lookup_generated) (simp add: generated_def)
  show "f_hex lib (ascii ''latin1'') [0x42F, 0x20AC] = Inr (ascii ''3f3f'')"
    by (rule value_latin1_hex)
qed

lemma value_latin1_base64: "f_b64 lib (ascii ''latin1'') [0x42F, 0x20AC] = Inr (ascii ''Pz8='')"
  unfolding f_b64_bytes [OF replace_latin1] sample_latin1 by (simp add: b64chr_def ascii_def)

lemma registered_latin1_base64:
  "\<exists>f. dict_get (TRANSFORMS lib) (ascii ''latin1_base64'') = Some f
      \<and> f [0x42F, 0x20AC] = Inr (ascii ''Pz8='')"
proof (intro exI conjI)
  show "dict_get (TRANSFORMS lib) (ascii ''latin1_base64'') = Some (f_b64 lib (ascii ''latin1''))"
    by (rule lookup_generated) (simp add: generated_def)
  show "f_b64 lib (ascii ''latin1'') [0x42F, 0x20AC] = Inr (ascii ''Pz8='')"
    by (rule value_latin1_base64)
qed

lemma value_latin1_percent: "f_pct lib (ascii ''latin1'') [0x42F, 0x20AC] = Inr (ascii ''%3F%3F'')"
  unfolding f_pct_bytes [OF replace_latin1] sample_latin1 by (simp add: fmt_hex_def hex_nat.simps hexdigit_upper_def ascii_def)

lemma registered_latin1_percent:
  "\<exists>f. dict_get (TRANSFORMS lib) (ascii ''latin1_percent'') = Some f
      \<and> f [0x42F, 0x20AC] = Inr (ascii ''%3F%3F'')"
proof (intro exI conjI)
  show "dict_get (TRANSFORMS lib) (ascii ''latin1_percent'') = Some (f_pct lib (ascii ''latin1''))"
    by (rule lookup_generated) (simp add: generated_def)
  show "f_pct lib (ascii ''latin1'') [0x42F, 0x20AC] = Inr (ascii ''%3F%3F'')"
    by (rule value_latin1_percent)
qed

lemma value_cp1251_hex: "f_hex lib (ascii ''cp1251'') [0x42F, 0x20AC] = Inr (ascii ''df88'')"
  unfolding f_hex_bytes [OF replace_cp1251 bytes_cp1251] sample_cp1251 by (simp add: hexlify_def hexdigit_def ascii_def)

lemma registered_cp1251_hex:
  "\<exists>f. dict_get (TRANSFORMS lib) (ascii ''cp1251_hex'') = Some f
      \<and> f [0x42F, 0x20AC] = Inr (ascii ''df88'')"
proof (intro exI conjI)
  show "dict_get (TRANSFORMS lib) (ascii ''cp1251_hex'') = Some (f_hex lib (ascii ''cp1251''))"
    by (rule lookup_generated) (simp add: generated_def)
  show "f_hex lib (ascii ''cp1251'') [0x42F, 0x20AC] = Inr (ascii ''df88'')"
    by (rule value_cp1251_hex)
qed

lemma value_cp1251_base64: "f_b64 lib (ascii ''cp1251'') [0x42F, 0x20AC] = Inr (ascii ''34g='')"
  unfolding f_b64_bytes [OF replace_cp1251] sample_cp1251 by (simp add: b64chr_def ascii_def)

lemma registered_cp1251_base64:
  "\<exists>f. dict_get (TRANSFORMS lib) (ascii ''cp1251_base64'') = Some f
      \<and> f [0x42F, 0x20AC] = Inr (ascii ''34g='')"
proof (intro exI conjI)
  show "dict_get (TRANSFORMS lib) (ascii ''cp1251_base64'') = Some (f_b64 lib (ascii ''cp1251''))"
    by (rule lookup_generated) (simp add: generated_def)
  show "f_b64 lib (ascii ''cp1251'') [0x42F, 0x20AC] = Inr (ascii ''34g='')"
    by (rule value_cp1251_base64)
qed

lemma value_cp1251_percent: "f_pct lib (ascii ''cp1251'') [0x42F, 0x20AC] = Inr (ascii ''%DF%88'')"
  unfolding f_pct_bytes [OF replace_cp1251] sample_cp1251 by (simp add: fmt_hex_def hex_nat.simps hexdigit_upper_def ascii_def)

lemma registered_cp1251_percent:
  "\<exists>f. dict_get (TRANSFORMS lib) (ascii ''cp1251_percent'') = Some f
      \<and> f [0x42F, 0x20AC] = Inr (ascii ''%DF%88'')"
proof (intro exI conjI)
  show "dict_get (TRANSFORMS lib) (ascii ''cp1251_percent'') = Some (f_pct lib (ascii ''cp1251''))"
    by (rule lookup_generated) (simp add: generated_def)
  show "f_pct lib (ascii ''cp1251'') [0x42F, 0x20AC] = Inr (ascii ''%DF%88'')"
    by (rule value_cp1251_percent)
qed

lemma value_cp1252_hex: "f_hex lib (ascii ''cp1252'') [0x42F, 0x20AC] = Inr (ascii ''3f80'')"
  unfolding f_hex_bytes [OF replace_cp1252 bytes_cp1252] sample_cp1252 by (simp add: hexlify_def hexdigit_def ascii_def)

lemma registered_cp1252_hex:
  "\<exists>f. dict_get (TRANSFORMS lib) (ascii ''cp1252_hex'') = Some f
      \<and> f [0x42F, 0x20AC] = Inr (ascii ''3f80'')"
proof (intro exI conjI)
  show "dict_get (TRANSFORMS lib) (ascii ''cp1252_hex'') = Some (f_hex lib (ascii ''cp1252''))"
    by (rule lookup_generated) (simp add: generated_def)
  show "f_hex lib (ascii ''cp1252'') [0x42F, 0x20AC] = Inr (ascii ''3f80'')"
    by (rule value_cp1252_hex)
qed

lemma value_cp1252_base64: "f_b64 lib (ascii ''cp1252'') [0x42F, 0x20AC] = Inr (ascii ''P4A='')"
  unfolding f_b64_bytes [OF replace_cp1252] sample_cp1252 by (simp add: b64chr_def ascii_def)

lemma registered_cp1252_base64:
  "\<exists>f. dict_get (TRANSFORMS lib) (ascii ''cp1252_base64'') = Some f
      \<and> f [0x42F, 0x20AC] = Inr (ascii ''P4A='')"
proof (intro exI conjI)
  show "dict_get (TRANSFORMS lib) (ascii ''cp1252_base64'') = Some (f_b64 lib (ascii ''cp1252''))"
    by (rule lookup_generated) (simp add: generated_def)
  show "f_b64 lib (ascii ''cp1252'') [0x42F, 0x20AC] = Inr (ascii ''P4A='')"
    by (rule value_cp1252_base64)
qed

lemma value_cp1252_percent: "f_pct lib (ascii ''cp1252'') [0x42F, 0x20AC] = Inr (ascii ''%3F%80'')"
  unfolding f_pct_bytes [OF replace_cp1252] sample_cp1252 by (simp add: fmt_hex_def hex_nat.simps hexdigit_upper_def ascii_def)

lemma registered_cp1252_percent:
  "\<exists>f. dict_get (TRANSFORMS lib) (ascii ''cp1252_percent'') = Some f
      \<and> f [0x42F, 0x20AC] = Inr (ascii ''%3F%80'')"
proof (intro exI conjI)
  show "dict_get (TRANSFORMS lib) (ascii ''cp1252_percent'') = Some (f_pct lib (ascii ''cp1252''))"
    by (rule lookup_generated) (simp add: generated_def)
  show "f_pct lib (ascii ''cp1252'') [0x42F, 0x20AC] = Inr (ascii ''%3F%80'')"
    by (rule value_cp1252_percent)
qed

lemma value_utf16le_hex: "f_hex lib (ascii ''utf-16le'') [0x42F, 0x20AC] = Inr (ascii ''2f04ac20'')"
  unfolding f_hex_bytes [OF replace_utf16le bytes_utf16le] sample_utf16le by (simp add: hexlify_def hexdigit_def ascii_def)

lemma registered_utf16le_hex:
  "\<exists>f. dict_get (TRANSFORMS lib) (ascii ''utf16le_hex'') = Some f
      \<and> f [0x42F, 0x20AC] = Inr (ascii ''2f04ac20'')"
proof (intro exI conjI)
  show "dict_get (TRANSFORMS lib) (ascii ''utf16le_hex'') = Some (f_hex lib (ascii ''utf-16le''))"
    by (rule lookup_generated) (simp add: generated_def)
  show "f_hex lib (ascii ''utf-16le'') [0x42F, 0x20AC] = Inr (ascii ''2f04ac20'')"
    by (rule value_utf16le_hex)
qed

lemma value_utf16le_base64: "f_b64 lib (ascii ''utf-16le'') [0x42F, 0x20AC] = Inr (ascii ''LwSsIA=='')"
  unfolding f_b64_bytes [OF replace_utf16le] sample_utf16le by (simp add: b64chr_def ascii_def)

lemma registered_utf16le_base64:
  "\<exists>f. dict_get (TRANSFORMS lib) (ascii ''utf16le_base64'') = Some f
      \<and> f [0x42F, 0x20AC] = Inr (ascii ''LwSsIA=='')"
proof (intro exI conjI)
  show "dict_get (TRANSFORMS lib) (ascii ''utf16le_base64'') = Some (f_b64 lib (ascii ''utf-16le''))"
    by (rule lookup_generated) (simp add: generated_def)
  show "f_b64 lib (ascii ''utf-16le'') [0x42F, 0x20AC] = Inr (ascii ''LwSsIA=='')"
    by (rule value_utf16le_base64)
qed

lemma value_utf16le_percent: "f_pct lib (ascii ''utf-16le'') [0x42F, 0x20AC] = Inr (ascii ''%2F%04%AC%20'')"
  unfolding f_pct_bytes [OF replace_utf16le] sample_utf16le by (simp add: fmt_hex_def hex_nat.simps hexdigit_upper_def ascii_def)

lemma registered_utf16le_percent:
  "\<exists>f. dict_get (TRANSFORMS lib) (ascii ''utf16le_percent'') = Some f
      \<and> f [0x42F, 0x20AC] = Inr (ascii ''%2F%04%AC%20'')"
proof (intro exI conjI)
  show "dict_get (TRANSFORMS lib) (ascii ''utf16le_percent'') = Some (f_pct lib (ascii ''utf-16le''))"
    by (rule lookup_generated) (simp add: generated_def)
  show "f_pct lib (ascii ''utf-16le'') [0x42F, 0x20AC] = Inr (ascii ''%2F%04%AC%20'')"
    by (rule value_utf16le_percent)
qed

lemma value_utf16be_hex: "f_hex lib (ascii ''utf-16be'') [0x42F, 0x20AC] = Inr (ascii ''042f20ac'')"
  unfolding f_hex_bytes [OF replace_utf16be bytes_utf16be] sample_utf16be by (simp add: hexlify_def hexdigit_def ascii_def)

lemma registered_utf16be_hex:
  "\<exists>f. dict_get (TRANSFORMS lib) (ascii ''utf16be_hex'') = Some f
      \<and> f [0x42F, 0x20AC] = Inr (ascii ''042f20ac'')"
proof (intro exI conjI)
  show "dict_get (TRANSFORMS lib) (ascii ''utf16be_hex'') = Some (f_hex lib (ascii ''utf-16be''))"
    by (rule lookup_generated) (simp add: generated_def)
  show "f_hex lib (ascii ''utf-16be'') [0x42F, 0x20AC] = Inr (ascii ''042f20ac'')"
    by (rule value_utf16be_hex)
qed

lemma value_utf16be_base64: "f_b64 lib (ascii ''utf-16be'') [0x42F, 0x20AC] = Inr (ascii ''BC8grA=='')"
  unfolding f_b64_bytes [OF replace_utf16be] sample_utf16be by (simp add: b64chr_def ascii_def)

lemma registered_utf16be_base64:
  "\<exists>f. dict_get (TRANSFORMS lib) (ascii ''utf16be_base64'') = Some f
      \<and> f [0x42F, 0x20AC] = Inr (ascii ''BC8grA=='')"
proof (intro exI conjI)
  show "dict_get (TRANSFORMS lib) (ascii ''utf16be_base64'') = Some (f_b64 lib (ascii ''utf-16be''))"
    by (rule lookup_generated) (simp add: generated_def)
  show "f_b64 lib (ascii ''utf-16be'') [0x42F, 0x20AC] = Inr (ascii ''BC8grA=='')"
    by (rule value_utf16be_base64)
qed

lemma value_utf16be_percent: "f_pct lib (ascii ''utf-16be'') [0x42F, 0x20AC] = Inr (ascii ''%04%2F%20%AC'')"
  unfolding f_pct_bytes [OF replace_utf16be] sample_utf16be by (simp add: fmt_hex_def hex_nat.simps hexdigit_upper_def ascii_def)

lemma registered_utf16be_percent:
  "\<exists>f. dict_get (TRANSFORMS lib) (ascii ''utf16be_percent'') = Some f
      \<and> f [0x42F, 0x20AC] = Inr (ascii ''%04%2F%20%AC'')"
proof (intro exI conjI)
  show "dict_get (TRANSFORMS lib) (ascii ''utf16be_percent'') = Some (f_pct lib (ascii ''utf-16be''))"
    by (rule lookup_generated) (simp add: generated_def)
  show "f_pct lib (ascii ''utf-16be'') [0x42F, 0x20AC] = Inr (ascii ''%04%2F%20%AC'')"
    by (rule value_utf16be_percent)
qed

lemma f_hex_latin1: "f_hex lib (ascii ''latin1'') [0x42F] = Inr (ascii ''3f'')"
  by (simp add: f_hex_def str_encode_latin1 encode_with_def encode_replace_def
        latin1_char_def hex_def hexlify_def hexdigit_def decode_ascii_def bind_exn_def)
     (simp add: ascii_def)

lemma f_hex_cp1251: "f_hex lib (ascii ''cp1251'') [0x42F] = Inr (ascii ''df'')"
  by (simp add: f_hex_def str_encode_cp1251 encode_with_def encode_replace_def
        cp1251_char_def hex_def hexlify_def hexdigit_def decode_ascii_def bind_exn_def)
     (simp add: ascii_def)

lemma f_hex_latin1_a: "f_hex lib (ascii ''latin1'') [97] = Inr [54, 49]"
  by (simp add: f_hex_def str_encode_latin1 encode_with_def encode_replace_def
        latin1_char_def hex_def hexlify_def hexdigit_def decode_ascii_def bind_exn_def)

lemma f_pct_not_hex: "f_pct lib encoding [97] \<noteq> Inr [54, 49]"
proof (cases "str_encode lib encoding Replace [97]")
  case (Inl e)
  then show ?thesis by (simp add: f_pct_def bind_exn_def)
next
  case (Inr bs)
  then show ?thesis
    by (cases bs) (simp_all add: f_pct_def bind_exn_def)
qed

lemma last_pair: "last (List.product BYTE_ENCODINGS OUTPUTS) = (ascii ''utf-7'', ascii ''percent'')"
  by (simp add: BYTE_ENCODINGS_def OUTPUTS_def)

text \<open>
  Claim C4. Every generated transform is the closure made from the encoding and the
  representation of its own pair, and what it computes is written out: for each of
  the six encodings with a table here, the three transforms registered under its name
  return the hexadecimal digits, the Base64 text and the \<open>%XX\<close> form of the bytes
  of that very encoding (with \<open>errors='replace'\<close>); the three \<open>utf-7\<close> transforms do the
  same with the bytes of the library's \<open>utf-7\<close> codec and return their input where it
  raises. On the two-character string U+042F U+20AC the eighteen transforms of the
  six encodings give eighteen values, each the one of its own pair. The transforms
  \<open>latin1_hex\<close> and \<open>cp1251_hex\<close> differ on the one-character string U+042F, whose
  byte is \<open>0xDF\<close> in cp1251 and which latin1 replaces by \<open>?\<close>; and \<open>latin1_hex\<close> is
  not the closure of the last pair of the loop, from which it differs on the string
  \<open>a\<close>.
\<close>

theorem generated_own_parameters:
  "(\<forall>(enc, out) \<in> set (List.product BYTE_ENCODINGS OUTPUTS).
      \<exists>f. make_bytes_transform lib enc out = Inr f
        \<and> dict_get (TRANSFORMS lib) (bytes_name enc out) = Some f)
   \<and> (\<exists>f g. dict_get (TRANSFORMS lib) (ascii ''latin1_hex'') = Some f
          \<and> dict_get (TRANSFORMS lib) (ascii ''cp1251_hex'') = Some g
          \<and> f [0x42F] = Inr (ascii ''3f'')
          \<and> g [0x42F] = Inr (ascii ''df'')
          \<and> f [0x42F] \<noteq> g [0x42F]
          \<and> (\<forall>h. (case last (List.product BYTE_ENCODINGS OUTPUTS) of
                     (enc, out) \<Rightarrow> make_bytes_transform lib enc out) = Inr h
                 \<longrightarrow> f [97] \<noteq> h [97]))
   \<and> (\<forall>(enc, ch, q) \<in> set
           [(''utf-8'', utf8_char, [63]),
            (''latin1'', latin1_char, [63]),
            (''cp1251'', cp1251_char, [63]),
            (''cp1252'', cp1252_char, [63]),
            (''utf-16le'', utf16le_char, [63, 0]),
            (''utf-16be'', utf16be_char, [0, 63])].
      \<exists>fh fb fp.
        dict_get (TRANSFORMS lib) (bytes_name (ascii enc) (ascii ''hex'')) = Some fh
      \<and> dict_get (TRANSFORMS lib) (bytes_name (ascii enc) (ascii ''base64'')) = Some fb
      \<and> dict_get (TRANSFORMS lib) (bytes_name (ascii enc) (ascii ''percent'')) = Some fp
      \<and> (\<forall>s. fh s = Inr (hexlify (encode_replace ch q s))
             \<and> fb s = Inr (b64encode (encode_replace ch q s))
             \<and> fp s = Inr (concat (map (\<lambda>byte. 37 # fmt_hex True 2 byte)
                                      (encode_replace ch q s)))))
   \<and> (\<exists>fh fb fp.
        dict_get (TRANSFORMS lib) (ascii ''utf7_hex'') = Some fh
      \<and> dict_get (TRANSFORMS lib) (ascii ''utf7_base64'') = Some fb
      \<and> dict_get (TRANSFORMS lib) (ascii ''utf7_percent'') = Some fp
      \<and> (\<forall>s e. utf7_encode lib Replace s = Inl e \<longrightarrow>
             fh s = Inr s \<and> fb s = Inr s \<and> fp s = Inr s)
      \<and> (\<forall>s b. utf7_encode lib Replace s = Inr b \<longrightarrow>
             (list_all (\<lambda>x. x < 256) b \<longrightarrow> fh s = Inr (hexlify b))
           \<and> fb s = Inr (b64encode b)
           \<and> fp s = Inr (concat (map (\<lambda>byte. 37 # fmt_hex True 2 byte) b))))
   \<and> (\<forall>(name, v) \<in> set
           [(''utf8_hex'', ''d0afe282ac''),
            (''utf8_base64'', ''0K/igqw=''),
            (''utf8_percent'', ''%D0%AF%E2%82%AC''),
            (''latin1_hex'', ''3f3f''),
            (''latin1_base64'', ''Pz8=''),
            (''latin1_percent'', ''%3F%3F''),
            (''cp1251_hex'', ''df88''),
            (''cp1251_base64'', ''34g=''),
            (''cp1251_percent'', ''%DF%88''),
            (''cp1252_hex'', ''3f80''),
            (''cp1252_base64'', ''P4A=''),
            (''cp1252_percent'', ''%3F%80''),
            (''utf16le_hex'', ''2f04ac20''),
            (''utf16le_base64'', ''LwSsIA==''),
            (''utf16le_percent'', ''%2F%04%AC%20''),
            (''utf16be_hex'', ''042f20ac''),
            (''utf16be_base64'', ''BC8grA==''),
            (''utf16be_percent'', ''%04%2F%20%AC'')].
      \<exists>f. dict_get (TRANSFORMS lib) (ascii name) = Some f
        \<and> f [0x42F, 0x20AC] = Inr (ascii v))"
proof (intro conjI)
  show "(\<forall>(enc, out) \<in> set (List.product BYTE_ENCODINGS OUTPUTS).
      \<exists>f. make_bytes_transform lib enc out = Inr f
        \<and> dict_get (TRANSFORMS lib) (bytes_name enc out) = Some f)"
    using generated_own_closure by blast
  have l: "dict_get (TRANSFORMS lib) (ascii ''latin1_hex'') = Some (f_hex lib (ascii ''latin1''))"
    by (rule lookup_generated) (simp add: generated_def)
  have c: "dict_get (TRANSFORMS lib) (ascii ''cp1251_hex'') = Some (f_hex lib (ascii ''cp1251''))"
    by (rule lookup_generated) (simp add: generated_def)
  have d: "Inr (ascii ''3f'') \<noteq> (Inr (ascii ''df'') :: exn + pystr)"
    by (simp add: ascii_inj)
  have h: "\<forall>h. (case last (List.product BYTE_ENCODINGS OUTPUTS) of
                     (enc, out) \<Rightarrow> make_bytes_transform lib enc out) = Inr h
                 \<longrightarrow> f_hex lib (ascii ''latin1'') [97] \<noteq> h [97]"
    using f_pct_not_hex [of lib "ascii ''utf-7''"]
    by (auto simp: last_pair make_bytes_transform_def ascii_inj f_hex_latin1_a)
  show "(\<exists>f g. dict_get (TRANSFORMS lib) (ascii ''latin1_hex'') = Some f
          \<and> dict_get (TRANSFORMS lib) (ascii ''cp1251_hex'') = Some g
          \<and> f [0x42F] = Inr (ascii ''3f'')
          \<and> g [0x42F] = Inr (ascii ''df'')
          \<and> f [0x42F] \<noteq> g [0x42F]
          \<and> (\<forall>h. (case last (List.product BYTE_ENCODINGS OUTPUTS) of
                     (enc, out) \<Rightarrow> make_bytes_transform lib enc out) = Inr h
                 \<longrightarrow> f [97] \<noteq> h [97]))"
    using l c d h by (simp add: f_hex_latin1 f_hex_cp1251)
  have m: "ascii ''utf-8'' \<in> set BYTE_ENCODINGS" "ascii ''latin1'' \<in> set BYTE_ENCODINGS"
    "ascii ''cp1251'' \<in> set BYTE_ENCODINGS" "ascii ''cp1252'' \<in> set BYTE_ENCODINGS"
    "ascii ''utf-16le'' \<in> set BYTE_ENCODINGS" "ascii ''utf-16be'' \<in> set BYTE_ENCODINGS"
    "ascii ''utf-7'' \<in> set BYTE_ENCODINGS"
    by (simp_all add: BYTE_ENCODINGS_def)
  note t = codec_closures [OF m(1) replace_utf8 encode_replace_bytes, of lib]
    codec_closures [OF m(2) replace_latin1 bytes_latin1, of lib]
    codec_closures [OF m(3) replace_cp1251 bytes_cp1251, of lib]
    codec_closures [OF m(4) replace_cp1252 bytes_cp1252, of lib]
    codec_closures [OF m(5) replace_utf16le bytes_utf16le, of lib]
    codec_closures [OF m(6) replace_utf16be bytes_utf16be, of lib]
  show "(\<forall>(enc, ch, q) \<in> set
           [(''utf-8'', utf8_char, [63]),
            (''latin1'', latin1_char, [63]),
            (''cp1251'', cp1251_char, [63]),
            (''cp1252'', cp1252_char, [63]),
            (''utf-16le'', utf16le_char, [63, 0]),
            (''utf-16be'', utf16be_char, [0, 63])].
      \<exists>fh fb fp.
        dict_get (TRANSFORMS lib) (bytes_name (ascii enc) (ascii ''hex'')) = Some fh
      \<and> dict_get (TRANSFORMS lib) (bytes_name (ascii enc) (ascii ''base64'')) = Some fb
      \<and> dict_get (TRANSFORMS lib) (bytes_name (ascii enc) (ascii ''percent'')) = Some fp
      \<and> (\<forall>s. fh s = Inr (hexlify (encode_replace ch q s))
             \<and> fb s = Inr (b64encode (encode_replace ch q s))
             \<and> fp s = Inr (concat (map (\<lambda>byte. 37 # fmt_hex True 2 byte)
                                      (encode_replace ch q s)))))"
    using t by simp
  show "(\<exists>fh fb fp.
        dict_get (TRANSFORMS lib) (ascii ''utf7_hex'') = Some fh
      \<and> dict_get (TRANSFORMS lib) (ascii ''utf7_base64'') = Some fb
      \<and> dict_get (TRANSFORMS lib) (ascii ''utf7_percent'') = Some fp
      \<and> (\<forall>s e. utf7_encode lib Replace s = Inl e \<longrightarrow>
             fh s = Inr s \<and> fb s = Inr s \<and> fp s = Inr s)
      \<and> (\<forall>s b. utf7_encode lib Replace s = Inr b \<longrightarrow>
             (list_all (\<lambda>x. x < 256) b \<longrightarrow> fh s = Inr (hexlify b))
           \<and> fb s = Inr (b64encode b)
           \<and> fp s = Inr (concat (map (\<lambda>byte. 37 # fmt_hex True 2 byte) b))))"
  proof (intro exI conjI allI impI)
    show "dict_get (TRANSFORMS lib) (ascii ''utf7_hex'') = Some (f_hex lib (ascii ''utf-7''))"
      using registered_closures(1) [OF m(7), of lib] by (simp only: generated_names)
    show "dict_get (TRANSFORMS lib) (ascii ''utf7_base64'') = Some (f_b64 lib (ascii ''utf-7''))"
      using registered_closures(2) [OF m(7), of lib] by (simp only: generated_names)
    show "dict_get (TRANSFORMS lib) (ascii ''utf7_percent'') = Some (f_pct lib (ascii ''utf-7''))"
      using registered_closures(3) [OF m(7), of lib] by (simp only: generated_names)
    show "f_hex lib (ascii ''utf-7'') s = Inr s" if "utf7_encode lib Replace s = Inl e" for s e
      using f_raise [of lib "ascii ''utf-7''" s e] that by (simp add: str_encode_utf7)
    show "f_b64 lib (ascii ''utf-7'') s = Inr s" if "utf7_encode lib Replace s = Inl e" for s e
      using f_raise [of lib "ascii ''utf-7''" s e] that by (simp add: str_encode_utf7)
    show "f_pct lib (ascii ''utf-7'') s = Inr s" if "utf7_encode lib Replace s = Inl e" for s e
      using f_raise [of lib "ascii ''utf-7''" s e] that by (simp add: str_encode_utf7)
    show "f_hex lib (ascii ''utf-7'') s = Inr (hexlify b)"
      if "utf7_encode lib Replace s = Inr b" "list_all (\<lambda>x. x < 256) b" for s b
      using f_hex_bytes [of lib "ascii ''utf-7''" s b] that by (simp add: str_encode_utf7)
    show "f_b64 lib (ascii ''utf-7'') s = Inr (b64encode b)"
      if "utf7_encode lib Replace s = Inr b" for s b
      using f_b64_bytes [of lib "ascii ''utf-7''" s b] that by (simp add: str_encode_utf7)
    show "f_pct lib (ascii ''utf-7'') s = Inr (concat (map (\<lambda>byte. 37 # fmt_hex True 2 byte) b))"
      if "utf7_encode lib Replace s = Inr b" for s b
      using f_pct_bytes [of lib "ascii ''utf-7''" s b] that by (simp add: str_encode_utf7)
  qed
  show "(\<forall>(name, v) \<in> set
           [(''utf8_hex'', ''d0afe282ac''),
            (''utf8_base64'', ''0K/igqw=''),
            (''utf8_percent'', ''%D0%AF%E2%82%AC''),
            (''latin1_hex'', ''3f3f''),
            (''latin1_base64'', ''Pz8=''),
            (''latin1_percent'', ''%3F%3F''),
            (''cp1251_hex'', ''df88''),
            (''cp1251_base64'', ''34g=''),
            (''cp1251_percent'', ''%DF%88''),
            (''cp1252_hex'', ''3f80''),
            (''cp1252_base64'', ''P4A=''),
            (''cp1252_percent'', ''%3F%80''),
            (''utf16le_hex'', ''2f04ac20''),
            (''utf16le_base64'', ''LwSsIA==''),
            (''utf16le_percent'', ''%2F%04%AC%20''),
            (''utf16be_hex'', ''042f20ac''),
            (''utf16be_base64'', ''BC8grA==''),
            (''utf16be_percent'', ''%04%2F%20%AC'')].
      \<exists>f. dict_get (TRANSFORMS lib) (ascii name) = Some f
        \<and> f [0x42F, 0x20AC] = Inr (ascii v))"
    using registered_utf8_hex [of lib]
      registered_utf8_base64 [of lib]
      registered_utf8_percent [of lib]
      registered_latin1_hex [of lib]
      registered_latin1_base64 [of lib]
      registered_latin1_percent [of lib]
      registered_cp1251_hex [of lib]
      registered_cp1251_base64 [of lib]
      registered_cp1251_percent [of lib]
      registered_cp1252_hex [of lib]
      registered_cp1252_base64 [of lib]
      registered_cp1252_percent [of lib]
      registered_utf16le_hex [of lib]
      registered_utf16le_base64 [of lib]
      registered_utf16le_percent [of lib]
      registered_utf16be_hex [of lib]
      registered_utf16be_base64 [of lib]
      registered_utf16be_percent [of lib]
    by simp
qed

theorem generated_own_parameters_witness:
  "(ascii ''cp1251'', ascii ''hex'') \<in> set (List.product BYTE_ENCODINGS OUTPUTS)
   \<and> (\<exists>f. make_bytes_transform sample_lib (ascii ''cp1251'') (ascii ''hex'') = Inr f
          \<and> dict_get (TRANSFORMS sample_lib) (bytes_name (ascii ''cp1251'') (ascii ''hex''))
              = Some f)
   \<and> (\<exists>f. dict_get (TRANSFORMS sample_lib) (ascii ''cp1251_base64'') = Some f
          \<and> f [0x42F, 0x20AC] = Inr (ascii ''34g=''))
   \<and> (\<exists>f. dict_get (TRANSFORMS sample_lib) (bytes_name (ascii ''utf-16be'') (ascii ''percent''))
              = Some f
          \<and> f [0x42F] = Inr (ascii ''%04%2F''))
   \<and> utf7_encode sample_lib Replace (ascii ''a'') = Inl LibraryError
   \<and> (\<exists>f. dict_get (TRANSFORMS sample_lib) (ascii ''utf7_base64'') = Some f
          \<and> f (ascii ''a'') = Inr (ascii ''a''))
   \<and> utf7_encode (sample_lib\<lparr>utf7_encode := \<lambda>errs s. Inr s\<rparr>) Replace (ascii ''a'')
        = Inr (ascii ''a'')
   \<and> list_all (\<lambda>x. x < 256) (ascii ''a'')
   \<and> (\<exists>f. dict_get (TRANSFORMS (sample_lib\<lparr>utf7_encode := \<lambda>errs s. Inr s\<rparr>))
               (ascii ''utf7_hex'') = Some f
          \<and> f (ascii ''a'') = Inr (ascii ''61''))"
proof -
  let ?lib = "sample_lib\<lparr>utf7_encode := \<lambda>errs s. Inr s\<rparr>"
  note g = generated_own_parameters [of sample_lib]
  note g' = generated_own_parameters [of ?lib]
  have m: "(ascii ''cp1251'', ascii ''hex'') \<in> set (List.product BYTE_ENCODINGS OUTPUTS)"
    by (simp add: BYTE_ENCODINGS_def OUTPUTS_def)
  have "\<forall>(enc, out) \<in> set (List.product BYTE_ENCODINGS OUTPUTS).
          \<exists>f. make_bytes_transform sample_lib enc out = Inr f
            \<and> dict_get (TRANSFORMS sample_lib) (bytes_name enc out) = Some f"
    using g by blast
  with m have p1: "\<exists>f. make_bytes_transform sample_lib (ascii ''cp1251'') (ascii ''hex'') = Inr f
          \<and> dict_get (TRANSFORMS sample_lib) (bytes_name (ascii ''cp1251'') (ascii ''hex''))
              = Some f"
    by blast
  have "\<forall>(name, v) \<in> set
           [(''utf8_hex'', ''d0afe282ac''),
            (''utf8_base64'', ''0K/igqw=''),
            (''utf8_percent'', ''%D0%AF%E2%82%AC''),
            (''latin1_hex'', ''3f3f''),
            (''latin1_base64'', ''Pz8=''),
            (''latin1_percent'', ''%3F%3F''),
            (''cp1251_hex'', ''df88''),
            (''cp1251_base64'', ''34g=''),
            (''cp1251_percent'', ''%DF%88''),
            (''cp1252_hex'', ''3f80''),
            (''cp1252_base64'', ''P4A=''),
            (''cp1252_percent'', ''%3F%80''),
            (''utf16le_hex'', ''2f04ac20''),
            (''utf16le_base64'', ''LwSsIA==''),
            (''utf16le_percent'', ''%2F%04%AC%20''),
            (''utf16be_hex'', ''042f20ac''),
            (''utf16be_base64'', ''BC8grA==''),
            (''utf16be_percent'', ''%04%2F%20%AC'')].
      \<exists>f. dict_get (TRANSFORMS sample_lib) (ascii name) = Some f
        \<and> f [0x42F, 0x20AC] = Inr (ascii v)"
    using g by blast
  then have p2: "\<exists>f. dict_get (TRANSFORMS sample_lib) (ascii ''cp1251_base64'') = Some f
          \<and> f [0x42F, 0x20AC] = Inr (ascii ''34g='')"
    by simp
  have "\<forall>(enc, ch, q) \<in> set
           [(''utf-8'', utf8_char, [63]),
            (''latin1'', latin1_char, [63]),
            (''cp1251'', cp1251_char, [63]),
            (''cp1252'', cp1252_char, [63]),
            (''utf-16le'', utf16le_char, [63, 0]),
            (''utf-16be'', utf16be_char, [0, 63])].
      \<exists>fh fb fp.
        dict_get (TRANSFORMS sample_lib) (bytes_name (ascii enc) (ascii ''hex'')) = Some fh
      \<and> dict_get (TRANSFORMS sample_lib) (bytes_name (ascii enc) (ascii ''base64'')) = Some fb
      \<and> dict_get (TRANSFORMS sample_lib) (bytes_name (ascii enc) (ascii ''percent'')) = Some fp
      \<and> (\<forall>s. fh s = Inr (hexlify (encode_replace ch q s))
             \<and> fb s = Inr (b64encode (encode_replace ch q s))
             \<and> fp s = Inr (concat (map (\<lambda>byte. 37 # fmt_hex True 2 byte)
                                      (encode_replace ch q s))))"
    using g by blast
  then obtain fp where
    "dict_get (TRANSFORMS sample_lib) (bytes_name (ascii ''utf-16be'') (ascii ''percent'')) = Some fp"
    and "\<forall>s. fp s = Inr (concat (map (\<lambda>byte. 37 # fmt_hex True 2 byte)
                                  (encode_replace utf16be_char [0, 63] s)))"
    by auto
  moreover have "concat (map (\<lambda>byte. 37 # fmt_hex True 2 byte)
                    (encode_replace utf16be_char [0, 63] [0x42F])) = ascii ''%04%2F''"
    by (simp add: encode_replace_def utf16be_char_def utf16_units_def is_surrogate_def
          fmt_hex_def hex_nat.simps hexdigit_upper_def ascii_def)
  ultimately have p3:
    "\<exists>f. dict_get (TRANSFORMS sample_lib) (bytes_name (ascii ''utf-16be'') (ascii ''percent''))
              = Some f
          \<and> f [0x42F] = Inr (ascii ''%04%2F'')"
    by simp
  have u: "utf7_encode sample_lib Replace (ascii ''a'') = Inl LibraryError"
    by (simp add: sample_lib_def)
  from g obtain fb where "dict_get (TRANSFORMS sample_lib) (ascii ''utf7_base64'') = Some fb"
    and "\<forall>s e. utf7_encode sample_lib Replace s = Inl e \<longrightarrow> fb s = Inr s"
    by blast
  with u have p4: "\<exists>f. dict_get (TRANSFORMS sample_lib) (ascii ''utf7_base64'') = Some f
          \<and> f (ascii ''a'') = Inr (ascii ''a'')"
    by blast
  have u': "utf7_encode ?lib Replace (ascii ''a'') = Inr (ascii ''a'')"
    by simp
  have b: "list_all (\<lambda>x. x < 256) (ascii ''a'')"
    by (simp add: ascii_def)
  from g' obtain fh where "dict_get (TRANSFORMS ?lib) (ascii ''utf7_hex'') = Some fh"
    and "\<forall>s b. utf7_encode ?lib Replace s = Inr b \<longrightarrow>
           (list_all (\<lambda>x. x < 256) b \<longrightarrow> fh s = Inr (hexlify b))"
    by blast
  with u' b have "dict_get (TRANSFORMS ?lib) (ascii ''utf7_hex'') = Some fh"
    and "fh (ascii ''a'') = Inr (hexlify (ascii ''a''))"
    by blast+
  moreover have "hexlify (ascii ''a'') = ascii ''61''"
    by (simp add: hexlify_def hexdigit_def ascii_def)
  ultimately have p5: "\<exists>f. dict_get (TRANSFORMS ?lib) (ascii ''utf7_hex'') = Some f
          \<and> f (ascii ''a'') = Inr (ascii ''61'')"
    by simp
  from m p1 p2 p3 u p4 u' b p5 show ?thesis
    by (intro conjI)
qed

end
